theory Spec2Isabelle
  imports Complex_Main "HOL-Library.Multiset"
begin

section \<open>JavaScript values used by the dashboard\<close>

text \<open>
  Numbers read from the JSON datasets are finite decimals and are modelled as rationals;
  arithmetic on them is exact (the rounding of binary64 is left out).  A quotient can
  leave the finite numbers, so results of a division are \<open>jsnum\<close> values.
  Seasons are calendar years and are modelled as integers.
\<close>

datatype jsnum = Num rat | PosInf | NegInf | NaN

fun js_div :: "jsnum \<Rightarrow> jsnum \<Rightarrow> jsnum" where
  "js_div (Num a) (Num b) =
     (if b \<noteq> 0 then Num (a / b)
      else if a > 0 then PosInf else if a < 0 then NegInf else NaN)"
| "js_div (Num a) PosInf = Num 0"
| "js_div (Num a) NegInf = Num 0"
| "js_div PosInf (Num b) = (if b < 0 then NegInf else PosInf)"
| "js_div NegInf (Num b) = (if b < 0 then PosInf else NegInf)"
| "js_div _ _ = NaN"

fun js_mul :: "jsnum \<Rightarrow> jsnum \<Rightarrow> jsnum" where
  "js_mul (Num a) (Num b) = Num (a * b)"
| "js_mul PosInf (Num b) = (if b > 0 then PosInf else if b < 0 then NegInf else NaN)"
| "js_mul NegInf (Num b) = (if b > 0 then NegInf else if b < 0 then PosInf else NaN)"
| "js_mul (Num a) PosInf = (if a > 0 then PosInf else if a < 0 then NegInf else NaN)"
| "js_mul (Num a) NegInf = (if a > 0 then NegInf else if a < 0 then PosInf else NaN)"
| "js_mul PosInf PosInf = PosInf"
| "js_mul NegInf NegInf = PosInf"
| "js_mul PosInf NegInf = NegInf"
| "js_mul NegInf PosInf = NegInf"
| "js_mul _ _ = NaN"

fun js_ge0 :: "jsnum \<Rightarrow> bool" where
  "js_ge0 (Num a) = (a \<ge> 0)"
| "js_ge0 PosInf = True"
| "js_ge0 _ = False"

subsection \<open>Array.prototype.sort\<close>

text \<open>
  \<open>sort\<close> with a comparator is a stable sort: an element moves in front of another one
  only when the comparator returns a positive number for the pair in their current order.
  The model inserts the elements from the right into the sorted rest, in front of the
  first element that does not compare smaller.
\<close>

fun insert_cmp :: "('a \<Rightarrow> 'a \<Rightarrow> int) \<Rightarrow> 'a \<Rightarrow> 'a list \<Rightarrow> 'a list" where
  "insert_cmp cmp x [] = [x]"
| "insert_cmp cmp x (y # ys) =
     (if cmp x y \<le> 0 then x # y # ys else y # insert_cmp cmp x ys)"

definition array_sort :: "('a \<Rightarrow> 'a \<Rightarrow> int) \<Rightarrow> 'a list \<Rightarrow> 'a list" where
  "array_sort cmp xs = foldr (insert_cmp cmp) xs []"

section \<open>Data model\<close>

record Seasonal =
  season :: int

record SeasonMetric = Seasonal +
  avgThreeAttempts :: rat
  avgPoints :: rat
  avgThreeRate :: rat

text \<open>The comparator \<open>(a, b) => a.season - b.season\<close> of every renderer.\<close>

definition bySeason :: "'a Seasonal_scheme \<Rightarrow> 'a Seasonal_scheme \<Rightarrow> int" where
  "bySeason a b = season a - season b"

section \<open>Hero metric\<close>

text \<open>
  \<open>updateHeroMetrics\<close>: nothing happens on an empty array; otherwise a copy is sorted by
  season and the relative growth of the three-point rate between its first and its last
  element is computed.  \<open>heroGrowth\<close> is the local \<open>growth\<close>; \<open>heroText\<close> is the text
  handed to the \<open>#avgGrowth\<close> element, with the number format \<open>numberFmt\<close> of the
  visualization library as a parameter.
\<close>

definition growthOf :: "SeasonMetric \<Rightarrow> SeasonMetric \<Rightarrow> jsnum" where
  "growthOf first_d last_d =
     js_mul (js_div (Num (avgThreeRate last_d - avgThreeRate first_d))
                    (Num (avgThreeRate first_d)))
            (Num 100)"

definition heroGrowth :: "SeasonMetric list \<Rightarrow> jsnum option" where
  "heroGrowth data =
     (if length data = 0 then None
      else let sorted = array_sort bySeason data;
               first_d = sorted ! 0;
               last_d = sorted ! (length sorted - 1)
           in Some (growthOf first_d last_d))"

definition heroText :: "(jsnum \<Rightarrow> string) \<Rightarrow> SeasonMetric list \<Rightarrow> string option" where
  "heroText numberFmt data =
     map_option (\<lambda>growth. (if js_ge0 growth then ''+'' else '''') @ numberFmt growth)
       (heroGrowth data)"


section \<open>Heatmap row order\<close>

record HeatmapCell = Seasonal +
  abbr :: string
  cellCity :: string
  cellTeam :: string
  threeRate :: "rat option"
  cellThreePct :: rat

text \<open>
  \<open>threeRate\<close> is \<open>None\<close> when the field is missing or null in the JSON record; the
  renderer reads it through \<open>?? 0\<close>.

  \<open>Array.from(new Set(xs))\<close>: a set keeps its values in the order of their first
  insertion.
\<close>

fun set_add_all :: "'a list \<Rightarrow> 'a list \<Rightarrow> 'a list" where
  "set_add_all seen [] = seen"
| "set_add_all seen (x # xs) = set_add_all (if x \<in> set seen then seen else seen @ [x]) xs"

definition uniqueValues :: "'a list \<Rightarrow> 'a list" where
  "uniqueValues xs = set_add_all [] xs"

text \<open>\<open>Math.max(...xs)\<close> is \<open>-Infinity\<close> for no arguments.\<close>

fun math_max :: "int list \<Rightarrow> jsnum" where
  "math_max [] = NegInf"
| "math_max (x # xs) = Num (of_int (fold max xs x))"

text \<open>\<open>d3.descending\<close> on two numbers.\<close>

definition d3_descending :: "rat \<Rightarrow> rat \<Rightarrow> int" where
  "d3_descending a b = (if b < a then - 1 else if b > a then 1 else 0)"

definition heatmapSeasons :: "HeatmapCell list \<Rightarrow> int list" where
  "heatmapSeasons data = array_sort (\<lambda>a b. a - b) (uniqueValues (map season data))"

definition latestSeason :: "HeatmapCell list \<Rightarrow> jsnum" where
  "latestSeason data = math_max (heatmapSeasons data)"

text \<open>
  \<open>teamLatest\<close> is the rollup of the latest season's records by team code that keeps the
  first record of each group; \<open>teamLatest data a\<close> is \<open>teamLatest.get(a)\<close>.
\<close>

definition teamLatest :: "HeatmapCell list \<Rightarrow> string \<Rightarrow> HeatmapCell option" where
  "teamLatest data a =
     find (\<lambda>d. abbr d = a) (filter (\<lambda>d. Num (of_int (season d)) = latestSeason data) data)"

definition latestRate :: "HeatmapCell list \<Rightarrow> string \<Rightarrow> rat" where
  "latestRate data a =
     (case teamLatest data a of
        None \<Rightarrow> 0
      | Some d \<Rightarrow> (case threeRate d of None \<Rightarrow> 0 | Some r \<Rightarrow> r))"

definition heatmapTeams :: "HeatmapCell list \<Rightarrow> string list" where
  "heatmapTeams data =
     array_sort (\<lambda>a b. d3_descending (latestRate data a) (latestRate data b))
       (uniqueValues (map abbr data))"

text \<open>The position of the first occurrence of a value in an array (its length if absent).\<close>

definition firstIndex :: "'a list \<Rightarrow> 'a \<Rightarrow> nat" where
  "firstIndex xs a = length (takeWhile (\<lambda>x. x \<noteq> a) xs)"

section \<open>The page and the shared tooltip\<close>

text \<open>
  The document is modelled by the anchor elements it contains (by id), the drawings the
  renderers have put into their containers, the console and the tooltip singleton.
  Pixel geometry (tooltip position, colours, stroke widths, transitions in progress) is
  not part of the state; an attribute that a transition animates is represented by its
  target value.
\<close>

datatype error = TypeError | ReferenceError | FetchError

datatype logline = ConsoleError string | ConsoleWarn string

record tooltip =
  shown :: bool
  html :: string

record page =
  anchors :: "string list"
  topojsonLoaded :: bool
  console :: "logline list"
  drawings :: "string list"
  texts :: "(string \<times> string) list"
  tip :: tooltip

text \<open>
  Every renderer starts with \<open>container.selectAll("*").remove()\<close> and
  \<open>container.node().getBoundingClientRect()\<close>.  On an empty selection the first is a
  no-op and \<open>node()\<close> is null, so the second throws a TypeError.
\<close>

definition clearContainer :: "string \<Rightarrow> 'a page_scheme \<Rightarrow> error + 'a page_scheme" where
  "clearContainer c p =
     (if c \<in> set (anchors p) then Inr (p\<lparr>drawings := removeAll c (drawings p)\<rparr>)
      else Inl TypeError)"

definition appendSvg :: "string \<Rightarrow> 'a page_scheme \<Rightarrow> 'a page_scheme" where
  "appendSvg c p = p\<lparr>drawings := c # drawings p\<rparr>"

text \<open>\<open>width = bounds.width || 960\<close>, less the two horizontal margins.\<close>

definition innerWidthOf :: "rat \<Rightarrow> rat \<Rightarrow> rat" where
  "innerWidthOf boundsWidth margins = (if boundsWidth = 0 then 960 else boundsWidth) - margins"

subsection \<open>Strings\<close>

fun showNat :: "nat \<Rightarrow> string" where
  "showNat n =
     (if n < 10 then [''0123456789'' ! n]
      else showNat (n div 10) @ [''0123456789'' ! (n mod 10)])"

declare showNat.simps [simp del]

definition showInt :: "int \<Rightarrow> string" where
  "showInt i = (if i < 0 then ''-'' @ showNat (nat (- i)) else showNat (nat i))"

fun js_join :: "string \<Rightarrow> string list \<Rightarrow> string" where
  "js_join sep [] = []"
| "js_join sep [x] = x"
| "js_join sep (x # y # ys) = x @ sep @ js_join sep (y # ys)"

text \<open>Truthiness of a value that is null or a string.\<close>

fun truthy :: "string option \<Rightarrow> bool" where
  "truthy None = False"
| "truthy (Some s) = (s \<noteq> [])"

text \<open>\<open>xs[i]\<close> is undefined outside the array.\<close>

definition at_index :: "'a list \<Rightarrow> int \<Rightarrow> 'a option" where
  "at_index xs i = (if 0 \<le> i \<and> i < int (length xs) then Some (xs ! nat i) else None)"

subsection \<open>Linear scale and centred bisection\<close>

text \<open>
  Modelled from the spec: the linear scale of the visualization library and its
  \<open>bisector(...).center\<close>, which are not among the repository's sources.  The season
  axis is a linear scale fit to the extent of the seasons over the range from 0 to the
  inner width; \<open>invert\<close> maps a pointer position back to a season value.  The nearest
  point is found by binary search over the sorted seasons: \<open>bisect_left\<close> is the
  insertion point among all but the last element, and \<open>bisect_center\<close> steps back by
  one when the element before the insertion point is strictly nearer.
\<close>

definition xInvert :: "rat \<Rightarrow> 'a Seasonal_scheme list \<Rightarrow> rat \<Rightarrow> rat" where
  "xInvert innerWidth data mx =
     (let lo = of_int (Min (season ` set data));
          hi = of_int (Max (season ` set data));
          t = (if innerWidth = 0 then 1 / 2 else mx / innerWidth)
      in lo * (1 - t) + hi * t)"

function bisect_left :: "('a \<Rightarrow> rat) \<Rightarrow> 'a list \<Rightarrow> rat \<Rightarrow> int \<Rightarrow> int \<Rightarrow> int" where
  "bisect_left f a x lo hi =
     (if lo < hi
      then let mid = (lo + hi) div 2
           in if f (a ! nat mid) < x then bisect_left f a x (mid + 1) hi
              else bisect_left f a x lo mid
      else lo)"
  by pat_completeness auto
termination
  by (relation "measure (\<lambda>(f, a, x, lo, hi). nat (hi - lo))") auto

declare bisect_left.simps [simp del]

definition bisect_center :: "('a \<Rightarrow> rat) \<Rightarrow> 'a list \<Rightarrow> rat \<Rightarrow> int" where
  "bisect_center f a x =
     (let i = bisect_left f a x 0 (int (length a) - 1)
      in if i > 0 \<and> f (a ! nat (i - 1)) - x > - (f (a ! nat i) - x) then i - 1 else i)"

definition seasonKey :: "'a Seasonal_scheme \<Rightarrow> rat" where
  "seasonKey d = of_int (season d)"

section \<open>League trends chart\<close>

record metric =
  key :: string
  label :: string
  color :: string
  accessor :: "SeasonMetric \<Rightarrow> rat"
  format :: "rat \<Rightarrow> string"
  suffix :: string

definition metricConfig :: "(jsnum \<Rightarrow> string) \<Rightarrow> metric list" where
  "metricConfig numberFmt =
     [\<lparr>key = ''avgThreeAttempts'', label = ''3PA per team game'', color = ''#f25f5c'',
       accessor = (\<lambda>d. avgThreeAttempts d), format = (\<lambda>v. numberFmt (Num v)),
       suffix = '' attempts''\<rparr>,
      \<lparr>key = ''avgPoints'', label = ''Points per team game'', color = ''#60d2ff'',
       accessor = (\<lambda>d. avgPoints d), format = (\<lambda>v. numberFmt (Num v)),
       suffix = '' pts''\<rparr>,
      \<lparr>key = ''avgThreeRate'', label = ''Share of FGA that are 3s'', color = ''#c4ff5f'',
       accessor = (\<lambda>d. avgThreeRate d * 100), format = (\<lambda>v. numberFmt (Num v) @ ''%''),
       suffix = ''''\<rparr>]"

text \<open>
  The closure of \<open>renderLeagueTrends\<close>: the sorted copy of the data, the metric filter,
  the season of the crosshair (\<open>None\<close> while it is hidden), the record the focus dots
  sit on and the keys of the dots drawn with opacity 1, and the keys of the legend
  buttons that were created.
\<close>

record leagueChart =
  lcData :: "SeasonMetric list"
  lcInnerWidth :: rat
  activeMetric :: "string option"
  crosshair :: "int option"
  focusDatum :: "SeasonMetric option"
  visibleDots :: "string list"
  legendButtons :: "string list"

definition tooltipRow :: "SeasonMetric \<Rightarrow> metric \<Rightarrow> string" where
  \<open>tooltipRow datum m =
     ''<span style="color:'' @ color m @ ''">'' @ label m @ '':</span> ''
       @ format m (accessor m datum) @ suffix m\<close>

definition tooltipRows :: "(jsnum \<Rightarrow> string) \<Rightarrow> string option \<Rightarrow> SeasonMetric \<Rightarrow> string" where
  "tooltipRows numberFmt active datum =
     js_join ''<br>''
       (map (tooltipRow datum)
          (filter (\<lambda>m. \<not> truthy active \<or> active = Some (key m)) (metricConfig numberFmt)))"

definition showTooltip ::
  "(jsnum \<Rightarrow> string) \<Rightarrow> leagueChart \<Rightarrow> SeasonMetric \<Rightarrow> 'a page_scheme \<Rightarrow> 'a page_scheme" where
  "showTooltip numberFmt chart datum p =
     p\<lparr>tip := \<lparr>shown = True,
                html = ''<strong>'' @ showInt (season datum) @ ''</strong><br>''
                         @ tooltipRows numberFmt (activeMetric chart) datum\<rparr>\<rparr>"

text \<open>The crosshair and focus dot updates shared by \<open>pointerMove\<close> and \<open>focusSeason\<close>.\<close>

definition focusOn :: "(jsnum \<Rightarrow> string) \<Rightarrow> leagueChart \<Rightarrow> SeasonMetric \<Rightarrow> leagueChart" where
  "focusOn numberFmt chart datum =
     chart\<lparr>crosshair := Some (season datum),
           focusDatum := Some datum,
           visibleDots :=
             map key (filter (\<lambda>m. \<not> (truthy (activeMetric chart) \<and> activeMetric chart \<noteq> Some (key m)))
                        (metricConfig numberFmt))\<rparr>"

definition renderLeagueTrends ::
  "(jsnum \<Rightarrow> string) \<Rightarrow> rat \<Rightarrow> SeasonMetric list \<Rightarrow> 'a page_scheme
     \<Rightarrow> (error + leagueChart) \<times> 'a page_scheme" where
  "renderLeagueTrends numberFmt boundsWidth rawData p =
     (let data = array_sort bySeason rawData
      in case clearContainer ''leagueTrendChart'' p of
           Inl e \<Rightarrow> (Inl e, p)
         | Inr p1 \<Rightarrow>
             (Inr \<lparr>lcData = data,
                   lcInnerWidth = innerWidthOf boundsWidth 100,
                   activeMetric = None,
                   crosshair = None,
                   focusDatum = None,
                   visibleDots = [],
                   legendButtons =
                     (if ''trendLegend'' \<in> set (anchors p1)
                      then map key (metricConfig numberFmt) else [])\<rparr>,
              appendSvg ''leagueTrendChart'' p1))"

definition pointerMove ::
  "(jsnum \<Rightarrow> string) \<Rightarrow> rat \<Rightarrow> leagueChart \<Rightarrow> 'a page_scheme \<Rightarrow> leagueChart \<times> 'a page_scheme" where
  "pointerMove numberFmt mx chart p =
     (let seasonValue = xInvert (lcInnerWidth chart) (lcData chart) mx;
          index = bisect_center seasonKey (lcData chart) seasonValue
      in case at_index (lcData chart) index of
           None \<Rightarrow> (chart, p)
         | Some datum \<Rightarrow> (focusOn numberFmt chart datum, showTooltip numberFmt chart datum p))"

definition pointerLeave :: "leagueChart \<Rightarrow> 'a page_scheme \<Rightarrow> leagueChart \<times> 'a page_scheme" where
  "pointerLeave chart p =
     (chart\<lparr>crosshair := None, visibleDots := []\<rparr>, p\<lparr>tip := (tip p)\<lparr>shown := False\<rparr>\<rparr>)"

definition setMetric :: "string option \<Rightarrow> leagueChart \<Rightarrow> leagueChart" where
  "setMetric k chart = chart\<lparr>activeMetric := k\<rparr>"

text \<open>
  \<open>data.find((d) => d.season === season) || data[data.length - 1]\<close>.  The argument is
  \<open>None\<close> for null, undefined or any value that is not a number.
\<close>

definition findSeason :: "int option \<Rightarrow> 'a Seasonal_scheme list \<Rightarrow> 'a Seasonal_scheme option" where
  "findSeason arg data =
     (case find (\<lambda>d. Some (season d) = arg) data of
        Some d \<Rightarrow> Some d
      | None \<Rightarrow> at_index data (int (length data) - 1))"

definition league_focusSeason ::
  "(jsnum \<Rightarrow> string) \<Rightarrow> int option \<Rightarrow> leagueChart \<Rightarrow> 'a page_scheme
     \<Rightarrow> error + leagueChart \<times> 'a page_scheme" where
  "league_focusSeason numberFmt arg chart p =
     (case findSeason arg (lcData chart) of
        None \<Rightarrow> Inl TypeError
      | Some datum \<Rightarrow> Inr (focusOn numberFmt chart datum, showTooltip numberFmt chart datum p))"

section \<open>Scoring mix chart\<close>

record ScoringMixRecord = Seasonal +
  twoPct :: rat
  threePct :: rat
  ftPct :: rat

definition scoringKeys :: "((ScoringMixRecord \<Rightarrow> rat) \<times> string \<times> string) list" where
  "scoringKeys =
     [(\<lambda>d. twoPct d, ''Points from 2s'', ''#60d2ff''),
      (\<lambda>d. threePct d, ''Points from 3s'', ''#f25f5c''),
      (\<lambda>d. ftPct d, ''Points from FT'', ''#c4ff5f'')]"

record scoringChart =
  smData :: "ScoringMixRecord list"
  focusLine :: "int option"

definition scoringRows :: "(jsnum \<Rightarrow> string) \<Rightarrow> ScoringMixRecord \<Rightarrow> string" where
  \<open>scoringRows percentFmt datum =
     js_join ''<br>''
       (map (\<lambda>(field, lbl, col).
               ''<span style="color:'' @ col @ ''">'' @ lbl @ '':</span> ''
                 @ percentFmt (Num (field datum)))
            scoringKeys)\<close>

definition showSeason ::
  "(jsnum \<Rightarrow> string) \<Rightarrow> ScoringMixRecord \<Rightarrow> scoringChart \<Rightarrow> 'a page_scheme
     \<Rightarrow> scoringChart \<times> 'a page_scheme" where
  "showSeason percentFmt datum chart p =
     (chart\<lparr>focusLine := Some (season datum)\<rparr>,
      p\<lparr>tip := \<lparr>shown = True,
                 html = ''<strong>'' @ showInt (season datum) @ ''</strong><br>''
                          @ scoringRows percentFmt datum\<rparr>\<rparr>)"

definition renderScoringMix ::
  "ScoringMixRecord list \<Rightarrow> 'a page_scheme \<Rightarrow> (error + scoringChart) \<times> 'a page_scheme" where
  "renderScoringMix rawData p =
     (let data = array_sort bySeason rawData
      in case clearContainer ''scoringMixChart'' p of
           Inl e \<Rightarrow> (Inl e, p)
         | Inr p1 \<Rightarrow>
             (Inr \<lparr>smData = data, focusLine = None\<rparr>, appendSvg ''scoringMixChart'' p1))"

definition scoring_focusSeason ::
  "(jsnum \<Rightarrow> string) \<Rightarrow> int option \<Rightarrow> scoringChart \<Rightarrow> 'a page_scheme
     \<Rightarrow> error + scoringChart \<times> 'a page_scheme" where
  "scoring_focusSeason percentFmt arg chart p =
     (case findSeason arg (smData chart) of
        None \<Rightarrow> Inl TypeError
      | Some datum \<Rightarrow> Inr (showSeason percentFmt datum chart p))"

section \<open>Momentum spiral\<close>

record MomentumPoint = Seasonal +
  momentum :: rat
  momThreeRate :: rat
  avgThreePct :: rat

text \<open>
  The dots of the spiral are compared with the focused record by identity
  (\<open>d === datum\<close>, \<open>data.indexOf(datum)\<close>), so the focused record is represented by its
  index in the sorted data: the first index with the season asked for, else the last
  index.  \<open>focusIndex\<close> is the dot drawn with radius 9 and opacity 1 (the others have
  radius 5 and opacity 0.55); \<open>spiralLabel\<close> is the text of the label placed at that dot.
\<close>

fun find_index :: "('a \<Rightarrow> bool) \<Rightarrow> 'a list \<Rightarrow> nat option" where
  "find_index P [] = None"
| "find_index P (x # xs) = (if P x then Some 0 else map_option Suc (find_index P xs))"

definition findSeasonIndex :: "int option \<Rightarrow> 'a Seasonal_scheme list \<Rightarrow> nat option" where
  "findSeasonIndex arg data =
     (case find_index (\<lambda>d. Some (season d) = arg) data of
        Some i \<Rightarrow> Some i
      | None \<Rightarrow> (if data = [] then None else Some (length data - 1)))"

record spiralChart =
  spData :: "MomentumPoint list"
  focusIndex :: "nat option"
  spiralLabel :: string

definition spiral_focusSeason :: "int option \<Rightarrow> spiralChart \<Rightarrow> error + spiralChart" where
  "spiral_focusSeason arg chart =
     (case findSeasonIndex arg (spData chart) of
        None \<Rightarrow> Inl TypeError
      | Some idx \<Rightarrow>
          Inr (chart\<lparr>focusIndex := Some idx,
                     spiralLabel := showInt (season (spData chart ! idx)) @ '' momentum wave''\<rparr>))"

text \<open>The renderer ends with \<open>focusSeason(data[0]?.season)\<close>, after the drawing is built.\<close>

definition renderMomentumSpiral ::
  "MomentumPoint list \<Rightarrow> 'a page_scheme \<Rightarrow> (error + spiralChart) \<times> 'a page_scheme" where
  "renderMomentumSpiral rawData p =
     (let data = array_sort bySeason rawData
      in case clearContainer ''momentumSpiral'' p of
           Inl e \<Rightarrow> (Inl e, p)
         | Inr p1 \<Rightarrow>
             (spiral_focusSeason (map_option season (at_index data 0))
                \<lparr>spData = data, focusIndex = None, spiralLabel = ''''\<rparr>,
              appendSvg ''momentumSpiral'' p1))"

section \<open>Team scatter chart\<close>

text \<open>
  A string field that a JSON record may lack or hold as null.  \<open>orEmpty\<close> is the
  value or, when it is falsy, the empty string; \<open>interpolated\<close> is the text a template
  literal puts for the value.
\<close>

datatype jsstring = Missing | JsNull | Str string

definition orEmpty :: "jsstring \<Rightarrow> string" where
  "orEmpty v = (case v of Str s \<Rightarrow> s | _ \<Rightarrow> '''')"

definition interpolated :: "jsstring \<Rightarrow> string" where
  "interpolated v = (case v of Missing \<Rightarrow> ''undefined'' | JsNull \<Rightarrow> ''null'' | Str s \<Rightarrow> s)"

text \<open>
  \<open>winPct\<close> is \<open>None\<close> when the field is missing or null: the code reads it through
  \<open>??\<close> and through its truthiness, which treat the two alike.  The renderer keeps the
  records whose \<open>avgThreeAttempts\<close> and \<open>threePct\<close> are truthy; these two fields are
  numbers here, and a missing value is dropped by the same filter as 0.
\<close>

record TeamSeasonStat = Seasonal +
  teamId :: string
  city :: string
  team :: jsstring
  conference :: string
  teamThreeAttempts :: rat
  teamThreePct :: rat
  winPct :: "rat option"

text \<open>
  \<open>d3.scaleSqrt().domain([0.2, 0.8]).range([4, 22])\<close>: the square roots of the domain are
  mapped linearly onto the range.
\<close>

definition rScale :: "rat \<Rightarrow> real" where
  "rScale v = 4 + (sqrt (of_rat v) - sqrt (1 / 5)) / (sqrt (4 / 5) - sqrt (1 / 5)) * (22 - 4)"

text \<open>\<open>d.winPct ?? 0.5\<close>.\<close>

definition winPctOr :: "rat \<Rightarrow> TeamSeasonStat \<Rightarrow> rat" where
  "winPctOr dflt d = (case winPct d of None \<Rightarrow> dflt | Some w \<Rightarrow> w)"

text \<open>\<open>d.winPct ? numberFmt(d.winPct * 100) + tail : other\<close>: a missing value and 0 are falsy.\<close>

definition winText :: "(jsnum \<Rightarrow> string) \<Rightarrow> string \<Rightarrow> string \<Rightarrow> TeamSeasonStat \<Rightarrow> string" where
  "winText numberFmt tail other d =
     (case winPct d of
        None \<Rightarrow> other
      | Some w \<Rightarrow> if w = 0 then other else numberFmt (Num (w * 100)) @ tail)"

text \<open>
  A circle of the scatter layer: the record bound to it and the values its attributes
  reach when the running transition ends.  \<open>exiting\<close> marks a circle whose transition
  ends with its removal.
\<close>

record circle =
  nodeId :: nat
  nodeDatum :: TeamSeasonStat
  cx :: real
  cy :: real
  radius :: real
  exiting :: bool

record scatterChart =
  scatterData :: "TeamSeasonStat list"
  xScale :: "rat \<Rightarrow> real"
  yScale :: "rat \<Rightarrow> real"
  layer :: "circle list"
  nextId :: nat

definition keyOf :: "circle \<Rightarrow> string" where
  "keyOf n = teamId (nodeDatum n)"

definition placed :: "scatterChart \<Rightarrow> nat \<Rightarrow> TeamSeasonStat \<Rightarrow> circle" where
  "placed chart i d =
     \<lparr>nodeId = i, nodeDatum = d,
      cx = xScale chart (teamThreeAttempts d),
      cy = yScale chart (teamThreePct d * 100),
      radius = rScale (winPctOr (1 / 2) d),
      exiting = False\<rparr>"

subsection \<open>Keyed data join\<close>

text \<open>
  Modelled from the spec: the keyed data join of the visualization library
  (\<open>selection.data(values, key)\<close>, \<open>selection.join(enter, update, exit)\<close> and
  \<open>selection.order\<close>), which is not among the repository's sources.  The first circle in
  document order with a given key is the one a record with that key is joined to; a
  record whose key has no circle, or whose circle was taken by an earlier record with the
  same key, enters as a new circle; every circle no record is joined to exits.
  Entering circles are inserted in front of the next updated circle of the data order (at
  the end when there is none), and the joined circles are then put into the order of the
  data.
\<close>

definition nodeByKey :: "circle list \<Rightarrow> string \<Rightarrow> circle option" where
  "nodeByKey nodes k = find (\<lambda>n. keyOf n = k) nodes"

fun bindData ::
  "circle list \<Rightarrow> string list \<Rightarrow> TeamSeasonStat list \<Rightarrow> (TeamSeasonStat \<times> nat option) list" where
  "bindData nodes used [] = []"
| "bindData nodes used (d # ds) =
     (case (if teamId d \<in> set used then None else nodeByKey nodes (teamId d)) of
        None \<Rightarrow> (d, None) # bindData nodes used ds
      | Some n \<Rightarrow> (d, Some (nodeId n)) # bindData nodes (teamId d # used) ds)"

definition updateIds :: "(TeamSeasonStat \<times> nat option) list \<Rightarrow> nat list" where
  "updateIds bs = List.map_filter snd bs"

definition removeNode :: "nat \<Rightarrow> circle list \<Rightarrow> circle list" where
  "removeNode i doc = filter (\<lambda>m. nodeId m \<noteq> i) doc"

definition insertBefore :: "circle \<Rightarrow> nat option \<Rightarrow> circle list \<Rightarrow> circle list" where
  "insertBefore n nx doc =
     (let rest = removeNode (nodeId n) doc
      in case nx of
           None \<Rightarrow> rest @ [n]
         | Some i \<Rightarrow> takeWhile (\<lambda>m. nodeId m \<noteq> i) rest @ n # dropWhile (\<lambda>m. nodeId m \<noteq> i) rest)"

text \<open>
  \<open>joinNodes\<close> walks the bound data in order: an update sets the record and the targets of
  its circle, an enter creates a circle.  It returns the joined circles in data order,
  the new document order and the next unused node number.
\<close>

fun joinNodes ::
  "scatterChart \<Rightarrow> nat \<Rightarrow> (TeamSeasonStat \<times> nat option) list \<Rightarrow> circle list
     \<Rightarrow> nat list \<times> circle list \<times> nat" where
  "joinNodes chart fresh [] doc = ([], doc, fresh)"
| "joinNodes chart fresh ((d, Some i) # bs) doc =
     (let doc1 = map (\<lambda>m. if nodeId m = i then placed chart i d else m) doc;
          (ms, doc2, fresh2) = joinNodes chart fresh bs doc1
      in (i # ms, doc2, fresh2))"
| "joinNodes chart fresh ((d, None) # bs) doc =
     (let doc1 = insertBefore (placed chart fresh d)
                   (case updateIds bs of [] \<Rightarrow> None | i # _ \<Rightarrow> Some i) doc;
          (ms, doc2, fresh2) = joinNodes chart (fresh + 1) bs doc1
      in (fresh # ms, doc2, fresh2))"

definition precedes :: "nat \<Rightarrow> nat \<Rightarrow> circle list \<Rightarrow> bool" where
  "precedes a b doc = (firstIndex (map nodeId doc) a < firstIndex (map nodeId doc) b)"

definition moveBefore :: "nat \<Rightarrow> nat \<Rightarrow> circle list \<Rightarrow> circle list" where
  "moveBefore a b doc =
     (case find (\<lambda>m. nodeId m = a) doc of
        None \<Rightarrow> doc
      | Some n \<Rightarrow> insertBefore n (Some b) doc)"

fun orderFrom :: "nat list \<Rightarrow> nat \<Rightarrow> circle list \<Rightarrow> circle list" where
  "orderFrom [] nx doc = doc"
| "orderFrom (a # as) nx doc =
     orderFrom as a (if precedes a nx doc then doc else moveBefore a nx doc)"

definition selectionOrder :: "nat list \<Rightarrow> circle list \<Rightarrow> circle list" where
  "selectionOrder merged doc =
     (case rev merged of [] \<Rightarrow> doc | l # earlier \<Rightarrow> orderFrom earlier l doc)"

definition joinLayer :: "scatterChart \<Rightarrow> TeamSeasonStat list \<Rightarrow> scatterChart" where
  "joinLayer chart seasonData =
     (let bs = bindData (layer chart) [] seasonData;
          doc0 = map (\<lambda>m. if nodeId m \<in> set (updateIds bs) then m
                           else m\<lparr>radius := 0, exiting := True\<rparr>) (layer chart);
          (merged, doc1, fresh) = joinNodes chart (nextId chart) bs doc0
      in chart\<lparr>layer := selectionOrder merged doc1, nextId := fresh\<rparr>)"

text \<open>The effect of \<open>moveBefore\<close> on the list of node numbers.\<close>

definition movedIds :: "nat \<Rightarrow> nat \<Rightarrow> nat list \<Rightarrow> nat list" where
  "movedIds a b ids =
     takeWhile (\<lambda>i. i \<noteq> b) (filter (\<lambda>i. i \<noteq> a) ids) @ a #
     dropWhile (\<lambda>i. i \<noteq> b) (filter (\<lambda>i. i \<noteq> a) ids)"

text \<open>
  The layers the renderer can produce: the circles have pairwise different node numbers,
  all below the next unused one, and pairwise different keys.
\<close>

definition wellKeyed :: "scatterChart \<Rightarrow> bool" where
  "wellKeyed chart \<longleftrightarrow>
     distinct (map nodeId (layer chart)) \<and> distinct (map keyOf (layer chart)) \<and>
     (\<forall>n \<in> set (layer chart). nodeId n < nextId chart)"

text \<open>
  What every layer of the renderer satisfies, whatever the data: the circles have pairwise
  different node numbers, all below the next unused one.
\<close>

definition wellNumbered :: "scatterChart \<Rightarrow> bool" where
  "wellNumbered chart \<longleftrightarrow>
     distinct (map nodeId (layer chart)) \<and> (\<forall>n \<in> set (layer chart). nodeId n < nextId chart)"

text \<open>The circles left when every transition has ended.\<close>

definition settled :: "circle list \<Rightarrow> circle list" where
  "settled doc = filter (\<lambda>m. \<not> exiting m) doc"

subsection \<open>Season update\<close>

text \<open>\<open>d3.greatest(values, accessor)\<close>: the first element with the greatest value.\<close>

fun greatestFrom :: "('a \<Rightarrow> rat) \<Rightarrow> 'a \<Rightarrow> 'a list \<Rightarrow> 'a" where
  "greatestFrom f best [] = best"
| "greatestFrom f best (x # xs) = greatestFrom f (if f x > f best then x else best) xs"

definition greatest :: "('a \<Rightarrow> rat) \<Rightarrow> 'a list \<Rightarrow> 'a option" where
  "greatest f xs = (case xs of [] \<Rightarrow> None | x # rest \<Rightarrow> Some (greatestFrom f x rest))"

text \<open>\<open>String.prototype.trim\<close>, for the ASCII white space.\<close>

definition is_space :: "char \<Rightarrow> bool" where
  "is_space c = (c \<in> set [CHR 0x20, CHR 0x09, CHR 0x0A, CHR 0x0B, CHR 0x0C, CHR 0x0D])"

definition js_trim :: "string \<Rightarrow> string" where
  "js_trim s = rev (dropWhile is_space (rev (dropWhile is_space s)))"

definition insightText :: "(jsnum \<Rightarrow> string) \<Rightarrow> TeamSeasonStat list \<Rightarrow> string" where
  "insightText numberFmt seasonData =
     (case greatest (winPctOr 0) seasonData of
        None \<Rightarrow> ''No team data for this season.''
      | Some topTeam \<Rightarrow>
          js_trim (city topTeam @ '' '' @ interpolated (team topTeam))
            @ '' combined '' @ numberFmt (Num (teamThreeAttempts topTeam))
            @ '' 3PA and '' @ numberFmt (Num (teamThreePct topTeam * 100))
            @ ''% accuracy for ''
            @ winText numberFmt ''% wins.'' ''a winning profile.'' topTeam)"

definition setText :: "string \<Rightarrow> string \<Rightarrow> 'a page_scheme \<Rightarrow> 'a page_scheme" where
  "setText el s p = p\<lparr>texts := (el, s) # filter (\<lambda>(k, v). k \<noteq> el) (texts p)\<rparr>"

definition updateSeason ::
  "(jsnum \<Rightarrow> string) \<Rightarrow> int \<Rightarrow> scatterChart \<Rightarrow> 'a page_scheme \<Rightarrow> scatterChart \<times> 'a page_scheme" where
  "updateSeason numberFmt year chart p =
     (let seasonData = filter (\<lambda>d. season d = year) (scatterData chart)
      in (joinLayer chart seasonData,
          setText ''teamInsight'' (insightText numberFmt seasonData)
            (setText ''seasonLabel'' (showInt year) p)))"

text \<open>The \<open>pointerenter\<close> handler of a circle bound to \<open>d\<close>.\<close>

definition bullet :: string where
  "bullet = [CHR 0xE2, CHR 0x80, CHR 0xA2]"

definition circleTooltip :: "(jsnum \<Rightarrow> string) \<Rightarrow> TeamSeasonStat \<Rightarrow> string" where
  "circleTooltip numberFmt d =
     ''<strong>'' @ city d @ '' '' @ orEmpty (team d) @ ''</strong><br>''
       @ numberFmt (Num (teamThreeAttempts d)) @ '' 3PA '' @ bullet @ '' ''
       @ numberFmt (Num (teamThreePct d * 100)) @ ''%<br>Win %: ''
       @ winText numberFmt ''%'' ''N/A'' d"

definition circlePointerEnter ::
  "(jsnum \<Rightarrow> string) \<Rightarrow> circle \<Rightarrow> 'a page_scheme \<Rightarrow> 'a page_scheme" where
  "circlePointerEnter numberFmt n p =
     p\<lparr>tip := \<lparr>shown = True, html = circleTooltip numberFmt (nodeDatum n)\<rparr>\<rparr>"

subsection \<open>Renderer\<close>

datatype 'c control = EmptyControl | Control 'c

text \<open>
  \<open>sliderValue\<close> is the value the slider element holds when the renderer runs (\<open>None\<close>
  when it is empty); the renderer replaces it by the latest season when there is one and
  then updates to it.
\<close>

definition renderTeamScatter ::
  "(jsnum \<Rightarrow> string) \<Rightarrow> (rat \<Rightarrow> real) \<Rightarrow> (rat \<Rightarrow> real) \<Rightarrow> int option \<Rightarrow> TeamSeasonStat list
     \<Rightarrow> 'a page_scheme \<Rightarrow> (error + scatterChart control) \<times> 'a page_scheme" where
  "renderTeamScatter numberFmt x y sliderValue rawData p =
     (let data = filter (\<lambda>d. teamThreeAttempts d \<noteq> 0 \<and> teamThreePct d \<noteq> 0) rawData
      in case clearContainer ''teamScatter'' p of
           Inl e \<Rightarrow> (Inl e, p)
         | Inr p1 \<Rightarrow>
             (let p2 = appendSvg ''teamScatter'' p1
              in if ''seasonSlider'' \<notin> set (anchors p2) \<or> ''seasonLabel'' \<notin> set (anchors p2)
                    \<or> ''teamInsight'' \<notin> set (anchors p2)
                 then (Inr EmptyControl,
                       p2\<lparr>console := console p2 @
                            [ConsoleWarn ''Missing slider elements for the team scatter chart.'']\<rparr>)
                 else
                   (let seasons = array_sort (\<lambda>a b. a - b) (uniqueValues (map season data));
                        chart = \<lparr>scatterData = data, xScale = x, yScale = y,
                                 layer = [], nextId = 0\<rparr>;
                        (slider, p3) =
                          (if seasons = [] then (sliderValue, p2)
                           else (Some (seasons ! (length seasons - 1)),
                                 setText ''seasonLabel''
                                   (showInt (seasons ! (length seasons - 1))) p2))
                    in case slider of
                         None \<Rightarrow> (Inr (Control chart), p3)
                       | Some v \<Rightarrow>
                           (let (chart', p4) = updateSeason numberFmt v chart p3
                            in (Inr (Control chart'), p4)))))"

section \<open>Heatmap and team map renderers\<close>

text \<open>
  \<open>hmHighlight\<close> holds the team and season of the last \<open>highlight\<close> call, which decide
  the opacity of every cell; it is \<open>None\<close> while all cells have their initial opacity.
\<close>

record heatmapChart =
  hmCells :: "HeatmapCell list"
  hmSeasons :: "int list"
  hmTeams :: "string list"
  hmHighlight :: "(string option \<times> int option) option"

definition renderHeatmap ::
  "HeatmapCell list \<Rightarrow> 'a page_scheme \<Rightarrow> (error + heatmapChart) \<times> 'a page_scheme" where
  "renderHeatmap rawData p =
     (case clearContainer ''heatmapChart'' p of
        Inl e \<Rightarrow> (Inl e, p)
      | Inr p1 \<Rightarrow>
          (let p2 = appendSvg ''heatmapChart'' p1;
               p3 = (if ''three-heatmap .story-viz'' \<in> set (anchors p2)
                     then p2\<lparr>drawings := ''heat-legend'' # drawings p2\<rparr> else p2)
           in (Inr \<lparr>hmCells = rawData, hmSeasons = heatmapSeasons rawData,
                     hmTeams = heatmapTeams rawData, hmHighlight = None\<rparr>, p3)))"

text \<open>\<open>highlight({ team, season })\<close>; a season that is missing or 0 is falsy.\<close>

definition highlight :: "string option \<Rightarrow> int option \<Rightarrow> heatmapChart \<Rightarrow> heatmapChart" where
  "highlight tm sn chart = chart\<lparr>hmHighlight := Some (tm, sn)\<rparr>"

definition cellOpacity :: "heatmapChart \<Rightarrow> HeatmapCell \<Rightarrow> rat" where
  "cellOpacity chart d =
     (case hmHighlight chart of
        None \<Rightarrow> 92 / 100
      | Some (tm, sn) \<Rightarrow>
          (let teamMatch = (if truthy tm then Some (abbr d) = tm else True);
               seasonMatch = (if sn \<noteq> None \<and> sn \<noteq> Some 0 then Some (season d) = sn else True)
           in if teamMatch \<and> seasonMatch then 1 else 1 / 4))"

record TeamGeoStat =
  geoTeam :: string
  geoCity :: string
  geoConference :: string
  lat :: rat
  lon :: rat
  offRtg :: rat
  geoThreeRate :: rat
  geoThreePct :: rat

text \<open>
  The parsed topology file: \<open>None\<close> when it is null or has no (truthy) \<open>objects\<close>
  member, otherwise the named objects of that member.  An object is a geometry
  collection with the names of its geometries, or a single geometry.

  Modelled from the spec: \<open>topojson.feature\<close> belongs to the topology library, which is not
  among the repository's sources.  \<open>topojson.feature(topology, o)\<close> reads \<open>o.type\<close>, a
  TypeError when the topology has no object \<open>states\<close>.  For a geometry collection it gives a feature collection; for a single
  geometry it gives one feature, which has no \<open>features\<close> member, and the data join of the
  state outlines then throws a TypeError on \<open>undefined\<close> data, after the svg element was
  appended.
\<close>

datatype topoObject = GeometryCollection "string list" | Geometry string

type_synonym topology = "(string \<times> topoObject) list option"

text \<open>
  The projection of the basemap is a parameter: given the features it is fitted to
  (\<open>None\<close> for the default projection, used without state outlines) it maps longitude
  and latitude to container coordinates, or to nothing for a point outside of it.  The
  renderer reads the global \<open>topojson\<close>, which is a ReferenceError when that library is
  not loaded.
\<close>

record mapChart =
  statePaths :: "string list"
  bubbles :: "(TeamGeoStat \<times> real \<times> real) list"
  focusedConference :: "string option"

definition positionedTeams ::
  "(rat \<times> rat \<Rightarrow> (real \<times> real) option) \<Rightarrow> TeamGeoStat list
     \<Rightarrow> (TeamGeoStat \<times> real \<times> real) list" where
  "positionedTeams proj teamData =
     List.map_filter (\<lambda>d. map_option (\<lambda>coords. (d, coords)) (proj (lon d, lat d))) teamData"

definition renderTeamMap ::
  "(string list option \<Rightarrow> rat \<times> rat \<Rightarrow> (real \<times> real) option) \<Rightarrow> TeamGeoStat list
     \<Rightarrow> topology \<Rightarrow> 'a page_scheme \<Rightarrow> (error + mapChart) \<times> 'a page_scheme" where
  "renderTeamMap projection teamData statesTopo p =
     (case clearContainer ''teamMap'' p of
        Inl e \<Rightarrow> (Inl e, p)
      | Inr p1 \<Rightarrow>
          if \<not> topojsonLoaded p1 then (Inl ReferenceError, p1)
          else
            (case statesTopo of
               None \<Rightarrow>
                 (Inr \<lparr>statePaths = [],
                       bubbles = positionedTeams (projection None) teamData,
                       focusedConference = None\<rparr>, appendSvg ''teamMap'' p1)
             | Some objects \<Rightarrow>
                 (case map_of objects ''states'' of
                    None \<Rightarrow> (Inl TypeError, p1)
                  | Some (Geometry g) \<Rightarrow> (Inl TypeError, appendSvg ''teamMap'' p1)
                  | Some (GeometryCollection features) \<Rightarrow>
                      (Inr \<lparr>statePaths = features,
                            bubbles = positionedTeams (projection (Some features)) teamData,
                            focusedConference = None\<rparr>, appendSvg ''teamMap'' p1))))"

definition focusConference :: "string option \<Rightarrow> mapChart \<Rightarrow> mapChart" where
  "focusConference c chart = chart\<lparr>focusedConference := c\<rparr>"

section \<open>Bootstrap and story steps\<close>

text \<open>
  The application state is the page together with the \<open>controllers\<close> registry (a missing
  entry is \<open>None\<close>) and the story steps of the document.  A story step carries its parent
  element, the \<open>data-story\<close> attribute of the parent and its own data attributes.
\<close>

record storyStep =
  stepParent :: nat
  stepStory :: string
  stepSeason :: "int option"
  stepMetric :: "string option"
  stepTeam :: "string option"
  stepConference :: "string option"
  stepActive :: bool

record app = page +
  league :: "leagueChart option"
  scoring :: "scoringChart option"
  scatter :: "scatterChart control option"
  heatmap :: "heatmapChart option"
  teamMap :: "mapChart option"
  spiral :: "spiralChart option"
  steps :: "storyStep list"
  observed :: "nat list"

text \<open>
  What the library and the browser supply: the two number formats, the measured width of
  the league chart, the scales of the scatter chart, the slider's value and the
  projection of the map.
\<close>

record env =
  fmtNumber :: "jsnum \<Rightarrow> string"
  fmtPercent :: "jsnum \<Rightarrow> string"
  leagueWidth :: rat
  scatterX :: "rat \<Rightarrow> real"
  scatterY :: "rat \<Rightarrow> real"
  sliderInitial :: "int option"
  mapProjection :: "string list option \<Rightarrow> rat \<times> rat \<Rightarrow> (real \<times> real) option"

text \<open>
  \<open>updateHeroMetrics\<close> writes its text into \<open>#avgGrowth\<close>; selecting a missing element
  gives an empty selection, on which \<open>text\<close> does nothing.
\<close>

definition updateHeroMetrics :: "(jsnum \<Rightarrow> string) \<Rightarrow> SeasonMetric list \<Rightarrow> 'a page_scheme \<Rightarrow> 'a page_scheme" where
  "updateHeroMetrics fmt data p =
     (case heroText fmt data of
        None \<Rightarrow> p
      | Some t \<Rightarrow> if ''avgGrowth'' \<in> set (anchors p) then setText ''avgGrowth'' t p else p)"

text \<open>The falsy season of a step (\<open>if (season)\<close>) is a missing one or 0.\<close>

definition seasonGiven :: "int option \<Rightarrow> bool" where
  "seasonGiven s = (s \<noteq> None \<and> s \<noteq> Some 0)"

text \<open>
  An exception does not undo what was done before it, so the functions below return the
  state they reached together with the error, if any.
\<close>

definition dispatchStep :: "env \<Rightarrow> storyStep \<Rightarrow> app \<Rightarrow> error option \<times> app" where
  "dispatchStep e st a =
     (let sn = stepSeason st;
          metric = (if truthy (stepMetric st) then stepMetric st else None);
          tm = (if truthy (stepTeam st) then stepTeam st else None);
          conf = (if truthy (stepConference st) then stepConference st else None)
      in if stepStory st = ''league'' then
           (case league a of
              None \<Rightarrow> (None, a)
            | Some c \<Rightarrow>
                (let a1 = a\<lparr>league := Some (setMetric metric c)\<rparr>
                 in if seasonGiven sn
                    then (case league_focusSeason (fmtNumber e) sn (setMetric metric c) a1 of
                            Inl err \<Rightarrow> (Some err, a1)
                          | Inr (c2, a2) \<Rightarrow> (None, a2\<lparr>league := Some c2\<rparr>))
                    else (None, a1)))
         else if stepStory st = ''scoring'' then
           (case scoring a of
              None \<Rightarrow> (None, a)
            | Some c \<Rightarrow>
                if seasonGiven sn
                then (case scoring_focusSeason (fmtPercent e) sn c a of
                        Inl err \<Rightarrow> (Some err, a)
                      | Inr (c2, a2) \<Rightarrow> (None, a2\<lparr>scoring := Some c2\<rparr>))
                else (None, a))
         else if stepStory st = ''scatter'' then
           (case (if seasonGiven sn then sn else None) of
              None \<Rightarrow> (None, a)
            | Some year \<Rightarrow>
                (case scatter a of
                   None \<Rightarrow> (None, a)
                 | Some EmptyControl \<Rightarrow> (Some TypeError, a)
                 | Some (Control c) \<Rightarrow>
                     (let (c2, a2) = updateSeason (fmtNumber e) year c a
                      in (None, a2\<lparr>scatter := Some (Control c2)\<rparr>))))
         else if stepStory st = ''heatmap'' then
           (case heatmap a of
              None \<Rightarrow> (None, a)
            | Some c \<Rightarrow> (None, a\<lparr>heatmap := Some (highlight tm sn c)\<rparr>))
         else if stepStory st = ''map'' then
           (case teamMap a of
              None \<Rightarrow> (None, a)
            | Some c \<Rightarrow> (None, a\<lparr>teamMap := Some (focusConference conf c)\<rparr>))
         else if stepStory st = ''spiral'' then
           (case spiral a of
              None \<Rightarrow> (None, a)
            | Some c \<Rightarrow>
                if seasonGiven sn
                then (case spiral_focusSeason sn c of
                        Inl err \<Rightarrow> (Some err, a)
                      | Inr c2 \<Rightarrow> (None, a\<lparr>spiral := Some c2\<rparr>))
                else (None, a))
         else (None, a))"

text \<open>
  \<open>activateStep\<close> for the step at index \<open>i\<close>: the steps with the same parent are marked
  active exactly when they are that step, then the step is dispatched to its chart.
\<close>

definition markActive :: "nat \<Rightarrow> storyStep list \<Rightarrow> storyStep list" where
  "markActive i sts =
     map (\<lambda>(j, s). if stepParent s = stepParent (sts ! i) then s\<lparr>stepActive := (j = i)\<rparr> else s)
       (zip [0..<length sts] sts)"

definition activateStep :: "env \<Rightarrow> nat \<Rightarrow> app \<Rightarrow> error option \<times> app" where
  "activateStep e i a =
     (if i < length (steps a)
      then dispatchStep e (steps a ! i) (a\<lparr>steps := markActive i (steps a)\<rparr>)
      else (None, a))"

text \<open>
  The default step of a group is its first step marked active, else its first step; the
  groups are visited in the order of their first step.
\<close>

definition defaultStep :: "nat \<Rightarrow> storyStep list \<Rightarrow> nat option" where
  "defaultStep g sts =
     (let members = filter (\<lambda>i. stepParent (sts ! i) = g) [0..<length sts]
      in case find (\<lambda>i. stepActive (sts ! i)) members of
           Some i \<Rightarrow> Some i
         | None \<Rightarrow> (case members of [] \<Rightarrow> None | i # _ \<Rightarrow> Some i))"

fun activateDefaults :: "env \<Rightarrow> nat list \<Rightarrow> app \<Rightarrow> error option \<times> app" where
  "activateDefaults e [] a = (None, a)"
| "activateDefaults e (g # gs) a =
     (case defaultStep g (steps a) of
        None \<Rightarrow> activateDefaults e gs a
      | Some i \<Rightarrow>
          (case activateStep e i a of
             (Some err, a1) \<Rightarrow> (Some err, a1)
           | (None, a1) \<Rightarrow> activateDefaults e gs a1))"

definition setupStorySteps :: "env \<Rightarrow> app \<Rightarrow> error option \<times> app" where
  "setupStorySteps e a =
     (if steps a = [] then (None, a)
      else activateDefaults e (uniqueValues (map stepParent (steps a)))
             (a\<lparr>observed := [0..<length (steps a)]\<rparr>))"

subsection \<open>init\<close>

text \<open>
  The seven requests of \<open>Promise.all\<close>, each with its parsed dataset or the failure of
  the fetch or of the JSON parse.
\<close>

record fetched =
  leagueTrends :: "error + SeasonMetric list"
  scoringMix :: "error + ScoringMixRecord list"
  teamScatter :: "error + TeamSeasonStat list"
  heatmapData :: "error + HeatmapCell list"
  teamMapData :: "error + TeamGeoStat list"
  spiralData :: "error + MomentumPoint list"
  statesTopo :: "error + topology"

definition awaitAll ::
  "fetched \<Rightarrow> error + (SeasonMetric list \<times> ScoringMixRecord list \<times> TeamSeasonStat list
                    \<times> HeatmapCell list \<times> TeamGeoStat list \<times> MomentumPoint list
                    \<times> topology)" where
  "awaitAll f =
     (case (leagueTrends f, scoringMix f, teamScatter f, heatmapData f, teamMapData f,
            spiralData f, statesTopo f) of
        (Inr lt, Inr sm, Inr ts, Inr hm, Inr tm, Inr sp, Inr topo) \<Rightarrow>
          Inr (lt, sm, ts, hm, tm, sp, topo)
      | _ \<Rightarrow> Inl FetchError)"

definition bootFailed :: "app \<Rightarrow> app" where
  "bootFailed a = a\<lparr>console := console a @ [ConsoleError ''Failed to boot dashboard'']\<rparr>"

definition boot ::
  "env \<Rightarrow> SeasonMetric list \<Rightarrow> ScoringMixRecord list \<Rightarrow> TeamSeasonStat list \<Rightarrow> HeatmapCell list
     \<Rightarrow> TeamGeoStat list \<Rightarrow> MomentumPoint list \<Rightarrow> topology \<Rightarrow> app
     \<Rightarrow> error option \<times> app" where
  "boot e lt sm ts hm tm sp topo a =
     (let a0 = updateHeroMetrics (fmtNumber e) lt a
      in case renderLeagueTrends (fmtNumber e) (leagueWidth e) lt a0 of
           (Inl err, a1) \<Rightarrow> (Some err, a1)
         | (Inr c1, a1) \<Rightarrow>
       (case renderScoringMix sm (a1\<lparr>league := Some c1\<rparr>) of
           (Inl err, a2) \<Rightarrow> (Some err, a2)
         | (Inr c2, a2) \<Rightarrow>
       (case renderTeamScatter (fmtNumber e) (scatterX e) (scatterY e) (sliderInitial e) ts
               (a2\<lparr>scoring := Some c2\<rparr>) of
           (Inl err, a3) \<Rightarrow> (Some err, a3)
         | (Inr c3, a3) \<Rightarrow>
       (case renderHeatmap hm (a3\<lparr>scatter := Some c3\<rparr>) of
           (Inl err, a4) \<Rightarrow> (Some err, a4)
         | (Inr c4, a4) \<Rightarrow>
       (case renderTeamMap (mapProjection e) tm topo (a4\<lparr>heatmap := Some c4\<rparr>) of
           (Inl err, a5) \<Rightarrow> (Some err, a5)
         | (Inr c5, a5) \<Rightarrow>
       (case renderMomentumSpiral sp (a5\<lparr>teamMap := Some c5\<rparr>) of
           (Inl err, a6) \<Rightarrow> (Some err, a6)
         | (Inr c6, a6) \<Rightarrow> setupStorySteps e (a6\<lparr>spiral := Some c6\<rparr>)))))))"

definition init :: "env \<Rightarrow> fetched \<Rightarrow> app \<Rightarrow> app" where
  "init e f a =
     (case awaitAll f of
        Inl err \<Rightarrow> bootFailed a
      | Inr (lt, sm, ts, hm, tm, sp, topo) \<Rightarrow>
          (case boot e lt sm ts hm tm sp topo a of
             (Some err, a1) \<Rightarrow> bootFailed a1
           | (None, a1) \<Rightarrow> a1))"

section \<open>Arrays in memory\<close>

text \<open>
  The functions above take the parsed arrays as values.  To follow what happens to the
  caller's array itself, arrays are kept in a store and named by their position in it:
  \<open>slice\<close> and \<open>filter\<close> allocate a new array, \<open>sort\<close> rearranges the array it is
  called on and returns the same reference.  The elements are the records; no function of
  the script assigns to a field of a record.  Arrays of other element types (seasons, team
  codes, projected teams) are built from fresh arrays only and are not kept in the store.
\<close>

type_synonym 'a store = "'a list list"

definition alloc :: "'a list \<Rightarrow> 'a store \<Rightarrow> nat \<times> 'a store" where
  "alloc xs st = (length st, st @ [xs])"

definition array_slice :: "nat \<Rightarrow> 'a store \<Rightarrow> nat \<times> 'a store" where
  "array_slice r st = alloc (st ! r) st"

definition array_filter :: "('a \<Rightarrow> bool) \<Rightarrow> nat \<Rightarrow> 'a store \<Rightarrow> nat \<times> 'a store" where
  "array_filter P r st = alloc (filter P (st ! r)) st"

definition sort_in_place :: "('a \<Rightarrow> 'a \<Rightarrow> int) \<Rightarrow> nat \<Rightarrow> 'a store \<Rightarrow> nat \<times> 'a store" where
  "sort_in_place cmp r st = (r, st[r := array_sort cmp (st ! r)])"

text \<open>\<open>rawData.slice().sort((a, b) => a.season - b.season)\<close>.\<close>

definition sortedCopy :: "nat \<Rightarrow> 'a Seasonal_scheme store \<Rightarrow> nat \<times> 'a Seasonal_scheme store" where
  "sortedCopy r st = (let (c, st1) = array_slice r st in sort_in_place bySeason c st1)"

text \<open>
  The array operations of each function on the array at \<open>r\<close>: the reference of its
  working array \<open>data\<close> (for \<open>updateHeroMetrics\<close>, which returns nothing, only the store)
  and the store afterwards.  Every other use of the working array is a read
  (\<open>map\<close>, \<open>find\<close>, \<open>indexOf\<close>, indexing, the library's \<open>extent\<close>, \<open>group\<close>, \<open>rollup\<close>
  and data binding).

  \<open>updateHeroMetrics\<close>: \<open>if (!data.length) return;\<close> then
  \<open>data.slice().sort((a, b) => a.season - b.season)\<close>.  The league trends, scoring mix and
  momentum spiral renderers start with the same sorted copy of \<open>rawData\<close>.
\<close>

definition updateHeroMetrics_arrays :: "nat \<Rightarrow> SeasonMetric store \<Rightarrow> SeasonMetric store" where
  "updateHeroMetrics_arrays r st = (if length (st ! r) = 0 then st else snd (sortedCopy r st))"

definition renderLeagueTrends_arrays :: "nat \<Rightarrow> SeasonMetric store \<Rightarrow> nat \<times> SeasonMetric store" where
  "renderLeagueTrends_arrays r st = sortedCopy r st"

definition renderScoringMix_arrays ::
  "nat \<Rightarrow> ScoringMixRecord store \<Rightarrow> nat \<times> ScoringMixRecord store" where
  "renderScoringMix_arrays r st = sortedCopy r st"

definition renderMomentumSpiral_arrays ::
  "nat \<Rightarrow> MomentumPoint store \<Rightarrow> nat \<times> MomentumPoint store" where
  "renderMomentumSpiral_arrays r st = sortedCopy r st"

text \<open>\<open>renderTeamScatter\<close>: \<open>rawData.filter((d) => d.avgThreeAttempts && d.threePct)\<close>.\<close>

definition renderTeamScatter_arrays ::
  "nat \<Rightarrow> TeamSeasonStat store \<Rightarrow> nat \<times> TeamSeasonStat store" where
  "renderTeamScatter_arrays r st =
     array_filter (\<lambda>d. teamThreeAttempts d \<noteq> 0 \<and> teamThreePct d \<noteq> 0) r st"

text \<open>
  \<open>renderHeatmap\<close>: \<open>rawData.slice()\<close>, and later
  \<open>data.filter((d) => d.season === latestSeason)\<close> on the copy.
\<close>

definition renderHeatmap_arrays :: "nat \<Rightarrow> HeatmapCell store \<Rightarrow> nat \<times> HeatmapCell store" where
  "renderHeatmap_arrays r st =
     (let (c, st1) = array_slice r st;
          (latest, st2) =
            array_filter (\<lambda>d. Num (of_int (season d)) = latestSeason (st1 ! c)) c st1
      in (c, st2))"

text \<open>
  \<open>renderTeamMap\<close>: \<open>teamData.map(...).filter(Boolean)\<close>.  The mapped array holds new
  objects (the record's fields and the coordinates) or null, so it is not one of the
  store's arrays of records; the call leaves the store as it is.
\<close>

definition renderTeamMap_arrays :: "nat \<Rightarrow> TeamGeoStat store \<Rightarrow> TeamGeoStat store" where
  "renderTeamMap_arrays r st = st"

section \<open>Sample inputs\<close>

text \<open>
  Concrete inputs on which the model is evaluated: a number format with one decimal that
  rounds half away from zero, a document with every anchor element the script looks up,
  and the application state before \<open>init\<close> runs.
\<close>

definition sampleFmt :: "jsnum \<Rightarrow> string" where
  "sampleFmt v =
     (case v of
        NaN \<Rightarrow> ''NaN''
      | PosInf \<Rightarrow> ''Infinity''
      | NegInf \<Rightarrow> ''-Infinity''
      | Num r \<Rightarrow>
          (let n = \<lfloor>\<bar>r\<bar> * 10 + 1 / 2\<rfloor>;
               body = showInt (n div 10) @ ''.'' @ showInt (n mod 10)
           in if r < 0 \<and> n \<noteq> 0 then ''-'' @ body else body))"

definition dashboardAnchors :: "string list" where
  "dashboardAnchors =
     [''avgGrowth'', ''leagueTrendChart'', ''trendLegend'', ''scoringMixChart'', ''teamScatter'',
      ''seasonSlider'', ''seasonLabel'', ''teamInsight'', ''heatmapChart'',
      ''three-heatmap .story-viz'', ''teamMap'', ''momentumSpiral'']"

definition startApp :: "string list \<Rightarrow> app" where
  "startApp present =
     \<lparr>anchors = present, topojsonLoaded = True, console = [], drawings = [], texts = [],
      tip = \<lparr>shown = False, html = ''''\<rparr>,
      league = None, scoring = None, scatter = None, heatmap = None, teamMap = None,
      spiral = None, steps = [], observed = []\<rparr>"

definition sampleEnv :: env where
  "sampleEnv =
     \<lparr>fmtNumber = sampleFmt, fmtPercent = sampleFmt, leagueWidth = 960,
      scatterX = of_rat, scatterY = of_rat, sliderInitial = None,
      mapProjection = (\<lambda>features. Map.empty)\<rparr>"

definition season2019 :: SeasonMetric where
  "season2019 = \<lparr>season = 2019, avgThreeAttempts = 32, avgPoints = 111, avgThreeRate = 9 / 25\<rparr>"

definition season2020 :: SeasonMetric where
  "season2020 = \<lparr>season = 2020, avgThreeAttempts = 34, avgPoints = 112, avgThreeRate = 2 / 5\<rparr>"

definition mix2019 :: ScoringMixRecord where
  "mix2019 = \<lparr>season = 2019, twoPct = 1 / 2, threePct = 1 / 3, ftPct = 1 / 6\<rparr>"

definition mix2020 :: ScoringMixRecord where
  "mix2020 = \<lparr>season = 2020, twoPct = 9 / 20, threePct = 2 / 5, ftPct = 3 / 20\<rparr>"

definition wave2019 :: MomentumPoint where
  "wave2019 = \<lparr>season = 2019, momentum = 1 / 10, momThreeRate = 9 / 25, avgThreePct = 7 / 20\<rparr>"

definition wave2020 :: MomentumPoint where
  "wave2020 = \<lparr>season = 2020, momentum = 1 / 5, momThreeRate = 2 / 5, avgThreePct = 9 / 25\<rparr>"

definition hawks2019 :: TeamSeasonStat where
  "hawks2019 = \<lparr>season = 2019, teamId = ''1610612737'', city = ''Atlanta'', team = Str ''Hawks'',
                 conference = ''East'', teamThreeAttempts = 37, teamThreePct = 7 / 20,
                 winPct = Some (7 / 20)\<rparr>"

definition celtics2019 :: TeamSeasonStat where
  "celtics2019 = \<lparr>season = 2019, teamId = ''1610612738'', city = ''Boston'', team = Str ''Celtics'',
                   conference = ''East'', teamThreeAttempts = 34, teamThreePct = 9 / 25,
                   winPct = Some (3 / 5)\<rparr>"

definition celtics2020 :: TeamSeasonStat where
  "celtics2020 = \<lparr>season = 2020, teamId = ''1610612738'', city = ''Boston'', team = Str ''Celtics'',
                   conference = ''East'', teamThreeAttempts = 35, teamThreePct = 37 / 100,
                   winPct = Some (2 / 3)\<rparr>"

definition nuggets2020 :: TeamSeasonStat where
  "nuggets2020 = \<lparr>season = 2020, teamId = ''1610612743'', city = ''Denver'', team = JsNull,
                   conference = ''West'', teamThreeAttempts = 31, teamThreePct = 9 / 25,
                   winPct = None\<rparr>"

definition sampleScatter :: scatterChart where
  "sampleScatter =
     \<lparr>scatterData = [hawks2019, celtics2019, celtics2020, nuggets2020],
      xScale = of_rat, yScale = of_rat, layer = [], nextId = 0\<rparr>"
section \<open>Properties of sorting\<close>

lemma insert_cmp_insort_key:
  "insert_cmp (\<lambda>a b. f a - f b) x xs = insort_key f x xs"
  for f :: "'a \<Rightarrow> int"
  by (induction xs) auto

lemma array_sort_sort_key:
  "array_sort (\<lambda>a b. f a - f b) xs = sort_key f xs"
  for f :: "'a \<Rightarrow> int"
  unfolding array_sort_def sort_key_def
  by (induction xs) (auto simp: insert_cmp_insort_key)

lemma array_sort_bySeason: "array_sort bySeason xs = sort_key season xs"
  using array_sort_sort_key [of season xs] by (simp add: bySeason_def [abs_def])

lemma heroGrowth_sorted:
  assumes ne: "data \<noteq> []"
  shows "heroGrowth data =
         Some (growthOf (hd (sort_key season data)) (last (sort_key season data)))"
proof -
  from ne have ne': "sort_key season data \<noteq> []" by (metis length_sort length_0_conv)
  show ?thesis
    using ne hd_conv_nth [OF ne'] last_conv_nth [OF ne']
    by (simp add: heroGrowth_def array_sort_bySeason Let_def)
qed

lemma hd_sort_key_min:
  assumes "xs \<noteq> []"
  shows "hd (sort_key f xs) \<in> set xs \<and> (\<forall>x \<in> set xs. f (hd (sort_key f xs)) \<le> f x)"
proof -
  let ?s = "sort_key f xs"
  have "?s \<noteq> []" using assms by (metis length_sort length_0_conv)
  then obtain y ys where s: "?s = y # ys" by (cases ?s) auto
  have "sorted (map f ?s)" by simp
  then have "\<forall>x \<in> set (y # ys). f y \<le> f x" unfolding s by auto
  moreover have "set (y # ys) = set xs" using s by (metis set_sort)
  ultimately show ?thesis unfolding s by auto
qed

lemma last_sort_key_max:
  assumes "xs \<noteq> []"
  shows "last (sort_key f xs) \<in> set xs \<and> (\<forall>x \<in> set xs. f x \<le> f (last (sort_key f xs)))"
proof -
  let ?s = "sort_key f xs"
  have "?s \<noteq> []" using assms by (metis length_sort length_0_conv)
  then obtain ys y where s: "?s = ys @ [y]" by (metis append_butlast_last_id)
  have "sorted (map f ?s)" by simp
  then have "\<forall>x \<in> set (ys @ [y]). f x \<le> f y" unfolding s by (auto simp: sorted_append)
  moreover have "set (ys @ [y]) = set xs" using s by (metis set_sort)
  ultimately show ?thesis unfolding s by auto
qed

lemma sort_key_perm_distinct:
  assumes "mset ys = mset xs" "distinct (map f xs)"
  shows "sort_key f ys = sort_key f xs"
proof (rule sort_key_inj_key_eq)
  show "mset ys = mset (sort_key f xs)" using assms by simp
  show "inj_on f (set ys)"
    using assms by (metis distinct_map mset_eq_setD)
  show "sorted (map f (sort_key f xs))" by simp
qed

lemma heroGrowth_perm:
  assumes "mset data' = mset data" "distinct (map season data)"
  shows "heroGrowth data' = heroGrowth data"
proof -
  have "sort_key season data' = sort_key season data"
    using assms by (rule sort_key_perm_distinct)
  moreover have "length data' = length data"
    using assms(1) by (metis size_mset)
  ultimately show ?thesis by (simp add: heroGrowth_def array_sort_bySeason)
qed

text \<open>
  C1.  For a non-empty array, \<open>updateHeroMetrics\<close> computes the growth
  \<open>(last.avgThreeRate - first.avgThreeRate) / first.avgThreeRate * 100\<close> from a record
  \<open>first\<close> of the smallest and a record \<open>last\<close> of the largest season of the array.
  When the array holds one record per season (the data model's SeasonMetric invariant),
  every permutation of the array gives the same growth and the same text.  The seasons
  2015 with rate 0.300 and 2020 with rate 0.360, in either order, give growth 20 and the
  text \<open>+\<close> followed by the formatted 20.
\<close>

theorem updateHeroMetrics_growth:
  assumes "data \<noteq> []"
  shows "(\<exists>first_d \<in> set data. \<exists>last_d \<in> set data.
            (\<forall>d \<in> set data. season first_d \<le> season d \<and> season d \<le> season last_d) \<and>
            heroGrowth data =
              Some (js_mul (js_div (Num (avgThreeRate last_d - avgThreeRate first_d))
                                   (Num (avgThreeRate first_d)))
                           (Num 100)))
       \<and> (distinct (map season data) \<longrightarrow>
            (\<forall>data'. mset data' = mset data \<longrightarrow>
               heroGrowth data' = heroGrowth data \<and>
               heroText numberFmt data' = heroText numberFmt data))
       \<and> (\<forall>a p b q.
            heroGrowth [\<lparr>season = 2015, avgThreeAttempts = a, avgPoints = p, avgThreeRate = 3 / 10\<rparr>,
                        \<lparr>season = 2020, avgThreeAttempts = b, avgPoints = q, avgThreeRate = 36 / 100\<rparr>]
              = Some (Num 20) \<and>
            heroGrowth [\<lparr>season = 2020, avgThreeAttempts = b, avgPoints = q, avgThreeRate = 36 / 100\<rparr>,
                        \<lparr>season = 2015, avgThreeAttempts = a, avgPoints = p, avgThreeRate = 3 / 10\<rparr>]
              = Some (Num 20) \<and>
            heroText numberFmt
                       [\<lparr>season = 2020, avgThreeAttempts = b, avgPoints = q, avgThreeRate = 36 / 100\<rparr>,
                        \<lparr>season = 2015, avgThreeAttempts = a, avgPoints = p, avgThreeRate = 3 / 10\<rparr>]
              = Some (''+'' @ numberFmt (Num 20)))"
proof (intro conjI)
  let ?f = "hd (sort_key season data)" and ?l = "last (sort_key season data)"
  have f: "?f \<in> set data" and l: "?l \<in> set data"
    using hd_sort_key_min [OF assms, of season] last_sort_key_max [OF assms, of season]
    by simp_all
  have b: "\<forall>d \<in> set data. season ?f \<le> season d \<and> season d \<le> season ?l"
    using hd_sort_key_min [OF assms, of season] last_sort_key_max [OF assms, of season]
    by simp
  have g: "heroGrowth data =
      Some (js_mul (js_div (Num (avgThreeRate ?l - avgThreeRate ?f)) (Num (avgThreeRate ?f)))
                   (Num 100))"
    using heroGrowth_sorted [OF assms] by (simp add: growthOf_def)
  show "\<exists>first_d \<in> set data. \<exists>last_d \<in> set data.
            (\<forall>d \<in> set data. season first_d \<le> season d \<and> season d \<le> season last_d) \<and>
            heroGrowth data =
              Some (js_mul (js_div (Num (avgThreeRate last_d - avgThreeRate first_d))
                                   (Num (avgThreeRate first_d)))
                           (Num 100))"
    by (rule bexI [OF _ f], rule bexI [OF _ l], rule conjI [OF b g])
next
  show "distinct (map season data) \<longrightarrow>
            (\<forall>data'. mset data' = mset data \<longrightarrow>
               heroGrowth data' = heroGrowth data \<and>
               heroText numberFmt data' = heroText numberFmt data)"
  proof (intro impI allI)
    fix data'
    assume d: "distinct (map season data)" and m: "mset data' = mset data"
    have "heroGrowth data' = heroGrowth data" by (rule heroGrowth_perm [OF m d])
    then show "heroGrowth data' = heroGrowth data \<and>
               heroText numberFmt data' = heroText numberFmt data"
      by (simp add: heroText_def)
  qed
next
  show "\<forall>a p b q.
            heroGrowth [\<lparr>season = 2015, avgThreeAttempts = a, avgPoints = p, avgThreeRate = 3 / 10\<rparr>,
                        \<lparr>season = 2020, avgThreeAttempts = b, avgPoints = q, avgThreeRate = 36 / 100\<rparr>]
              = Some (Num 20) \<and>
            heroGrowth [\<lparr>season = 2020, avgThreeAttempts = b, avgPoints = q, avgThreeRate = 36 / 100\<rparr>,
                        \<lparr>season = 2015, avgThreeAttempts = a, avgPoints = p, avgThreeRate = 3 / 10\<rparr>]
              = Some (Num 20) \<and>
            heroText numberFmt
                       [\<lparr>season = 2020, avgThreeAttempts = b, avgPoints = q, avgThreeRate = 36 / 100\<rparr>,
                        \<lparr>season = 2015, avgThreeAttempts = a, avgPoints = p, avgThreeRate = 3 / 10\<rparr>]
              = Some (''+'' @ numberFmt (Num 20))"
    by (simp add: heroText_def heroGrowth_def array_sort_def bySeason_def growthOf_def)
qed


theorem updateHeroMetrics_growth_witness:
  "heroGrowth [\<lparr>season = 2021, avgThreeAttempts = 34, avgPoints = 112, avgThreeRate = 2 / 5\<rparr>,
               \<lparr>season = 2019, avgThreeAttempts = 32, avgPoints = 111, avgThreeRate = 1 / 4\<rparr>,
               \<lparr>season = 2020, avgThreeAttempts = 33, avgPoints = 110, avgThreeRate = 3 / 8\<rparr>]
     = Some (Num 60) \<and>
   heroGrowth [\<lparr>season = 2020, avgThreeAttempts = 33, avgPoints = 110, avgThreeRate = 3 / 8\<rparr>,
               \<lparr>season = 2021, avgThreeAttempts = 34, avgPoints = 112, avgThreeRate = 2 / 5\<rparr>,
               \<lparr>season = 2019, avgThreeAttempts = 32, avgPoints = 111, avgThreeRate = 1 / 4\<rparr>]
     = Some (Num 60)"
proof -
  let ?a = "\<lparr>season = 2021, avgThreeAttempts = 34, avgPoints = 112, avgThreeRate = 2 / 5 :: rat\<rparr>"
  let ?b = "\<lparr>season = 2019, avgThreeAttempts = 32, avgPoints = 111, avgThreeRate = 1 / 4 :: rat\<rparr>"
  let ?c = "\<lparr>season = 2020, avgThreeAttempts = 33, avgPoints = 110, avgThreeRate = 3 / 8 :: rat\<rparr>"
  have ne: "[?a, ?b, ?c] \<noteq> []" by simp
  have d: "distinct (map season [?a, ?b, ?c])" by simp
  have m: "mset [?c, ?a, ?b] = mset [?a, ?b, ?c]" by simp
  have v: "heroGrowth [?a, ?b, ?c] = Some (Num 60)"
    by (simp add: heroGrowth_def array_sort_def bySeason_def growthOf_def)
  from updateHeroMetrics_growth [OF ne, of "\<lambda>_. ''x''"] d m
  have "heroGrowth [?c, ?a, ?b] = heroGrowth [?a, ?b, ?c]" by blast
  with v show ?thesis by simp
qed


section \<open>Properties of the heatmap row order\<close>

lemma insert_cmp_descending:
  "insert_cmp (\<lambda>a b. d3_descending (r a) (r b)) x xs = insort_key (\<lambda>a. - r a) x xs"
  by (induction xs) (auto simp: d3_descending_def)

lemma array_sort_descending:
  "array_sort (\<lambda>a b. d3_descending (r a) (r b)) xs = sort_key (\<lambda>a. - r a) xs"
  unfolding array_sort_def sort_key_def
  by (induction xs) (auto simp: insert_cmp_descending)

lemma set_set_add_all: "set (set_add_all seen xs) = set seen \<union> set xs"
  by (induction xs arbitrary: seen) auto

lemma distinct_set_add_all: "distinct seen \<Longrightarrow> distinct (set_add_all seen xs)"
  by (induction xs arbitrary: seen) auto

lemma firstIndex_in_prefix:
  "a \<in> set pre \<Longrightarrow> firstIndex (pre @ xs) a < length pre"
  unfolding firstIndex_def
  by (induction pre) auto

lemma firstIndex_after_prefix:
  "a \<notin> set pre \<Longrightarrow> firstIndex (pre @ a # xs) a = length pre"
  unfolding firstIndex_def
  by (induction pre) auto

lemma set_add_all_order:
  assumes "set seen = set pre"
    and "sorted_wrt (\<lambda>a b. firstIndex (pre @ xs) a < firstIndex (pre @ xs) b) seen"
  shows "sorted_wrt (\<lambda>a b. firstIndex (pre @ xs) a < firstIndex (pre @ xs) b)
           (set_add_all seen xs)"
  using assms
proof (induction xs arbitrary: seen pre)
  case Nil
  then show ?case by simp
next
  case (Cons x xs)
  let ?fi = "firstIndex (pre @ x # xs)"
  have whole: "(pre @ [x]) @ xs = pre @ x # xs" by simp
  show ?case
  proof (cases "x \<in> set seen")
    case True
    have "sorted_wrt (\<lambda>a b. firstIndex ((pre @ [x]) @ xs) a < firstIndex ((pre @ [x]) @ xs) b)
            (set_add_all seen xs)"
    proof (rule Cons.IH)
      show "set seen = set (pre @ [x])" using True Cons.prems(1) by auto
      show "sorted_wrt (\<lambda>a b. firstIndex ((pre @ [x]) @ xs) a < firstIndex ((pre @ [x]) @ xs) b) seen"
        using Cons.prems(2) by (simp only: whole)
    qed
    then show ?thesis using True by (simp only: whole set_add_all.simps if_True)
  next
    case False
    then have notin: "x \<notin> set pre" using Cons.prems(1) by simp
    have fx: "?fi x = length pre" using firstIndex_after_prefix [OF notin] by simp
    have lt: "\<forall>a \<in> set seen. ?fi a < ?fi x"
      using firstIndex_in_prefix [of _ pre "x # xs"] Cons.prems(1) fx by simp
    have "sorted_wrt (\<lambda>a b. firstIndex ((pre @ [x]) @ xs) a < firstIndex ((pre @ [x]) @ xs) b)
            (set_add_all (seen @ [x]) xs)"
    proof (rule Cons.IH)
      show "set (seen @ [x]) = set (pre @ [x])" using Cons.prems(1) by simp
      show "sorted_wrt (\<lambda>a b. firstIndex ((pre @ [x]) @ xs) a < firstIndex ((pre @ [x]) @ xs) b)
              (seen @ [x])"
        using Cons.prems(2) lt by (simp only: whole sorted_wrt_append) simp
    qed
    then show ?thesis using False by (simp only: whole set_add_all.simps if_False)
  qed
qed

lemma uniqueValues_order:
  "sorted_wrt (\<lambda>a b. firstIndex xs a < firstIndex xs b) (uniqueValues xs)"
  using set_add_all_order [of "[]" "[]" xs] by (simp add: uniqueValues_def)

lemma uniqueValues_set: "set (uniqueValues xs) = set xs"
  by (simp add: uniqueValues_def set_set_add_all)

lemma uniqueValues_distinct: "distinct (uniqueValues xs)"
  by (simp add: uniqueValues_def distinct_set_add_all)

lemma insort_key_stable_wrt:
  assumes "sorted_wrt (\<lambda>a b. k a < k b \<or> (k a = k b \<and> Q a b)) ys"
    and "\<forall>y \<in> set ys. Q x y"
  shows "sorted_wrt (\<lambda>a b. k a < k b \<or> (k a = k b \<and> Q a b)) (insort_key k x ys)"
  using assms
proof (induction ys)
  case Nil
  then show ?case by simp
next
  case (Cons y ys)
  show ?case
  proof (cases "k x \<le> k y")
    case True
    have "\<forall>z \<in> set ys. k y \<le> k z" using Cons.prems(1) by auto
    then have "\<forall>z \<in> set (y # ys). k x < k z \<or> (k x = k z \<and> Q x z)"
      using True Cons.prems(2) by fastforce
    then show ?thesis using True Cons.prems(1) by simp
  next
    case False
    have "sorted_wrt (\<lambda>a b. k a < k b \<or> (k a = k b \<and> Q a b)) (insort_key k x ys)"
      using Cons by simp
    moreover have "\<forall>z \<in> set (insort_key k x ys). k y < k z \<or> (k y = k z \<and> Q y z)"
      using False Cons.prems(1) by (auto simp: set_insort_key)
    ultimately show ?thesis using False by simp
  qed
qed

lemma sort_key_stable_wrt:
  "sorted_wrt Q xs \<Longrightarrow>
   sorted_wrt (\<lambda>a b. k a < k b \<or> (k a = k b \<and> Q a b)) (sort_key k xs)"
  for k :: "'a \<Rightarrow> 'b::linorder"
proof (induction xs)
  case Nil
  then show ?case by simp
next
  case (Cons x xs)
  then show ?case by (simp add: insort_key_stable_wrt)
qed


lemma math_max_Max:
  assumes "xs \<noteq> []"
  shows "math_max xs = Num (of_int (Max (set xs)))"
proof (cases xs)
  case Nil
  then show ?thesis using assms by simp
next
  case (Cons x ys)
  have "Max (set (x # ys)) = fold max ys x" by (rule Max.set_eq_fold)
  then show ?thesis using Cons by simp
qed

lemma latestSeason_Max:
  assumes "data \<noteq> []"
  shows "latestSeason data = Num (of_int (Max (season ` set data)))"
proof -
  have "heatmapSeasons data = sort_key (\<lambda>x. x) (uniqueValues (map season data))"
    using array_sort_sort_key [of "\<lambda>x. x"] by (simp add: heatmapSeasons_def)
  then have s: "set (heatmapSeasons data) = season ` set data"
    by (simp add: uniqueValues_set)
  then have "heatmapSeasons data \<noteq> []" using assms by auto
  then show ?thesis using s by (simp add: latestSeason_def math_max_Max)
qed

lemma find_filter: "find P (filter Q xs) = find (\<lambda>x. Q x \<and> P x) xs"
  by (induction xs) auto

lemma teamLatest_find:
  "teamLatest data t = find (\<lambda>d. season d = Max (season ` set data) \<and> abbr d = t) data"
proof (cases "data = []")
  case True
  then show ?thesis by (simp add: teamLatest_def)
next
  case False
  then show ?thesis by (simp add: teamLatest_def latestSeason_Max find_filter)
qed

text \<open>
  C4.  The heatmap lists every team code of the data once.  The rows are in descending
  order of the team's three-point rate in the latest season of the data, and of two teams
  with the same rate the one that appears first in the input array comes first.  The
  rate of a team is that of its first record of the latest season (0 when the record has
  no rate), and 0 when the team has no record in the latest season.
\<close>

theorem heatmapTeams_order:
  "distinct (heatmapTeams data) \<and>
   set (heatmapTeams data) = abbr ` set data \<and>
   sorted_wrt (\<lambda>a b. latestRate data a > latestRate data b \<or>
                      (latestRate data a = latestRate data b \<and>
                       firstIndex (map abbr data) a < firstIndex (map abbr data) b))
     (heatmapTeams data) \<and>
   (\<forall>t. \<not> (\<exists>d \<in> set data. abbr d = t \<and> season d = Max (season ` set data)) \<longrightarrow>
        latestRate data t = 0) \<and>
   (\<forall>t d. find (\<lambda>d. season d = Max (season ` set data) \<and> abbr d = t) data = Some d \<longrightarrow>
        latestRate data t = (case threeRate d of None \<Rightarrow> 0 | Some r \<Rightarrow> r))"
proof (intro conjI)
  let ?u = "uniqueValues (map abbr data)"
  let ?k = "\<lambda>a. - latestRate data a"
  have ts: "heatmapTeams data = sort_key ?k ?u"
    by (simp add: heatmapTeams_def array_sort_descending)
  show "distinct (heatmapTeams data)"
    by (simp add: ts uniqueValues_distinct)
  show "set (heatmapTeams data) = abbr ` set data"
    by (simp add: ts uniqueValues_set)
  have "sorted_wrt (\<lambda>a b. ?k a < ?k b \<or>
          (?k a = ?k b \<and> firstIndex (map abbr data) a < firstIndex (map abbr data) b))
          (sort_key ?k ?u)"
    by (rule sort_key_stable_wrt [OF uniqueValues_order])
  then show "sorted_wrt (\<lambda>a b. latestRate data a > latestRate data b \<or>
                      (latestRate data a = latestRate data b \<and>
                       firstIndex (map abbr data) a < firstIndex (map abbr data) b))
     (heatmapTeams data)"
    by (simp add: ts)
  show "\<forall>t. \<not> (\<exists>d \<in> set data. abbr d = t \<and> season d = Max (season ` set data)) \<longrightarrow>
        latestRate data t = 0"
  proof (intro allI impI)
    fix t
    assume no: "\<not> (\<exists>d \<in> set data. abbr d = t \<and> season d = Max (season ` set data))"
    have "teamLatest data t = None"
      unfolding teamLatest_find find_None_iff using no by blast
    then show "latestRate data t = 0" by (simp add: latestRate_def)
  qed
  show "\<forall>t d. find (\<lambda>d. season d = Max (season ` set data) \<and> abbr d = t) data = Some d \<longrightarrow>
        latestRate data t = (case threeRate d of None \<Rightarrow> 0 | Some r \<Rightarrow> r)"
    by (simp add: latestRate_def teamLatest_find)
qed

theorem heatmapTeams_order_witness:
  "heatmapTeams
     [\<lparr>season = 2020, abbr = ''SEA'', cellCity = ''Seattle'', cellTeam = ''SuperSonics'',
       threeRate = Some (1 / 2), cellThreePct = 36 / 100\<rparr>,
      \<lparr>season = 2021, abbr = ''ATL'', cellCity = ''Atlanta'', cellTeam = ''Hawks'',
       threeRate = Some (2 / 5), cellThreePct = 37 / 100\<rparr>,
      \<lparr>season = 2021, abbr = ''DEN'', cellCity = ''Denver'', cellTeam = ''Nuggets'',
       threeRate = Some (2 / 5), cellThreePct = 38 / 100\<rparr>,
      \<lparr>season = 2021, abbr = ''BOS'', cellCity = ''Boston'', cellTeam = ''Celtics'',
       threeRate = Some (9 / 20), cellThreePct = 39 / 100\<rparr>]
   = [''BOS'', ''ATL'', ''DEN'', ''SEA''] \<and>
   latestRate
     [\<lparr>season = 2020, abbr = ''SEA'', cellCity = ''Seattle'', cellTeam = ''SuperSonics'',
       threeRate = Some (1 / 2), cellThreePct = 36 / 100\<rparr>,
      \<lparr>season = 2021, abbr = ''ATL'', cellCity = ''Atlanta'', cellTeam = ''Hawks'',
       threeRate = Some (2 / 5), cellThreePct = 37 / 100\<rparr>,
      \<lparr>season = 2021, abbr = ''DEN'', cellCity = ''Denver'', cellTeam = ''Nuggets'',
       threeRate = Some (2 / 5), cellThreePct = 38 / 100\<rparr>,
      \<lparr>season = 2021, abbr = ''BOS'', cellCity = ''Boston'', cellTeam = ''Celtics'',
       threeRate = Some (9 / 20), cellThreePct = 39 / 100\<rparr>] ''SEA'' = 0"
proof -
  let ?D = "[\<lparr>season = 2020, abbr = ''SEA'', cellCity = ''Seattle'', cellTeam = ''SuperSonics'',
       threeRate = Some (1 / 2), cellThreePct = 36 / 100\<rparr>,
      \<lparr>season = 2021, abbr = ''ATL'', cellCity = ''Atlanta'', cellTeam = ''Hawks'',
       threeRate = Some (2 / 5), cellThreePct = 37 / 100\<rparr>,
      \<lparr>season = 2021, abbr = ''DEN'', cellCity = ''Denver'', cellTeam = ''Nuggets'',
       threeRate = Some (2 / 5), cellThreePct = 38 / 100\<rparr>,
      \<lparr>season = 2021, abbr = ''BOS'', cellCity = ''Boston'', cellTeam = ''Celtics'',
       threeRate = Some (9 / 20), cellThreePct = 39 / 100\<rparr>]"
  have no: "\<not> (\<exists>d \<in> set ?D. abbr d = ''SEA'' \<and> season d = Max (season ` set ?D))"
    by simp
  have "latestRate ?D ''SEA'' = 0"
    using heatmapTeams_order [of ?D] no by blast
  moreover have "heatmapTeams ?D = [''BOS'', ''ATL'', ''DEN'', ''SEA'']"
    by (simp add: heatmapTeams_def array_sort_def uniqueValues_def latestRate_def
        teamLatest_def latestSeason_def heatmapSeasons_def d3_descending_def)
  ultimately show ?thesis by simp
qed

section \<open>Properties of the nearest-point lookup\<close>

lemma sorted_key_nth_mono:
  assumes "sorted (map f a)" "i \<le> j" "j < length a"
  shows "f (a ! i) \<le> f (a ! j)"
  using sorted_nth_mono [OF assms(1), of i j] assms(2,3) by simp

lemma sorted_key_int_mono:
  assumes "sorted (map f a)" "0 \<le> i" "i \<le> j" "j < int (length a)"
  shows "f (a ! nat i) \<le> f (a ! nat j)"
proof -
  have "nat i \<le> nat j" "nat j < length a" using assms(2-4) by linarith+
  then show ?thesis by (rule sorted_key_nth_mono [OF assms(1)])
qed

lemma bisect_left_spec:
  assumes "sorted (map f a)" "0 \<le> lo" "lo \<le> hi" "hi \<le> int (length a)"
  shows "lo \<le> bisect_left f a x lo hi \<and> bisect_left f a x lo hi \<le> hi \<and>
         (\<forall>j. lo \<le> j \<and> j < bisect_left f a x lo hi \<longrightarrow> f (a ! nat j) < x) \<and>
         (\<forall>j. bisect_left f a x lo hi \<le> j \<and> j < hi \<longrightarrow> x \<le> f (a ! nat j))"
  using assms
proof (induction f a x lo hi rule: bisect_left.induct)
  case (1 f a x lo hi)
  show ?case
  proof (cases "lo < hi")
    case False
    then have "bisect_left f a x lo hi = lo" by (simp add: bisect_left.simps [of f a x lo hi])
    then show ?thesis using False "1.prems" by simp
  next
    case True
    define mid where "mid = (lo + hi) div 2"
    have mid: "lo \<le> mid" "mid < hi" using True by (simp_all add: mid_def)
    show ?thesis
    proof (cases "f (a ! nat mid) < x")
      case lt: True
      have eq: "bisect_left f a x lo hi = bisect_left f a x (mid + 1) hi"
        using True lt by (simp add: bisect_left.simps [of f a x lo hi] mid_def Let_def)
      have IH: "mid + 1 \<le> bisect_left f a x (mid + 1) hi \<and>
                bisect_left f a x (mid + 1) hi \<le> hi \<and>
                (\<forall>j. mid + 1 \<le> j \<and> j < bisect_left f a x (mid + 1) hi \<longrightarrow> f (a ! nat j) < x) \<and>
                (\<forall>j. bisect_left f a x (mid + 1) hi \<le> j \<and> j < hi \<longrightarrow> x \<le> f (a ! nat j))"
        using "1.IH"(1) [OF True mid_def lt] "1.prems" mid by simp
      have below: "\<forall>j. lo \<le> j \<and> j \<le> mid \<longrightarrow> f (a ! nat j) < x"
      proof (intro allI impI)
        fix j assume j: "lo \<le> j \<and> j \<le> mid"
        have "f (a ! nat j) \<le> f (a ! nat mid)"
          using j mid "1.prems" by (intro sorted_key_int_mono) auto
        then show "f (a ! nat j) < x" using lt by simp
      qed
      show ?thesis unfolding eq
      proof (intro conjI allI impI)
        show "lo \<le> bisect_left f a x (mid + 1) hi" using IH mid by linarith
        show "bisect_left f a x (mid + 1) hi \<le> hi" using IH by simp
        fix j
        { assume j: "lo \<le> j \<and> j < bisect_left f a x (mid + 1) hi"
          show "f (a ! nat j) < x"
          proof (cases "j \<le> mid")
            case True
            then show ?thesis using below j by simp
          next
            case False
            then have "mid + 1 \<le> j" by simp
            then show ?thesis using IH j by simp
          qed }
        { assume j: "bisect_left f a x (mid + 1) hi \<le> j \<and> j < hi"
          show "x \<le> f (a ! nat j)" using IH j by simp }
      qed
    next
      case ge: False
      have eq: "bisect_left f a x lo hi = bisect_left f a x lo mid"
        using True ge by (simp add: bisect_left.simps [of f a x lo hi] mid_def Let_def)
      have IH: "lo \<le> bisect_left f a x lo mid \<and>
                bisect_left f a x lo mid \<le> mid \<and>
                (\<forall>j. lo \<le> j \<and> j < bisect_left f a x lo mid \<longrightarrow> f (a ! nat j) < x) \<and>
                (\<forall>j. bisect_left f a x lo mid \<le> j \<and> j < mid \<longrightarrow> x \<le> f (a ! nat j))"
        using "1.IH"(2) [OF True mid_def ge] "1.prems" mid by simp
      have above: "\<forall>j. mid \<le> j \<and> j < hi \<longrightarrow> x \<le> f (a ! nat j)"
      proof (intro allI impI)
        fix j assume j: "mid \<le> j \<and> j < hi"
        have "f (a ! nat mid) \<le> f (a ! nat j)"
          using j mid "1.prems" by (intro sorted_key_int_mono) auto
        then show "x \<le> f (a ! nat j)" using ge by simp
      qed
      show ?thesis unfolding eq
      proof (intro conjI allI impI)
        show "lo \<le> bisect_left f a x lo mid" using IH by simp
        show "bisect_left f a x lo mid \<le> hi" using IH mid by linarith
        fix j
        { assume j: "lo \<le> j \<and> j < bisect_left f a x lo mid"
          show "f (a ! nat j) < x" using IH j by simp }
        { assume j: "bisect_left f a x lo mid \<le> j \<and> j < hi"
          show "x \<le> f (a ! nat j)"
          proof (cases "j < mid")
            case True
            then show ?thesis using IH j by simp
          next
            case False
            then show ?thesis using above j by simp
          qed }
      qed
    qed
  qed
qed


lemma bisect_center_nearest:
  assumes srt: "sorted (map f a)" and ne: "a \<noteq> []"
  shows "0 \<le> bisect_center f a x \<and> bisect_center f a x < int (length a) \<and>
         (\<forall>j < length a.
            \<bar>f (a ! nat (bisect_center f a x)) - x\<bar> \<le> \<bar>f (a ! j) - x\<bar> \<and>
            (\<bar>f (a ! j) - x\<bar> = \<bar>f (a ! nat (bisect_center f a x)) - x\<bar> \<longrightarrow>
               f (a ! j) \<le> f (a ! nat (bisect_center f a x))))"
proof -
  define n where "n = int (length a)"
  define i where "i = bisect_left f a x 0 (n - 1)"
  define v where "v = f (a ! nat i)"
  define l where "l = f (a ! nat (i - 1))"
  have n: "1 \<le> n" using ne by (cases a) (simp_all add: n_def)
  have spec: "0 \<le> i \<and> i \<le> n - 1 \<and>
         (\<forall>j. 0 \<le> j \<and> j < i \<longrightarrow> f (a ! nat j) < x) \<and>
         (\<forall>j. i \<le> j \<and> j < n - 1 \<longrightarrow> x \<le> f (a ! nat j))"
    unfolding i_def using bisect_left_spec [OF srt, of 0 "n - 1" x] n ne by (simp add: n_def)
  have i: "0 \<le> i" "i < n" using spec by simp_all
  have c: "bisect_center f a x = (if i > 0 \<and> l - x > - (v - x) then i - 1 else i)"
    by (simp add: bisect_center_def Let_def i_def v_def l_def n_def)
  have ge: "v \<le> f (a ! j)" if "j < length a" "i \<le> int j" for j
  proof -
    have "f (a ! nat i) \<le> f (a ! nat (int j))"
      using that i by (intro sorted_key_int_mono [OF srt]) auto
    then show ?thesis by (simp add: v_def)
  qed
  have le: "f (a ! j) \<le> v" if "j < length a" "int j \<le> i" for j
  proof -
    have "f (a ! nat (int j)) \<le> f (a ! nat i)"
      using that i by (intro sorted_key_int_mono [OF srt]) (auto simp: n_def)
    then show ?thesis by (simp add: v_def)
  qed
  have lt: "f (a ! j) \<le> l \<and> l < x" if "j < length a" "int j < i" for j
  proof -
    have "f (a ! nat (int j)) \<le> f (a ! nat (i - 1))"
      using that i by (intro sorted_key_int_mono [OF srt]) (auto simp: n_def)
    moreover have "f (a ! nat (i - 1)) < x" using spec that by simp
    ultimately show ?thesis by (simp add: l_def)
  qed
  have inner: "x \<le> v" if "i < n - 1"
    using spec that by (simp add: v_def)
  show ?thesis
  proof (cases "i > 0 \<and> l - x > - (v - x)")
    case True
    then have ci: "bisect_center f a x = i - 1" using c by simp
    have lx: "l < x" using spec True by (simp add: l_def)
    have near: "\<bar>l - x\<bar> \<le> \<bar>f (a ! j) - x\<bar> \<and>
                (\<bar>f (a ! j) - x\<bar> = \<bar>l - x\<bar> \<longrightarrow> f (a ! j) \<le> l)"
      if "j < length a" for j
    proof (cases "int j < i")
      case True
      then show ?thesis using lt [OF that True] by linarith
    next
      case False
      then have "v \<le> f (a ! j)" using ge [OF that] by simp
      then show ?thesis using lx \<open>i > 0 \<and> l - x > - (v - x)\<close> by linarith
    qed
    show ?thesis unfolding ci using near i True by (simp add: l_def n_def)
  next
    case False
    then have ci: "bisect_center f a x = i" using c by simp
    have near: "\<bar>v - x\<bar> \<le> \<bar>f (a ! j) - x\<bar> \<and>
                (\<bar>f (a ! j) - x\<bar> = \<bar>v - x\<bar> \<longrightarrow> f (a ! j) \<le> v)"
      if "j < length a" for j
    proof (cases "x \<le> v")
      case xv: True
      show ?thesis
      proof (cases "int j < i")
        case True
        then have "i > 0" by simp
        then have "l - x \<le> - (v - x)" using False by simp
        then show ?thesis using lt [OF that True] xv by linarith
      next
        case False
        then have "v \<le> f (a ! j)" using ge [OF that] by simp
        then show ?thesis using xv by linarith
      qed
    next
      case vx: False
      then have "i = n - 1" using inner i by force
      then have "int j \<le> i" using that by (simp add: n_def)
      then have "f (a ! j) \<le> v" using le [OF that] by simp
      then show ?thesis using vx by linarith
    qed
    show ?thesis unfolding ci using near i by (simp add: v_def n_def)
  qed
qed


lemma sorted_seasonKey:
  "sorted (map season data) \<Longrightarrow> sorted (map seasonKey data)"
  by (induction data) (auto simp: seasonKey_def)

lemma focusOn_idem:
  "focusOn nf (focusOn nf chart d) d = focusOn nf chart d"
  by (simp add: focusOn_def)

lemma showTooltip_idem:
  "showTooltip nf (focusOn nf chart d) d (showTooltip nf chart d p) = showTooltip nf chart d p"
  by (simp add: showTooltip_def focusOn_def)

text \<open>
  C8.  For a sorted, non-empty array of seasons and every position \<open>x\<close> on the season
  axis, the centred bisection returns an index of the array whose season is at least as
  near to \<open>x\<close> as every other season of the array; of two seasons at the same distance
  from \<open>x\<close> (an exact midpoint) it is the later one.  \<open>pointerMove\<close> focuses the record at
  that index for the inverted pointer position, and a second call with the same pointer
  position leaves the chart and the tooltip as the first call left them.
\<close>

theorem pointerMove_nearest:
  assumes "sorted (map season data)" and "data \<noteq> []"
  shows "(\<forall>x. 0 \<le> bisect_center seasonKey data x \<and>
              bisect_center seasonKey data x < int (length data) \<and>
              (\<forall>j < length data.
                 \<bar>of_int (season (data ! nat (bisect_center seasonKey data x))) - x\<bar>
                   \<le> \<bar>of_int (season (data ! j)) - x\<bar> \<and>
                 (\<bar>of_int (season (data ! j)) - x\<bar>
                    = \<bar>of_int (season (data ! nat (bisect_center seasonKey data x))) - x\<bar> \<longrightarrow>
                  season (data ! j) \<le> season (data ! nat (bisect_center seasonKey data x))))) \<and>
         (\<forall>chart mx. lcData chart = data \<longrightarrow>
            pointerMove numberFmt mx chart p =
              (let datum = data ! nat (bisect_center seasonKey data
                                         (xInvert (lcInnerWidth chart) data mx))
               in (focusOn numberFmt chart datum, showTooltip numberFmt chart datum p)) \<and>
            pointerMove numberFmt mx (fst (pointerMove numberFmt mx chart p))
                                     (snd (pointerMove numberFmt mx chart p))
              = pointerMove numberFmt mx chart p)"
proof (rule conjI)
  show "\<forall>x. 0 \<le> bisect_center seasonKey data x \<and>
              bisect_center seasonKey data x < int (length data) \<and>
              (\<forall>j < length data.
                 \<bar>of_int (season (data ! nat (bisect_center seasonKey data x))) - x\<bar>
                   \<le> \<bar>of_int (season (data ! j)) - x\<bar> \<and>
                 (\<bar>of_int (season (data ! j)) - x\<bar>
                    = \<bar>of_int (season (data ! nat (bisect_center seasonKey data x))) - x\<bar> \<longrightarrow>
                  season (data ! j) \<le> season (data ! nat (bisect_center seasonKey data x))))"
  proof (rule allI)
    fix x
    show "0 \<le> bisect_center seasonKey data x \<and>
              bisect_center seasonKey data x < int (length data) \<and>
              (\<forall>j < length data.
                 \<bar>of_int (season (data ! nat (bisect_center seasonKey data x))) - x\<bar>
                   \<le> \<bar>of_int (season (data ! j)) - x\<bar> \<and>
                 (\<bar>of_int (season (data ! j)) - x\<bar>
                    = \<bar>of_int (season (data ! nat (bisect_center seasonKey data x))) - x\<bar> \<longrightarrow>
                  season (data ! j) \<le> season (data ! nat (bisect_center seasonKey data x))))"
      using bisect_center_nearest [OF sorted_seasonKey [OF assms(1)] assms(2), of x]
      by (simp add: seasonKey_def)
  qed
next
  show "\<forall>chart mx. lcData chart = data \<longrightarrow>
            pointerMove numberFmt mx chart p =
              (let datum = data ! nat (bisect_center seasonKey data
                                         (xInvert (lcInnerWidth chart) data mx))
               in (focusOn numberFmt chart datum, showTooltip numberFmt chart datum p)) \<and>
            pointerMove numberFmt mx (fst (pointerMove numberFmt mx chart p))
                                     (snd (pointerMove numberFmt mx chart p))
              = pointerMove numberFmt mx chart p"
  proof (intro allI impI)
    fix chart :: leagueChart and mx
    assume d: "lcData chart = data"
    let ?i = "bisect_center seasonKey data (xInvert (lcInnerWidth chart) data mx)"
    have rng: "0 \<le> ?i \<and> ?i < int (length data)"
      using bisect_center_nearest [OF sorted_seasonKey [OF assms(1)] assms(2)] by simp
    then have at: "at_index data ?i = Some (data ! nat ?i)" by (simp add: at_index_def)
    have pm: "pointerMove numberFmt mx chart p =
        (focusOn numberFmt chart (data ! nat ?i), showTooltip numberFmt chart (data ! nat ?i) p)"
      using at d by (simp add: pointerMove_def Let_def)
    have d': "lcData (focusOn numberFmt chart (data ! nat ?i)) = data"
       "lcInnerWidth (focusOn numberFmt chart (data ! nat ?i)) = lcInnerWidth chart"
      using d by (simp_all add: focusOn_def)
    have again: "pointerMove numberFmt mx (focusOn numberFmt chart (data ! nat ?i))
          (showTooltip numberFmt chart (data ! nat ?i) p)
        = (focusOn numberFmt chart (data ! nat ?i), showTooltip numberFmt chart (data ! nat ?i) p)"
      using at d' by (simp add: pointerMove_def Let_def focusOn_idem showTooltip_idem)
    show "pointerMove numberFmt mx chart p =
              (let datum = data ! nat ?i
               in (focusOn numberFmt chart datum, showTooltip numberFmt chart datum p)) \<and>
            pointerMove numberFmt mx (fst (pointerMove numberFmt mx chart p))
                                     (snd (pointerMove numberFmt mx chart p))
              = pointerMove numberFmt mx chart p"
      using again by (simp add: pm Let_def)
  qed
qed

theorem pointerMove_nearest_witness:
  "bisect_center seasonKey
     [\<lparr>season = 2018, avgThreeAttempts = 29, avgPoints = 106, avgThreeRate = 1 / 3\<rparr>,
      \<lparr>season = 2019, avgThreeAttempts = 32, avgPoints = 111, avgThreeRate = 9 / 25\<rparr>,
      \<lparr>season = 2020, avgThreeAttempts = 34, avgPoints = 112, avgThreeRate = 2 / 5\<rparr>]
     (4037 / 2) = 1 \<and>
   \<bar>of_int (season ([\<lparr>season = 2018, avgThreeAttempts = 29, avgPoints = 106, avgThreeRate = 1 / 3 :: rat\<rparr>,
      \<lparr>season = 2019, avgThreeAttempts = 32, avgPoints = 111, avgThreeRate = 9 / 25\<rparr>,
      \<lparr>season = 2020, avgThreeAttempts = 34, avgPoints = 112, avgThreeRate = 2 / 5\<rparr>] ! 1)) - (4037 / 2 :: rat)\<bar>
     \<le> \<bar>of_int (season ([\<lparr>season = 2018, avgThreeAttempts = 29, avgPoints = 106, avgThreeRate = 1 / 3 :: rat\<rparr>,
      \<lparr>season = 2019, avgThreeAttempts = 32, avgPoints = 111, avgThreeRate = 9 / 25\<rparr>,
      \<lparr>season = 2020, avgThreeAttempts = 34, avgPoints = 112, avgThreeRate = 2 / 5\<rparr>] ! 0)) - (4037 / 2 :: rat)\<bar>"
proof -
  let ?D = "[\<lparr>season = 2018, avgThreeAttempts = 29, avgPoints = 106, avgThreeRate = 1 / 3 :: rat\<rparr>,
      \<lparr>season = 2019, avgThreeAttempts = 32, avgPoints = 111, avgThreeRate = 9 / 25\<rparr>,
      \<lparr>season = 2020, avgThreeAttempts = 34, avgPoints = 112, avgThreeRate = 2 / 5\<rparr>]"
  have s: "sorted (map season ?D)" by simp
  have ne: "?D \<noteq> []" by simp
  have c: "bisect_center seasonKey ?D (4037 / 2) = 1"
    by (simp add: bisect_center_def bisect_left.simps seasonKey_def)
  have "\<forall>j < length ?D.
          \<bar>of_int (season (?D ! nat (bisect_center seasonKey ?D (4037 / 2)))) - 4037 / 2\<bar>
            \<le> \<bar>of_int (season (?D ! j)) - (4037 / 2 :: rat)\<bar>"
    using pointerMove_nearest [OF s ne] by blast
  then have "\<bar>of_int (season (?D ! nat 1)) - (4037 / 2 :: rat)\<bar>
               \<le> \<bar>of_int (season (?D ! 0)) - (4037 / 2 :: rat)\<bar>"
    unfolding c by simp
  with c show ?thesis by simp
qed

section \<open>Properties of the bootstrap\<close>

lemma awaitAll_failed:
  assumes "\<exists>err. leagueTrends f = Inl err \<or> scoringMix f = Inl err \<or> teamScatter f = Inl err \<or>
                 heatmapData f = Inl err \<or> teamMapData f = Inl err \<or> spiralData f = Inl err \<or>
                 statesTopo f = Inl err"
  shows "awaitAll f = Inl FetchError"
  using assms unfolding awaitAll_def by (auto split: sum.splits)

text \<open>
  C3.  When one of the seven requests awaited together by \<open>init\<close> fails (the fetch or the
  JSON parse), \<open>init\<close> only appends the error line to the console: no drawing is made, no
  text is set, no controller is registered, and no story step is observed or activated.
\<close>

theorem init_aborts_on_failed_fetch:
  assumes "\<exists>err. leagueTrends f = Inl err \<or> scoringMix f = Inl err \<or> teamScatter f = Inl err \<or>
                 heatmapData f = Inl err \<or> teamMapData f = Inl err \<or> spiralData f = Inl err \<or>
                 statesTopo f = Inl err"
  shows "init e f a = a\<lparr>console := console a @ [ConsoleError ''Failed to boot dashboard'']\<rparr> \<and>
         drawings (init e f a) = drawings a \<and> texts (init e f a) = texts a \<and>
         tip (init e f a) = tip a \<and>
         league (init e f a) = league a \<and> scoring (init e f a) = scoring a \<and>
         scatter (init e f a) = scatter a \<and> heatmap (init e f a) = heatmap a \<and>
         teamMap (init e f a) = teamMap a \<and> spiral (init e f a) = spiral a \<and>
         steps (init e f a) = steps a \<and> observed (init e f a) = observed a"
  using awaitAll_failed [OF assms] by (simp add: init_def bootFailed_def)

theorem init_aborts_on_failed_fetch_witness:
  "init sampleEnv
     \<lparr>leagueTrends = Inr [], scoringMix = Inl FetchError, teamScatter = Inr [],
      heatmapData = Inr [], teamMapData = Inr [], spiralData = Inr [], statesTopo = Inr None\<rparr>
     (startApp dashboardAnchors)
   = (startApp dashboardAnchors)\<lparr>console := [ConsoleError ''Failed to boot dashboard'']\<rparr>"
proof -
  let ?f = "\<lparr>leagueTrends = Inr [], scoringMix = Inl FetchError, teamScatter = Inr [],
      heatmapData = Inr [], teamMapData = Inr [], spiralData = Inr [], statesTopo = Inr None\<rparr>"
  have "\<exists>err. leagueTrends ?f = Inl err \<or> scoringMix ?f = Inl err \<or> teamScatter ?f = Inl err \<or>
                 heatmapData ?f = Inl err \<or> teamMapData ?f = Inl err \<or> spiralData ?f = Inl err \<or>
                 statesTopo ?f = Inl err"
    by simp
  from init_aborts_on_failed_fetch [OF this, of sampleEnv "startApp dashboardAnchors"]
  show ?thesis by (simp add: startApp_def)
qed


section \<open>Missing anchor elements\<close>

text \<open>
  C2 as stated fails: in a document that lacks only the container of the scoring mix
  chart, \<open>renderScoringMix\<close> throws a TypeError; it logs no warning and returns no
  control object.
\<close>

theorem renderer_missing_container_counterexample:
  "renderScoringMix [] (startApp (removeAll ''scoringMixChart'' dashboardAnchors))
     = (Inl TypeError, startApp (removeAll ''scoringMixChart'' dashboardAnchors))"
  by (simp add: renderScoringMix_def clearContainer_def startApp_def dashboardAnchors_def)

text \<open>
  C2, amended.  When the container of the scatter chart is present and its slider, its
  season label or its insight element is absent, \<open>renderTeamScatter\<close> logs a warning and
  returns the empty control object; it does not throw.  Each of the six renderers throws a
  TypeError when its chart container element is absent, and then logs nothing, draws
  nothing and returns no control object.
\<close>

theorem renderers_missing_anchor:
  "(''teamScatter'' \<in> set (anchors p) \<and>
      (''seasonSlider'' \<notin> set (anchors p) \<or> ''seasonLabel'' \<notin> set (anchors p)
         \<or> ''teamInsight'' \<notin> set (anchors p)) \<longrightarrow>
      renderTeamScatter nf x y sv scatterRaw p =
        (Inr EmptyControl,
         p\<lparr>drawings := ''teamScatter'' # removeAll ''teamScatter'' (drawings p),
           console := console p @
             [ConsoleWarn ''Missing slider elements for the team scatter chart.'']\<rparr>)) \<and>
   (''leagueTrendChart'' \<notin> set (anchors p) \<longrightarrow>
      renderLeagueTrends nf w leagueRaw p = (Inl TypeError, p)) \<and>
   (''scoringMixChart'' \<notin> set (anchors p) \<longrightarrow>
      renderScoringMix scoringRaw p = (Inl TypeError, p)) \<and>
   (''teamScatter'' \<notin> set (anchors p) \<longrightarrow>
      renderTeamScatter nf x y sv scatterRaw p = (Inl TypeError, p)) \<and>
   (''heatmapChart'' \<notin> set (anchors p) \<longrightarrow>
      renderHeatmap heatmapRaw p = (Inl TypeError, p)) \<and>
   (''teamMap'' \<notin> set (anchors p) \<longrightarrow>
      renderTeamMap proj mapRaw topo p = (Inl TypeError, p)) \<and>
   (''momentumSpiral'' \<notin> set (anchors p) \<longrightarrow>
      renderMomentumSpiral spiralRaw p = (Inl TypeError, p))"
  by (auto simp: renderTeamScatter_def renderLeagueTrends_def renderScoringMix_def
      renderHeatmap_def renderTeamMap_def renderMomentumSpiral_def clearContainer_def
      appendSvg_def Let_def)


theorem renderers_missing_anchor_witness:
  "renderTeamScatter sampleFmt of_rat of_rat None []
     (startApp [''teamScatter'', ''seasonSlider'', ''seasonLabel''])
     = (Inr EmptyControl,
        (startApp [''teamScatter'', ''seasonSlider'', ''seasonLabel''])
          \<lparr>drawings := [''teamScatter''],
           console := [ConsoleWarn ''Missing slider elements for the team scatter chart.'']\<rparr>) \<and>
   renderLeagueTrends sampleFmt 960 [] (startApp [''trendLegend''])
     = (Inl TypeError, startApp [''trendLegend''])"
  using renderers_missing_anchor
          [of "startApp [''teamScatter'', ''seasonSlider'', ''seasonLabel'']"
              sampleFmt of_rat of_rat None "[]"]
        renderers_missing_anchor [of "startApp [''trendLegend'']" sampleFmt _ _ _ _ 960 "[]"]
  by (simp add: startApp_def)

section \<open>Focusing a season\<close>

lemma at_index_last:
  "data \<noteq> [] \<Longrightarrow> at_index data (int (length data) - 1) = Some (last data)"
  by (cases data rule: rev_cases) (simp_all add: at_index_def nth_append)

lemma findSeason_fallback:
  assumes "data \<noteq> []" and "\<forall>d \<in> set data. Some (season d) \<noteq> arg"
  shows "findSeason arg data = Some (last data)"
proof -
  have "find (\<lambda>d. Some (season d) = arg) data = None"
    using assms(2) by (simp add: find_None_iff)
  then show ?thesis using assms(1) by (simp add: findSeason_def at_index_last)
qed

lemma findSeason_empty: "findSeason arg [] = None"
  by (simp add: findSeason_def at_index_def)

lemma find_index_None: "find_index P xs = None \<longleftrightarrow> (\<forall>x \<in> set xs. \<not> P x)"
  by (induction xs) auto

lemma findSeasonIndex_fallback:
  assumes "data \<noteq> []" and "\<forall>d \<in> set data. Some (season d) \<noteq> arg"
  shows "findSeasonIndex arg data = Some (length data - 1)"
proof -
  have "find_index (\<lambda>d. Some (season d) = arg) data = None"
    using assms(2) by (simp add: find_index_None)
  then show ?thesis using assms(1) by (simp add: findSeasonIndex_def)
qed

lemma sorted_last_latest:
  assumes "raw \<noteq> []"
  shows "last (array_sort bySeason raw) \<in> set raw \<and>
         (\<forall>d \<in> set raw. season d \<le> season (last (array_sort bySeason raw))) \<and>
         array_sort bySeason raw \<noteq> [] \<and>
         set (array_sort bySeason raw) = set raw \<and>
         length (array_sort bySeason raw) = length raw"
proof -
  have "sort_key season raw \<noteq> []" using assms by (metis length_sort length_0_conv)
  then show ?thesis
    using last_sort_key_max [OF assms, of season] by (simp add: array_sort_bySeason)
qed

lemma renderLeagueTrends_data:
  "renderLeagueTrends nf w raw p = (Inr chart, p1) \<Longrightarrow>
   lcData chart = array_sort bySeason raw \<and> activeMetric chart = None"
  by (auto simp: renderLeagueTrends_def Let_def split: sum.splits)

lemma renderScoringMix_data:
  "renderScoringMix raw p = (Inr chart, p1) \<Longrightarrow> smData chart = array_sort bySeason raw"
  by (auto simp: renderScoringMix_def Let_def split: sum.splits)

lemma renderMomentumSpiral_data:
  "renderMomentumSpiral raw p = (Inr chart, p1) \<Longrightarrow>
   spData chart = array_sort bySeason raw \<and> raw \<noteq> []"
  by (auto simp: renderMomentumSpiral_def Let_def spiral_focusSeason_def findSeasonIndex_def
      at_index_def array_sort_def
      split: sum.splits option.splits if_splits)


text \<open>
  The fallback of \<open>focusSeason\<close>.  When the data of the chart is not empty and the season
  argument matches none of its records (null and undefined included), \<open>focusSeason\<close> of
  the league trends, scoring mix and momentum spiral charts focuses and annotates the last
  record of the sorted data, a record of the latest season.  When the data is empty, the
  fallback \<open>data[data.length - 1]\<close> is \<open>undefined\<close> and reading its \<open>season\<close> throws.
\<close>

lemma focusSeason_falls_back_to_last:
  "(renderLeagueTrends nf w leagueRaw p = (Inr lc, p1) \<and> leagueRaw \<noteq> [] \<and>
      (\<forall>d \<in> set leagueRaw. Some (season d) \<noteq> arg) \<longrightarrow>
      (\<exists>datum \<in> set leagueRaw.
          (\<forall>d \<in> set leagueRaw. season d \<le> season datum) \<and>
          datum = last (lcData lc) \<and>
          league_focusSeason nf arg lc q = Inr (focusOn nf lc datum, showTooltip nf lc datum q) \<and>
          crosshair (focusOn nf lc datum) = Some (season datum))) \<and>
   (renderScoringMix scoringRaw p = (Inr sc, p2) \<and> scoringRaw \<noteq> [] \<and>
      (\<forall>d \<in> set scoringRaw. Some (season d) \<noteq> arg) \<longrightarrow>
      (\<exists>datum \<in> set scoringRaw.
          (\<forall>d \<in> set scoringRaw. season d \<le> season datum) \<and>
          datum = last (smData sc) \<and>
          scoring_focusSeason pf arg sc q = Inr (showSeason pf datum sc q) \<and>
          focusLine (fst (showSeason pf datum sc q)) = Some (season datum))) \<and>
   (renderMomentumSpiral spiralRaw p = (Inr sp, p3) \<and>
      (\<forall>d \<in> set spiralRaw. Some (season d) \<noteq> arg) \<longrightarrow>
      (\<exists>datum \<in> set spiralRaw.
          (\<forall>d \<in> set spiralRaw. season d \<le> season datum) \<and>
          datum = last (spData sp) \<and>
          spiral_focusSeason arg sp =
            Inr (sp\<lparr>focusIndex := Some (length (spData sp) - 1),
                    spiralLabel := showInt (season datum) @ '' momentum wave''\<rparr>))) \<and>
   (renderLeagueTrends nf w [] p = (Inr lc, p1) \<longrightarrow>
      league_focusSeason nf arg lc q = Inl TypeError) \<and>
   (renderScoringMix [] p = (Inr sc, p2) \<longrightarrow>
      scoring_focusSeason pf arg sc q = Inl TypeError)"
proof (intro conjI impI)
  assume a: "renderLeagueTrends nf w leagueRaw p = (Inr lc, p1) \<and> leagueRaw \<noteq> [] \<and>
      (\<forall>d \<in> set leagueRaw. Some (season d) \<noteq> arg)"
  then have d: "lcData lc = array_sort bySeason leagueRaw"
    using renderLeagueTrends_data by blast
  note srt = sorted_last_latest [of leagueRaw]
  have "findSeason arg (lcData lc) = Some (last (lcData lc))"
    using a srt by (intro findSeason_fallback) (simp_all add: d)
  then have "league_focusSeason nf arg lc q =
      Inr (focusOn nf lc (last (lcData lc)), showTooltip nf lc (last (lcData lc)) q)"
    by (simp add: league_focusSeason_def)
  moreover have "crosshair (focusOn nf lc (last (lcData lc))) = Some (season (last (lcData lc)))"
    by (simp add: focusOn_def)
  ultimately show "\<exists>datum \<in> set leagueRaw.
          (\<forall>d \<in> set leagueRaw. season d \<le> season datum) \<and>
          datum = last (lcData lc) \<and>
          league_focusSeason nf arg lc q = Inr (focusOn nf lc datum, showTooltip nf lc datum q) \<and>
          crosshair (focusOn nf lc datum) = Some (season datum)"
    using a srt by (intro bexI [of _ "last (lcData lc)"]) (simp_all add: d)
next
  assume a: "renderScoringMix scoringRaw p = (Inr sc, p2) \<and> scoringRaw \<noteq> [] \<and>
      (\<forall>d \<in> set scoringRaw. Some (season d) \<noteq> arg)"
  then have d: "smData sc = array_sort bySeason scoringRaw"
    using renderScoringMix_data by blast
  note srt = sorted_last_latest [of scoringRaw]
  have "findSeason arg (smData sc) = Some (last (smData sc))"
    using a srt by (intro findSeason_fallback) (simp_all add: d)
  then have "scoring_focusSeason pf arg sc q = Inr (showSeason pf (last (smData sc)) sc q)"
    by (simp add: scoring_focusSeason_def)
  moreover have "focusLine (fst (showSeason pf (last (smData sc)) sc q))
                   = Some (season (last (smData sc)))"
    by (simp add: showSeason_def)
  ultimately show "\<exists>datum \<in> set scoringRaw.
          (\<forall>d \<in> set scoringRaw. season d \<le> season datum) \<and>
          datum = last (smData sc) \<and>
          scoring_focusSeason pf arg sc q = Inr (showSeason pf datum sc q) \<and>
          focusLine (fst (showSeason pf datum sc q)) = Some (season datum)"
    using a srt by (intro bexI [of _ "last (smData sc)"]) (simp_all add: d)
next
  assume a: "renderMomentumSpiral spiralRaw p = (Inr sp, p3) \<and>
      (\<forall>d \<in> set spiralRaw. Some (season d) \<noteq> arg)"
  then have d: "spData sp = array_sort bySeason spiralRaw" and ne: "spiralRaw \<noteq> []"
    using renderMomentumSpiral_data by blast+
  note srt = sorted_last_latest [OF ne]
  have ne': "spData sp \<noteq> []" using srt by (simp add: d)
  have "findSeasonIndex arg (spData sp) = Some (length (spData sp) - 1)"
    using a srt by (intro findSeasonIndex_fallback) (simp_all add: d)
  then have "spiral_focusSeason arg sp =
      Inr (sp\<lparr>focusIndex := Some (length (spData sp) - 1),
              spiralLabel := showInt (season (last (spData sp))) @ '' momentum wave''\<rparr>)"
    using ne' by (simp add: spiral_focusSeason_def last_conv_nth)
  then show "\<exists>datum \<in> set spiralRaw.
          (\<forall>d \<in> set spiralRaw. season d \<le> season datum) \<and>
          datum = last (spData sp) \<and>
          spiral_focusSeason arg sp =
            Inr (sp\<lparr>focusIndex := Some (length (spData sp) - 1),
                    spiralLabel := showInt (season datum) @ '' momentum wave''\<rparr>)"
    using srt by (intro bexI [of _ "last (spData sp)"]) (simp_all add: d)
next
  assume "renderLeagueTrends nf w [] p = (Inr lc, p1)"
  then have "lcData lc = []"
    using renderLeagueTrends_data by (fastforce simp: array_sort_def)
  then show "league_focusSeason nf arg lc q = Inl TypeError"
    by (simp add: league_focusSeason_def findSeason_empty)
next
  assume "renderScoringMix [] p = (Inr sc, p2)"
  then have "smData sc = []"
    using renderScoringMix_data by (fastforce simp: array_sort_def)
  then show "scoring_focusSeason pf arg sc q = Inl TypeError"
    by (simp add: scoring_focusSeason_def findSeason_empty)
qed


lemma focusSeason_falls_back_to_last_example:
  "league_focusSeason sampleFmt None
     \<lparr>lcData = [season2019, season2020], lcInnerWidth = 860, activeMetric = None,
      crosshair = None, focusDatum = None, visibleDots = [],
      legendButtons = [''avgThreeAttempts'', ''avgPoints'', ''avgThreeRate'']\<rparr>
     (startApp dashboardAnchors)
   = Inr (focusOn sampleFmt
            \<lparr>lcData = [season2019, season2020], lcInnerWidth = 860, activeMetric = None,
             crosshair = None, focusDatum = None, visibleDots = [],
             legendButtons = [''avgThreeAttempts'', ''avgPoints'', ''avgThreeRate'']\<rparr>
            season2020,
          showTooltip sampleFmt
            \<lparr>lcData = [season2019, season2020], lcInnerWidth = 860, activeMetric = None,
             crosshair = None, focusDatum = None, visibleDots = [],
             legendButtons = [''avgThreeAttempts'', ''avgPoints'', ''avgThreeRate'']\<rparr>
            season2020 (startApp dashboardAnchors)) \<and>
   scoring_focusSeason sampleFmt (Some 1999) \<lparr>smData = [mix2019, mix2020], focusLine = None\<rparr>
     (startApp dashboardAnchors)
   = Inr (showSeason sampleFmt mix2020 \<lparr>smData = [mix2019, mix2020], focusLine = None\<rparr>
            (startApp dashboardAnchors)) \<and>
   spiral_focusSeason (Some 1999)
     \<lparr>spData = [wave2019, wave2020], focusIndex = Some 0,
      spiralLabel = ''2019 momentum wave''\<rparr>
   = Inr \<lparr>spData = [wave2019, wave2020], focusIndex = Some 1,
          spiralLabel = ''2020 momentum wave''\<rparr>"
proof -
  let ?a = "startApp dashboardAnchors"
  let ?lc = "\<lparr>lcData = [season2019, season2020], lcInnerWidth = 860, activeMetric = None,
      crosshair = None, focusDatum = None, visibleDots = [],
      legendButtons = [''avgThreeAttempts'', ''avgPoints'', ''avgThreeRate'']\<rparr>"
  let ?sc = "\<lparr>smData = [mix2019, mix2020], focusLine = None\<rparr>"
  let ?sp = "\<lparr>spData = [wave2019, wave2020], focusIndex = Some 0,
      spiralLabel = ''2019 momentum wave''\<rparr>"
  have r1: "renderLeagueTrends sampleFmt 960 [season2020, season2019] ?a
              = (Inr ?lc, ?a\<lparr>drawings := [''leagueTrendChart'']\<rparr>)"
    by (simp add: renderLeagueTrends_def clearContainer_def appendSvg_def startApp_def
        dashboardAnchors_def array_sort_def bySeason_def season2019_def season2020_def
        innerWidthOf_def metricConfig_def)
  have r2: "renderScoringMix [mix2020, mix2019] ?a
              = (Inr ?sc, ?a\<lparr>drawings := [''scoringMixChart'']\<rparr>)"
    by (simp add: renderScoringMix_def clearContainer_def appendSvg_def startApp_def
        dashboardAnchors_def array_sort_def bySeason_def mix2019_def mix2020_def)
  have r3: "renderMomentumSpiral [wave2020, wave2019] ?a
              = (Inr ?sp, ?a\<lparr>drawings := [''momentumSpiral'']\<rparr>)"
    by (simp add: renderMomentumSpiral_def clearContainer_def appendSvg_def startApp_def
        dashboardAnchors_def array_sort_def bySeason_def wave2019_def wave2020_def
        spiral_focusSeason_def findSeasonIndex_def at_index_def showInt_def showNat.simps)
  have h1: "renderLeagueTrends sampleFmt 960 [season2020, season2019] ?a
              = (Inr ?lc, ?a\<lparr>drawings := [''leagueTrendChart'']\<rparr>) \<and>
            [season2020, season2019] \<noteq> [] \<and>
            (\<forall>d \<in> set [season2020, season2019]. Some (season d) \<noteq> None)"
    using r1 by simp
  have h2: "renderScoringMix [mix2020, mix2019] ?a
              = (Inr ?sc, ?a\<lparr>drawings := [''scoringMixChart'']\<rparr>) \<and>
            [mix2020, mix2019] \<noteq> [] \<and>
            (\<forall>d \<in> set [mix2020, mix2019]. Some (season d) \<noteq> Some 1999)"
    using r2 by (simp add: mix2019_def mix2020_def)
  have h3: "renderMomentumSpiral [wave2020, wave2019] ?a
              = (Inr ?sp, ?a\<lparr>drawings := [''momentumSpiral'']\<rparr>) \<and>
            (\<forall>d \<in> set [wave2020, wave2019]. Some (season d) \<noteq> Some 1999)"
    using r3 by (simp add: wave2019_def wave2020_def)
  have c1: "league_focusSeason sampleFmt None ?lc ?a
              = Inr (focusOn sampleFmt ?lc season2020, showTooltip sampleFmt ?lc season2020 ?a)"
  proof -
    from focusSeason_falls_back_to_last
           [where q = ?a and arg = None, THEN conjunct1, rule_format, OF h1]
    obtain datum where "datum = last (lcData ?lc)"
      and "league_focusSeason sampleFmt None ?lc ?a
             = Inr (focusOn sampleFmt ?lc datum, showTooltip sampleFmt ?lc datum ?a)"
      by blast
    then show ?thesis by simp
  qed
  have c2: "scoring_focusSeason sampleFmt (Some 1999) ?sc ?a
              = Inr (showSeason sampleFmt mix2020 ?sc ?a)"
  proof -
    from focusSeason_falls_back_to_last
           [where q = ?a and arg = "Some 1999" and pf = sampleFmt,
            THEN conjunct2, THEN conjunct1, rule_format, OF h2]
    obtain datum where "datum = last (smData ?sc)"
      and "scoring_focusSeason sampleFmt (Some 1999) ?sc ?a = Inr (showSeason sampleFmt datum ?sc ?a)"
      by blast
    then show ?thesis by simp
  qed
  have c3: "spiral_focusSeason (Some 1999) ?sp
              = Inr (?sp\<lparr>focusIndex := Some 1, spiralLabel := ''2020 momentum wave''\<rparr>)"
  proof -
    from focusSeason_falls_back_to_last
           [where arg = "Some 1999",
            THEN conjunct2, THEN conjunct2, THEN conjunct1, rule_format, OF h3]
    obtain datum where "datum = last (spData ?sp)"
      and "spiral_focusSeason (Some 1999) ?sp
             = Inr (?sp\<lparr>focusIndex := Some (length (spData ?sp) - 1),
                      spiralLabel := showInt (season datum) @ '' momentum wave''\<rparr>)"
      by blast
    then show ?thesis by (simp add: wave2020_def showInt_def showNat.simps)
  qed
  show ?thesis using c1 c2 c3 by simp
qed


text \<open>
  C9.  The claim does not hold of the code on an empty dataset.  The league trends and
  scoring mix charts render from an empty array, and their \<open>focusSeason\<close> then throws a
  TypeError for every season argument instead of returning; the momentum spiral renderer,
  which calls its \<open>focusSeason\<close> itself, throws while rendering.  The pointer handler of the
  same chart returns without a change on the same empty data: it checks the datum it
  found, the check \<open>focusSeason\<close> lacks.
\<close>

theorem focusSeason_empty_data_throws:
  "renderScoringMix [] (startApp dashboardAnchors)
     = (Inr \<lparr>smData = [], focusLine = None\<rparr>,
        (startApp dashboardAnchors)\<lparr>drawings := [''scoringMixChart'']\<rparr>) \<and>
   scoring_focusSeason sampleFmt (Some 2020) \<lparr>smData = [], focusLine = None\<rparr>
     ((startApp dashboardAnchors)\<lparr>drawings := [''scoringMixChart'']\<rparr>) = Inl TypeError \<and>
   fst (renderLeagueTrends sampleFmt 960 [] (startApp dashboardAnchors))
     = Inr \<lparr>lcData = [], lcInnerWidth = 860, activeMetric = None,
            crosshair = None, focusDatum = None, visibleDots = [],
            legendButtons = [''avgThreeAttempts'', ''avgPoints'', ''avgThreeRate'']\<rparr> \<and>
   league_focusSeason sampleFmt None
     \<lparr>lcData = [], lcInnerWidth = 860, activeMetric = None,
      crosshair = None, focusDatum = None, visibleDots = [],
      legendButtons = [''avgThreeAttempts'', ''avgPoints'', ''avgThreeRate'']\<rparr>
     (startApp dashboardAnchors) = Inl TypeError \<and>
   fst (renderMomentumSpiral [] (startApp dashboardAnchors)) = Inl TypeError \<and>
   pointerMove sampleFmt 430
     \<lparr>lcData = [], lcInnerWidth = 860, activeMetric = None,
      crosshair = None, focusDatum = None, visibleDots = [],
      legendButtons = [''avgThreeAttempts'', ''avgPoints'', ''avgThreeRate'']\<rparr>
     (startApp dashboardAnchors)
   = (\<lparr>lcData = [], lcInnerWidth = 860, activeMetric = None,
       crosshair = None, focusDatum = None, visibleDots = [],
       legendButtons = [''avgThreeAttempts'', ''avgPoints'', ''avgThreeRate'']\<rparr>,
      startApp dashboardAnchors)"
  by (simp add: renderScoringMix_def renderLeagueTrends_def renderMomentumSpiral_def
      clearContainer_def appendSvg_def startApp_def dashboardAnchors_def array_sort_def
      scoring_focusSeason_def league_focusSeason_def spiral_focusSeason_def findSeason_empty
      findSeasonIndex_def at_index_def innerWidthOf_def metricConfig_def pointerMove_def
      bisect_center_def bisect_left.simps)

section \<open>Metric filter and tooltip\<close>

lemma tooltipRows_avgPoints:
  \<open>tooltipRows nf (Some ''avgPoints'') datum =
     ''<span style="color:#60d2ff">Points per team game:</span> '' @ nf (Num (avgPoints datum))
       @ '' pts''\<close>
  by (simp add: tooltipRows_def metricConfig_def tooltipRow_def)

lemma find_season_exists:
  assumes "i < length data"
  shows "\<exists>datum. find (\<lambda>d. season d = season (data ! i)) data = Some datum \<and>
                 season datum = season (data ! i)"
proof -
  have "\<exists>x \<in> set data. season x = season (data ! i)" using assms by auto
  then obtain datum where f: "find (\<lambda>d. season d = season (data ! i)) data = Some datum"
    by (cases "find (\<lambda>d. season d = season (data ! i)) data") (auto simp: find_None_iff)
  then have "season datum = season (data ! i)" by (auto simp: find_Some_iff)
  with f show ?thesis by blast
qed

text \<open>
  C6.  For a league trends dataset with at least two records, \<open>setMetric("avgPoints")\<close>
  followed by \<open>focusSeason\<close> of the second season of the rendered chart returns without an
  error; the tooltip is then shown with the season as its heading and the avgPoints row
  as its only row, and the avgPoints dot is the only visible focus dot.
\<close>

theorem setMetric_focusSeason_tooltip:
  assumes \<open>renderLeagueTrends nf w rawData p = (Inr chart, p1)\<close> and \<open>1 < length rawData\<close>
  shows \<open>\<exists>datum chart' p2.
           find (\<lambda>d. season d = season (lcData chart ! 1)) (lcData chart) = Some datum \<and>
           league_focusSeason nf (Some (season (lcData chart ! 1)))
               (setMetric (Some ''avgPoints'') chart) p1 = Inr (chart', p2) \<and>
           shown (tip p2) \<and>
           html (tip p2) =
             ''<strong>'' @ showInt (season (lcData chart ! 1)) @ ''</strong><br>''
               @ ''<span style="color:#60d2ff">Points per team game:</span> ''
               @ nf (Num (avgPoints datum)) @ '' pts'' \<and>
           visibleDots chart' = [''avgPoints''] \<and>
           crosshair chart' = Some (season (lcData chart ! 1))\<close>
proof -
  let ?data = "lcData chart"
  let ?s = "season (?data ! 1)"
  let ?c = "setMetric (Some ''avgPoints'') chart"
  have d: "?data = array_sort bySeason rawData"
    using renderLeagueTrends_data [OF assms(1)] by simp
  have len: "1 < length ?data" using assms(2) by (simp add: d array_sort_bySeason)
  from find_season_exists [OF len] obtain datum
    where f: "find (\<lambda>d. season d = ?s) ?data = Some datum" and sd: "season datum = ?s"
    by blast
  have fs: "findSeason (Some ?s) (lcData ?c) = Some datum"
    using f by (simp add: findSeason_def setMetric_def)
  have call: "league_focusSeason nf (Some ?s) ?c p1
                = Inr (focusOn nf ?c datum, showTooltip nf ?c datum p1)"
    using fs by (simp add: league_focusSeason_def)
  have h: "html (tip (showTooltip nf ?c datum p1)) =
             ''<strong>'' @ showInt ?s @ ''</strong><br>''
               @ ''<span style=\"color:#60d2ff\">Points per team game:</span> ''
               @ nf (Num (avgPoints datum)) @ '' pts''"
    by (simp add: showTooltip_def setMetric_def tooltipRows_avgPoints sd)
  have sh: "shown (tip (showTooltip nf ?c datum p1))" by (simp add: showTooltip_def)
  have v: "visibleDots (focusOn nf ?c datum) = [''avgPoints'']"
    by (simp add: focusOn_def setMetric_def metricConfig_def)
  have cr: "crosshair (focusOn nf ?c datum) = Some ?s" by (simp add: focusOn_def sd)
  show ?thesis using f call h sh v cr by blast
qed


theorem setMetric_focusSeason_tooltip_witness:
  \<open>\<exists>chart' p2.
     league_focusSeason sampleFmt (Some 2020)
       (setMetric (Some ''avgPoints'')
          \<lparr>lcData = [season2019, season2020], lcInnerWidth = 860, activeMetric = None,
           crosshair = None, focusDatum = None, visibleDots = [],
           legendButtons = [''avgThreeAttempts'', ''avgPoints'', ''avgThreeRate'']\<rparr>)
       ((startApp dashboardAnchors)\<lparr>drawings := [''leagueTrendChart'']\<rparr>)
       = Inr (chart', p2) \<and>
     html (tip p2) =
       ''<strong>2020</strong><br><span style="color:#60d2ff">Points per team game:</span> ''
         @ sampleFmt (Num 112) @ '' pts''\<close>
proof -
  let ?a = "startApp dashboardAnchors"
  let ?lc = "\<lparr>lcData = [season2019, season2020], lcInnerWidth = 860, activeMetric = None,
      crosshair = None, focusDatum = None, visibleDots = [],
      legendButtons = [''avgThreeAttempts'', ''avgPoints'', ''avgThreeRate'']\<rparr>"
  have r: "renderLeagueTrends sampleFmt 960 [season2020, season2019] ?a
              = (Inr ?lc, ?a\<lparr>drawings := [''leagueTrendChart'']\<rparr>)"
    by (simp add: renderLeagueTrends_def clearContainer_def appendSvg_def startApp_def
        dashboardAnchors_def array_sort_def bySeason_def season2019_def season2020_def
        innerWidthOf_def metricConfig_def)
  have l: "1 < length [season2020, season2019]" by simp
  have s: "season (lcData ?lc ! 1) = 2020" by (simp add: season2020_def)
  from setMetric_focusSeason_tooltip [OF r l]
  obtain datum chart' p2 where
    f: "find (\<lambda>d. season d = season (lcData ?lc ! 1)) (lcData ?lc) = Some datum" and
    c: "league_focusSeason sampleFmt (Some (season (lcData ?lc ! 1)))
          (setMetric (Some ''avgPoints'') ?lc) (?a\<lparr>drawings := [''leagueTrendChart'']\<rparr>)
          = Inr (chart', p2)" and
    h: "html (tip p2) =
          ''<strong>'' @ showInt (season (lcData ?lc ! 1)) @ ''</strong><br>''
            @ ''<span style=\"color:#60d2ff\">Points per team game:</span> ''
            @ sampleFmt (Num (avgPoints datum)) @ '' pts''"
    by blast
  have "datum = season2020" using f by (simp add: season2019_def season2020_def)
  then have "avgPoints datum = 112" by (simp add: season2020_def)
  then have "html (tip p2) =
       ''<strong>2020</strong><br><span style=\"color:#60d2ff\">Points per team game:</span> ''
         @ sampleFmt (Num 112) @ '' pts''"
    using h unfolding s by (simp add: showInt_def showNat.simps)
  with c show ?thesis unfolding s by blast
qed


section \<open>Properties of the keyed join\<close>

lemma firstIndex_Cons:
  "firstIndex (z # l) x = (if z = x then 0 else Suc (firstIndex l x))"
  by (simp add: firstIndex_def)

lemma firstIndex_less_iff:
  assumes "x \<noteq> y"
  shows "firstIndex l x < firstIndex l y \<longleftrightarrow>
         (case filter (\<lambda>z. z = x \<or> z = y) l of [] \<Rightarrow> False | z # _ \<Rightarrow> z = x)"
  using assms by (induction l) (auto simp: firstIndex_Cons firstIndex_def)

lemma firstIndex_less_trans:
  "firstIndex l x < firstIndex l y \<Longrightarrow> firstIndex l y < firstIndex l z \<Longrightarrow>
   firstIndex l x < firstIndex l z"
  by simp

lemma filter_movedIds_other:
  assumes "x \<noteq> a" "y \<noteq> a"
  shows "filter (\<lambda>z. z = x \<or> z = y) (movedIds a b ids) = filter (\<lambda>z. z = x \<or> z = y) ids"
proof -
  let ?P = "\<lambda>z. z = x \<or> z = y"
  let ?r = "filter (\<lambda>i. i \<noteq> a) ids"
  have skip: "filter ?P (u @ a # v) = filter ?P (u @ v)" for u v
    using assms by simp
  have "filter ?P (movedIds a b ids)
        = filter ?P (takeWhile (\<lambda>i. i \<noteq> b) ?r @ dropWhile (\<lambda>i. i \<noteq> b) ?r)"
    unfolding movedIds_def by (rule skip)
  also have "\<dots> = filter ?P ?r" by (simp only: takeWhile_dropWhile_id)
  also have "\<dots> = filter ?P ids"
    using assms by (induction ids) auto
  finally show ?thesis .
qed

lemma movedIds_other:
  assumes "x \<noteq> a" "y \<noteq> a" "x \<noteq> y"
  shows "firstIndex (movedIds a b ids) x < firstIndex (movedIds a b ids) y \<longleftrightarrow>
         firstIndex ids x < firstIndex ids y"
  using assms by (simp add: firstIndex_less_iff filter_movedIds_other)

lemma movedIds_front:
  assumes "a \<noteq> b" "b \<in> set ids"
  shows "firstIndex (movedIds a b ids) a < firstIndex (movedIds a b ids) b"
proof -
  let ?r = "filter (\<lambda>i. i \<noteq> a) ids"
  have "filter (\<lambda>z. z = a \<or> z = b) (takeWhile (\<lambda>i. i \<noteq> b) ?r) = []"
    by (auto simp: filter_empty_conv dest: set_takeWhileD)
  then show ?thesis using assms
    by (simp add: firstIndex_less_iff movedIds_def)
qed


lemma ids_removeNode: "map nodeId (removeNode i doc) = filter (\<lambda>j. j \<noteq> i) (map nodeId doc)"
  by (simp add: removeNode_def filter_map comp_def)

lemma ids_insertBefore:
  "map nodeId (insertBefore n (Some b) doc) = movedIds (nodeId n) b (map nodeId doc)"
  by (simp add: insertBefore_def Let_def movedIds_def ids_removeNode [symmetric]
      takeWhile_map dropWhile_map comp_def)

lemma mset_insertBefore:
  "mset (insertBefore n nx doc) = mset (removeNode (nodeId n) doc) + {#n#}"
proof (cases nx)
  case None
  then show ?thesis by (simp add: insertBefore_def)
next
  case (Some b)
  let ?r = "removeNode (nodeId n) doc"
  have "mset (takeWhile (\<lambda>m. nodeId m \<noteq> b) ?r) + mset (dropWhile (\<lambda>m. nodeId m \<noteq> b) ?r)
          = mset ?r"
    by (metis mset_append takeWhile_dropWhile_id)
  then show ?thesis using Some by (simp add: insertBefore_def Let_def)
qed

lemma filter_key_singleton:
  "distinct (map f xs) \<Longrightarrow> x \<in> set xs \<Longrightarrow> filter (\<lambda>y. f y = f x) xs = [x]"
proof (induction xs)
  case Nil
  then show ?case by simp
next
  case (Cons z zs)
  show ?case
  proof (cases "z = x")
    case True
    have "f x \<notin> f ` set zs" using Cons.prems(1) True by simp
    then have "filter (\<lambda>y. f y = f x) zs = []"
      by (auto simp: filter_empty_conv image_iff)
    then show ?thesis using True by simp
  next
    case False
    then have "x \<in> set zs" using Cons.prems(2) by simp
    moreover have "f z \<noteq> f x" using Cons.prems(1) \<open>x \<in> set zs\<close> by auto
    ultimately show ?thesis using Cons by simp
  qed
qed

lemma find_by_id:
  assumes "distinct (map nodeId doc)" "a \<in> nodeId ` set doc"
  shows "\<exists>n \<in> set doc. nodeId n = a \<and> find (\<lambda>m. nodeId m = a) doc = Some n"
proof -
  obtain n where f: "find (\<lambda>m. nodeId m = a) doc = Some n"
    using assms(2) by (cases "find (\<lambda>m. nodeId m = a) doc") (auto simp: find_None_iff)
  then have "n \<in> set doc \<and> nodeId n = a"
    by (auto simp: find_Some_iff)
  with f show ?thesis by blast
qed

lemma mset_removeNode:
  assumes "distinct (map nodeId doc)" "n \<in> set doc"
  shows "mset (removeNode (nodeId n) doc) + {#n#} = mset doc"
proof -
  have "mset doc = mset (filter (\<lambda>m. nodeId m = nodeId n) doc)
                   + mset (filter (\<lambda>m. \<not> nodeId m = nodeId n) doc)"
    using multiset_partition [of "mset doc" "\<lambda>m. nodeId m = nodeId n"] by simp
  then show ?thesis
    using filter_key_singleton [OF assms] by (simp add: removeNode_def)
qed

lemma moveBefore_props:
  assumes "distinct (map nodeId doc)" "a \<in> nodeId ` set doc"
  shows "mset (moveBefore a b doc) = mset doc"
    and "map nodeId (moveBefore a b doc) = movedIds a b (map nodeId doc)"
proof -
  from find_by_id [OF assms] obtain n
    where n: "n \<in> set doc" "nodeId n = a" "find (\<lambda>m. nodeId m = a) doc = Some n"
    by blast
  show "mset (moveBefore a b doc) = mset doc"
    using n mset_removeNode [OF assms(1) n(1)] by (simp add: moveBefore_def mset_insertBefore)
  show "map nodeId (moveBefore a b doc) = movedIds a b (map nodeId doc)"
    using n by (simp add: moveBefore_def ids_insertBefore)
qed


lemma precedes_irrefl: "\<not> precedes a a doc"
  by (simp add: precedes_def)

lemma precedes_trans: "precedes a b doc \<Longrightarrow> precedes b c doc \<Longrightarrow> precedes a c doc"
  by (simp add: precedes_def)

lemma precedes_moveBefore_other:
  assumes "distinct (map nodeId doc)" "a \<in> nodeId ` set doc" "x \<noteq> a" "y \<noteq> a"
  shows "precedes x y (moveBefore a b doc) \<longleftrightarrow> precedes x y doc"
proof (cases "x = y")
  case True
  then show ?thesis by (simp add: precedes_irrefl)
next
  case False
  then show ?thesis
    using assms by (simp add: precedes_def moveBefore_props(2) movedIds_other)
qed

lemma precedes_moveBefore_front:
  assumes "distinct (map nodeId doc)" "a \<in> nodeId ` set doc" "b \<in> nodeId ` set doc" "a \<noteq> b"
  shows "precedes a b (moveBefore a b doc)"
  using assms by (simp add: precedes_def moveBefore_props(2) movedIds_front)

lemma mset_map_cong_ids: "mset xs = mset ys \<Longrightarrow> mset (map f xs) = mset (map f ys)"
  by (metis mset_map)

lemma orderFrom_sorted:
  assumes "distinct (map nodeId doc)"
    and "distinct (rev as @ nx # dn)"
    and "set (rev as @ nx # dn) \<subseteq> nodeId ` set doc"
    and "sorted_wrt (\<lambda>u v. precedes u v doc) (nx # dn)"
  shows "sorted_wrt (\<lambda>u v. precedes u v (orderFrom as nx doc)) (rev as @ nx # dn) \<and>
         mset (orderFrom as nx doc) = mset doc"
  using assms
proof (induction as arbitrary: nx dn doc)
  case Nil
  then show ?case by simp
next
  case (Cons a as)
  let ?doc = "if precedes a nx doc then doc else moveBefore a nx doc"
  have a_in: "a \<in> nodeId ` set doc" and nx_in: "nx \<in> nodeId ` set doc"
    using Cons.prems(3) by auto
  have a_new: "a \<noteq> nx" "a \<notin> set dn" using Cons.prems(2) by auto
  have ms: "mset ?doc = mset doc"
  proof (cases "precedes a nx doc")
    case True
    then show ?thesis by simp
  next
    case False
    then show ?thesis using moveBefore_props(1) [OF Cons.prems(1) a_in, of nx] by simp
  qed
  then have ids: "mset (map nodeId ?doc) = mset (map nodeId doc)" by (rule mset_map_cong_ids)
  have dist: "distinct (map nodeId ?doc)"
    using Cons.prems(1) mset_eq_imp_distinct_iff [OF ids] by simp
  have same_set: "set ?doc = set doc" using ms by (rule mset_eq_setD)
  have sub: "set (rev as @ a # nx # dn) \<subseteq> nodeId ` set ?doc"
    using Cons.prems(3) unfolding same_set by simp
  have front: "precedes a nx ?doc"
  proof (cases "precedes a nx doc")
    case True
    then show ?thesis by simp
  next
    case False
    then show ?thesis
      using precedes_moveBefore_front [OF Cons.prems(1) a_in nx_in a_new(1)] by simp
  qed
  have keep: "precedes x y ?doc"
    if "x \<in> set (nx # dn)" "y \<in> set (nx # dn)" "precedes x y doc" for x y
  proof (cases "precedes a nx doc")
    case True
    then show ?thesis using that(3) by simp
  next
    case False
    have "x \<noteq> a" "y \<noteq> a" using that(1,2) a_new by auto
    then have "precedes x y (moveBefore a nx doc)"
      using that(3) precedes_moveBefore_other [OF Cons.prems(1) a_in, of x y nx] by simp
    then show ?thesis using False by simp
  qed
  have old: "sorted_wrt (\<lambda>u v. precedes u v ?doc) (nx # dn)"
    by (rule sorted_wrt_mono_rel [OF keep Cons.prems(4)])
  have "\<forall>x \<in> set dn. precedes nx x ?doc" using old by simp
  then have "\<forall>x \<in> set dn. precedes a x ?doc"
    using front precedes_trans [of a nx ?doc] by blast
  then have srt: "sorted_wrt (\<lambda>u v. precedes u v ?doc) (a # nx # dn)"
    using old front by simp
  have d2: "distinct (rev as @ a # nx # dn)" using Cons.prems(2) by simp
  have "sorted_wrt (\<lambda>u v. precedes u v (orderFrom as a ?doc)) (rev as @ a # nx # dn) \<and>
        mset (orderFrom as a ?doc) = mset ?doc"
    by (rule Cons.IH [OF dist d2 sub srt])
  then show ?case using ms by simp
qed

lemma selectionOrder_sorted:
  assumes "distinct (map nodeId doc)" "distinct ms" "set ms \<subseteq> nodeId ` set doc"
  shows "sorted_wrt (\<lambda>u v. precedes u v (selectionOrder ms doc)) ms \<and>
         mset (selectionOrder ms doc) = mset doc"
proof (cases "rev ms")
  case Nil
  then show ?thesis by (simp add: selectionOrder_def)
next
  case (Cons l earlier)
  then have ms: "ms = rev earlier @ [l]" by (metis rev_rev_ident rev.simps(2))
  have "sorted_wrt (\<lambda>u v. precedes u v (orderFrom earlier l doc)) (rev earlier @ l # []) \<and>
        mset (orderFrom earlier l doc) = mset doc"
    using assms unfolding ms by (intro orderFrom_sorted) simp_all
  then show ?thesis using Cons by (simp add: selectionOrder_def ms)
qed

lemma orderFrom_id:
  "sorted_wrt (\<lambda>u v. precedes u v doc) (rev as @ [nx]) \<Longrightarrow> orderFrom as nx doc = doc"
proof (induction as arbitrary: nx)
  case Nil
  then show ?case by simp
next
  case (Cons a as)
  then have "precedes a nx doc" and "sorted_wrt (\<lambda>u v. precedes u v doc) (rev as @ [a])"
    by (simp_all add: sorted_wrt_append)
  then show ?case using Cons.IH by simp
qed

lemma selectionOrder_id:
  assumes "sorted_wrt (\<lambda>u v. precedes u v doc) ms"
  shows "selectionOrder ms doc = doc"
proof (cases "rev ms")
  case Nil
  then show ?thesis by (simp add: selectionOrder_def)
next
  case (Cons l earlier)
  then have ms: "ms = rev earlier @ [l]" by (metis rev_rev_ident rev.simps(2))
  then show ?thesis using assms Cons orderFrom_id by (simp add: selectionOrder_def)
qed


lemma fst_bindData: "map fst (bindData nodes used ds) = ds"
  by (induction ds arbitrary: used) (auto split: option.splits)

lemma bindData_distinct:
  assumes "distinct (map teamId ds)" "set used \<inter> teamId ` set ds = {}"
  shows "bindData nodes used ds
         = map (\<lambda>d. (d, map_option nodeId (nodeByKey nodes (teamId d)))) ds"
  using assms
proof (induction ds arbitrary: used)
  case Nil
  then show ?case by simp
next
  case (Cons d ds)
  have notused: "teamId d \<notin> set used" using Cons.prems(2) by auto
  have d1: "distinct (map teamId ds)" using Cons.prems(1) by simp
  have u1: "set used \<inter> teamId ` set ds = {}" using Cons.prems(2) by auto
  have u2: "set (teamId d # used) \<inter> teamId ` set ds = {}"
    using Cons.prems by auto
  show ?case
    using notused Cons.IH [OF d1 u1] Cons.IH [OF d1 u2]
    by (simp split: option.splits)
qed

lemma nodeByKey_Some:
  "nodeByKey nodes k = Some n \<Longrightarrow> n \<in> set nodes \<and> keyOf n = k"
  by (auto simp: nodeByKey_def find_Some_iff)

lemma nodeByKey_unique:
  assumes "distinct (map keyOf nodes)" "n \<in> set nodes"
  shows "nodeByKey nodes (keyOf n) = Some n"
proof -
  obtain m where m: "nodeByKey nodes (keyOf n) = Some m"
    using assms(2) by (cases "nodeByKey nodes (keyOf n)") (auto simp: nodeByKey_def find_None_iff)
  then have "m \<in> set nodes" "keyOf m = keyOf n" using nodeByKey_Some by blast+
  then have "m = n" using assms by (meson distinct_map inj_onD)
  with m show ?thesis by simp
qed

lemma joinNodes_props:
  assumes "joinNodes chart fresh bs doc = (ms, doc', fresh')"
    and "distinct (map nodeId doc)"
    and "\<forall>m \<in> set doc. nodeId m < fresh"
    and "distinct (updateIds bs)"
    and "set (updateIds bs) \<subseteq> nodeId ` set doc"
  shows "length ms = length bs \<and>
         mset doc' = mset (filter (\<lambda>m. nodeId m \<notin> set (updateIds bs)) doc)
                     + mset (map2 (placed chart) ms (map fst bs)) \<and>
         set (updateIds bs) \<subseteq> set ms \<and>
         set ms \<subseteq> set (updateIds bs) \<union> {fresh..<fresh'} \<and>
         distinct ms \<and> fresh \<le> fresh'"
  using assms
proof (induction bs arbitrary: fresh doc ms doc' fresh')
  case Nil
  then show ?case by (simp add: updateIds_def List.map_filter_simps)
next
  case (Cons b bs)
  obtain d ob where b: "b = (d, ob)" by (cases b)
  show ?case
  proof (cases ob)
    case (Some i)
    let ?doc1 = "map (\<lambda>m. if nodeId m = i then placed chart i d else m) doc"
    have upd: "updateIds (b # bs) = i # updateIds bs"
      by (simp add: b Some updateIds_def List.map_filter_simps)
    obtain ms1 doc2 fresh2 where r: "joinNodes chart fresh bs ?doc1 = (ms1, doc2, fresh2)"
      by (cases "joinNodes chart fresh bs ?doc1")
    have res: "ms = i # ms1" "doc' = doc2" "fresh' = fresh2"
      using Cons.prems(1) r by (simp_all add: b Some)
    have ids1: "map nodeId ?doc1 = map nodeId doc"
      by (induction doc) (simp_all add: placed_def)
    have i_in: "i \<in> nodeId ` set doc" and i_new: "i \<notin> set (updateIds bs)"
      using Cons.prems(4,5) upd by auto
    have IH: "length ms1 = length bs \<and>
         mset doc2 = mset (filter (\<lambda>m. nodeId m \<notin> set (updateIds bs)) ?doc1)
                     + mset (map2 (placed chart) ms1 (map fst bs)) \<and>
         set (updateIds bs) \<subseteq> set ms1 \<and>
         set ms1 \<subseteq> set (updateIds bs) \<union> {fresh..<fresh2} \<and>
         distinct ms1 \<and> fresh \<le> fresh2"
    proof (rule Cons.IH [OF r])
      show "distinct (map nodeId ?doc1)" using Cons.prems(2) by (simp only: ids1)
      show "\<forall>m \<in> set ?doc1. nodeId m < fresh"
        using Cons.prems(3) ids1 by (metis (no_types, lifting) image_iff list.set_map)
      show "distinct (updateIds bs)" using Cons.prems(4) upd by simp
      show "set (updateIds bs) \<subseteq> nodeId ` set ?doc1"
        using Cons.prems(5) upd ids1 by (metis (no_types, lifting) list.set_map set_subset_Cons subset_trans)
    qed
    from find_by_id [OF Cons.prems(2) i_in] obtain n where n: "n \<in> set doc" "nodeId n = i"
      by blast
    have split: "mset (filter (\<lambda>m. nodeId m \<notin> set (updateIds bs)) ?doc1)
                 = mset (filter (\<lambda>m. nodeId m \<notin> set (i # updateIds bs)) doc)
                   + {#placed chart i d#}"
      using Cons.prems(2) n i_new
    proof (induction doc)
      case Nil
      then show ?case by simp
    next
      case (Cons z zs)
      show ?case
      proof (cases "nodeId z = i")
        case True
        then have "i \<notin> nodeId ` set zs" using Cons.prems(1) by simp
        then have "\<forall>m \<in> set zs. nodeId m \<noteq> i" by blast
        then have "map (\<lambda>m. if nodeId m = i then placed chart i d else m) zs = zs"
          by (intro map_idI) auto
        moreover have "filter (\<lambda>m. nodeId m \<notin> set (updateIds bs)) zs
                       = filter (\<lambda>m. nodeId m \<notin> set (i # updateIds bs)) zs"
          using \<open>\<forall>m \<in> set zs. nodeId m \<noteq> i\<close> by (intro filter_cong) auto
        ultimately show ?thesis using True Cons.prems(4) by (simp add: placed_def)
      next
        case False
        then have "n \<in> set zs" using Cons.prems(2,3) by auto
        then show ?thesis using False Cons by simp
      qed
    qed
    have lt: "i < fresh" using Cons.prems(3) n by auto
    have fb: "fst b = d" by (simp add: b)
    have inew: "i \<notin> set ms1" using IH i_new lt by auto
    have "mset doc' = mset (filter (\<lambda>m. nodeId m \<notin> set (updateIds (b # bs))) doc)
                     + mset (map2 (placed chart) ms (map fst (b # bs)))"
      using IH split by (simp add: res upd fb)
    moreover have "length ms = length (b # bs)" using IH by (simp add: res)
    moreover have "set (updateIds (b # bs)) \<subseteq> set ms" using IH by (auto simp: res upd)
    moreover have "set ms \<subseteq> set (updateIds (b # bs)) \<union> {fresh..<fresh'}"
      using IH by (auto simp: res upd)
    moreover have "distinct ms \<and> fresh \<le> fresh'" using IH inew by (simp add: res)
    ultimately show ?thesis by blast
  next
    case None
    let ?n = "placed chart fresh d"
    let ?nx = "case updateIds bs of [] \<Rightarrow> None | i # _ \<Rightarrow> Some i"
    let ?doc1 = "insertBefore ?n ?nx doc"
    have upd: "updateIds (b # bs) = updateIds bs"
      by (simp add: b None updateIds_def List.map_filter_simps)
    obtain ms1 doc2 fresh2 where r: "joinNodes chart (fresh + 1) bs ?doc1 = (ms1, doc2, fresh2)"
      by (cases "joinNodes chart (fresh + 1) bs ?doc1")
    have res: "ms = fresh # ms1" "doc' = doc2" "fresh' = fresh2"
      using Cons.prems(1) r by (simp_all add: b None)
    have nid: "nodeId ?n = fresh" by (simp add: placed_def)
    have rm: "removeNode fresh doc = doc"
      using Cons.prems(3) by (auto simp: removeNode_def filter_id_conv)
    have m1: "mset ?doc1 = mset doc + {#?n#}"
      by (simp add: mset_insertBefore nid rm)
    then have s1: "set ?doc1 = insert ?n (set doc)" by (metis mset_eq_setD set_mset_mset set_mset_add_mset_insert union_mset_add_mset_right add.right_neutral)
    have IH: "length ms1 = length bs \<and>
         mset doc2 = mset (filter (\<lambda>m. nodeId m \<notin> set (updateIds bs)) ?doc1)
                     + mset (map2 (placed chart) ms1 (map fst bs)) \<and>
         set (updateIds bs) \<subseteq> set ms1 \<and>
         set ms1 \<subseteq> set (updateIds bs) \<union> {fresh + 1..<fresh2} \<and>
         distinct ms1 \<and> fresh + 1 \<le> fresh2"
    proof (rule Cons.IH [OF r])
      have "mset (map nodeId ?doc1) = mset (map nodeId doc) + {#fresh#}"
        using m1 nid by (metis (no_types, lifting) mset_map image_mset_union image_mset_single)
      moreover have "fresh \<notin> set (map nodeId doc)" using Cons.prems(3) by auto
      ultimately show "distinct (map nodeId ?doc1)"
        using Cons.prems(2)
        by (metis distinct.simps(2) mset.simps(2) mset_eq_imp_distinct_iff union_mset_add_mset_right add.right_neutral)
      show "\<forall>m \<in> set ?doc1. nodeId m < fresh + 1"
        using Cons.prems(3) s1 nid by auto
      show "distinct (updateIds bs)" using Cons.prems(4) upd by simp
      show "set (updateIds bs) \<subseteq> nodeId ` set ?doc1"
        using Cons.prems(5) upd s1 by auto
    qed
    have fresh_new: "fresh \<notin> set (updateIds bs)"
      using Cons.prems(3,5) upd by auto
    have "mset (filter (\<lambda>m. nodeId m \<notin> set (updateIds bs)) ?doc1)
          = mset (filter (\<lambda>m. nodeId m \<notin> set (updateIds bs)) doc) + {#?n#}"
      using m1 fresh_new nid by simp
    moreover have fnew: "fresh \<notin> set ms1" using IH fresh_new by auto
    moreover have fb: "fst b = d" by (simp add: b)
    ultimately have "mset doc' = mset (filter (\<lambda>m. nodeId m \<notin> set (updateIds (b # bs))) doc)
                     + mset (map2 (placed chart) ms (map fst (b # bs)))"
      using IH by (simp add: res upd)
    moreover have "length ms = length (b # bs)" using IH by (simp add: res)
    moreover have "set (updateIds (b # bs)) \<subseteq> set ms" using IH by (auto simp: res upd)
    moreover have "set ms \<subseteq> set (updateIds (b # bs)) \<union> {fresh..<fresh'}"
      using IH by (auto simp: res upd)
    moreover have "distinct ms \<and> fresh \<le> fresh'" using IH fnew by (simp add: res)
    ultimately show ?thesis by blast
  qed
qed


lemma set_map_filter:
  "set (List.map_filter g xs) = {y. \<exists>x \<in> set xs. g x = Some y}"
  by (induction xs) (auto split: option.splits)

lemma distinct_map_filter_option:
  assumes "distinct xs"
    and "\<forall>x \<in> set xs. \<forall>y \<in> set xs. g x = g y \<and> g x \<noteq> None \<longrightarrow> x = y"
  shows "distinct (List.map_filter g xs)"
  using assms
proof (induction xs)
  case Nil
  then show ?case by (simp add: List.map_filter_simps)
next
  case (Cons x xs)
  have IH: "distinct (List.map_filter g xs)"
  proof (rule Cons.IH)
    show "distinct xs" using Cons.prems(1) by simp
    show "\<forall>x \<in> set xs. \<forall>y \<in> set xs. g x = g y \<and> g x \<noteq> None \<longrightarrow> x = y"
      using Cons.prems(2) by (meson list.set_intros(2))
  qed
  show ?case
  proof (cases "g x")
    case None
    then show ?thesis using IH by (simp add: List.map_filter_simps)
  next
    case (Some i)
    have "i \<notin> set (List.map_filter g xs)"
    proof
      assume "i \<in> set (List.map_filter g xs)"
      then obtain y where "y \<in> set xs" "g y = Some i" by (auto simp: set_map_filter)
      then have "x = y" using Cons.prems(2) Some by auto
      then show False using \<open>y \<in> set xs\<close> Cons.prems(1) by simp
    qed
    then show ?thesis using IH Some by (simp add: List.map_filter_simps)
  qed
qed

lemma updateIds_bindData:
  assumes "distinct (map teamId ds)"
  shows "updateIds (bindData nodes [] ds)
         = List.map_filter (\<lambda>d. map_option nodeId (nodeByKey nodes (teamId d))) ds"
proof -
  have "List.map_filter snd (map (\<lambda>d. (d, g d)) xs) = List.map_filter g xs" for g and xs :: "'x list"
    by (induction xs) (simp_all add: List.map_filter_simps split: option.splits)
  then show ?thesis
    using bindData_distinct [OF assms, of "[]" nodes] by (simp add: updateIds_def)
qed

lemma updateIds_props:
  assumes "distinct (map nodeId nodes)" "distinct (map teamId ds)"
  shows "distinct (updateIds (bindData nodes [] ds))"
    and "set (updateIds (bindData nodes [] ds)) \<subseteq> nodeId ` set nodes"
    and "\<forall>n \<in> set nodes. keyOf n \<in> teamId ` set ds \<and> nodeByKey nodes (keyOf n) = Some n
           \<longrightarrow> nodeId n \<in> set (updateIds (bindData nodes [] ds))"
proof -
  let ?g = "\<lambda>d. map_option nodeId (nodeByKey nodes (teamId d))"
  have inj: "\<forall>x \<in> set ds. \<forall>y \<in> set ds. ?g x = ?g y \<and> ?g x \<noteq> None \<longrightarrow> x = y"
  proof (intro ballI impI)
    fix x y
    assume x: "x \<in> set ds" and y: "y \<in> set ds" and g: "?g x = ?g y \<and> ?g x \<noteq> None"
    then obtain n where n: "nodeByKey nodes (teamId x) = Some n" by auto
    with g obtain m where m: "nodeByKey nodes (teamId y) = Some m" "nodeId m = nodeId n"
      by (cases "nodeByKey nodes (teamId y)") auto
    have "n \<in> set nodes" "m \<in> set nodes" "keyOf n = teamId x" "keyOf m = teamId y"
      using n m nodeByKey_Some by blast+
    then have "m = n" using m(2) assms(1) by (meson distinct_map inj_onD)
    then have "teamId x = teamId y"
      using \<open>keyOf n = teamId x\<close> \<open>keyOf m = teamId y\<close> by simp
    then show "x = y" using x y assms(2) by (meson distinct_map inj_onD)
  qed
  have dds: "distinct ds" using assms(2) by (simp add: distinct_map)
  show "distinct (updateIds (bindData nodes [] ds))"
    unfolding updateIds_bindData [OF assms(2)] by (rule distinct_map_filter_option [OF dds inj])
  show "set (updateIds (bindData nodes [] ds)) \<subseteq> nodeId ` set nodes"
    unfolding updateIds_bindData [OF assms(2)]
    by (auto simp: set_map_filter dest: nodeByKey_Some)
  show "\<forall>n \<in> set nodes. keyOf n \<in> teamId ` set ds \<and> nodeByKey nodes (keyOf n) = Some n
           \<longrightarrow> nodeId n \<in> set (updateIds (bindData nodes [] ds))"
    unfolding updateIds_bindData [OF assms(2)]
    by (force simp: set_map_filter)
qed


lemma ids_mark_exit:
  "map nodeId (map (\<lambda>m. if nodeId m \<in> S then m else m\<lparr>radius := 0, exiting := True\<rparr>) xs)
   = map nodeId xs"
  by (induction xs) simp_all

lemma filter_mark_exit:
  "filter (\<lambda>m. nodeId m \<notin> S)
     (map (\<lambda>m. if nodeId m \<in> S then m else m\<lparr>radius := 0, exiting := True\<rparr>) xs)
   = map (\<lambda>m. m\<lparr>radius := 0, exiting := True\<rparr>) (filter (\<lambda>m. nodeId m \<notin> S) xs)"
  by (induction xs) simp_all

lemma ids_exit_filter:
  "map nodeId (map (\<lambda>m. m\<lparr>radius := 0, exiting := True\<rparr>) (filter (\<lambda>m. nodeId m \<notin> S) xs))
   = filter (\<lambda>i. i \<notin> S) (map nodeId xs)"
  by (induction xs) simp_all

lemma joinLayer_first:
  assumes wk: "wellKeyed chart" and dk: "distinct (map teamId ds)"
  shows "\<exists>ms. length ms = length ds \<and> distinct ms \<and>
           mset (layer (joinLayer chart ds))
             = mset (map (\<lambda>m. m\<lparr>radius := 0, exiting := True\<rparr>)
                      (filter (\<lambda>m. nodeId m \<notin> set (updateIds (bindData (layer chart) [] ds)))
                         (layer chart)))
               + mset (map2 (placed chart) ms ds) \<and>
           sorted_wrt (\<lambda>u v. precedes u v (layer (joinLayer chart ds))) ms \<and>
           set (updateIds (bindData (layer chart) [] ds)) \<subseteq> set ms \<and>
           set ms \<subseteq> set (updateIds (bindData (layer chart) [] ds))
                      \<union> {nextId chart..<nextId (joinLayer chart ds)} \<and>
           nextId chart \<le> nextId (joinLayer chart ds) \<and>
           xScale (joinLayer chart ds) = xScale chart \<and>
           yScale (joinLayer chart ds) = yScale chart \<and>
           scatterData (joinLayer chart ds) = scatterData chart \<and>
           wellKeyed (joinLayer chart ds)"
proof -
  let ?bs = "bindData (layer chart) [] ds"
  let ?upd = "updateIds ?bs"
  let ?ex = "\<lambda>m. m\<lparr>radius := 0, exiting := True\<rparr>"
  let ?doc0 = "map (\<lambda>m. if nodeId m \<in> set ?upd then m else ?ex m) (layer chart)"
  obtain ms doc1 fresh where r: "joinNodes chart (nextId chart) ?bs ?doc0 = (ms, doc1, fresh)"
    by (cases "joinNodes chart (nextId chart) ?bs ?doc0")
  have jl: "joinLayer chart ds = chart\<lparr>layer := selectionOrder ms doc1, nextId := fresh\<rparr>"
    using r by (simp add: joinLayer_def Let_def)
  have di: "distinct (map nodeId (layer chart))" and lt: "\<forall>n \<in> set (layer chart). nodeId n < nextId chart"
    using wk by (simp_all add: wellKeyed_def)
  have ids0: "map nodeId ?doc0 = map nodeId (layer chart)"
    by (rule ids_mark_exit)
  have p: "length ms = length ?bs \<and>
         mset doc1 = mset (filter (\<lambda>m. nodeId m \<notin> set ?upd) ?doc0)
                     + mset (map2 (placed chart) ms (map fst ?bs)) \<and>
         set ?upd \<subseteq> set ms \<and>
         set ms \<subseteq> set ?upd \<union> {nextId chart..<fresh} \<and>
         distinct ms \<and> nextId chart \<le> fresh"
  proof (rule joinNodes_props [OF r])
    show "distinct (map nodeId ?doc0)" using di by (simp only: ids0)
    show "\<forall>m \<in> set ?doc0. nodeId m < nextId chart" using lt by auto
    show "distinct ?upd" by (rule updateIds_props(1) [OF di dk])
    show "set ?upd \<subseteq> nodeId ` set ?doc0"
      using updateIds_props(2) [OF di dk] ids0 by (metis list.set_map)
  qed
  have f0: "filter (\<lambda>m. nodeId m \<notin> set ?upd) ?doc0
            = map ?ex (filter (\<lambda>m. nodeId m \<notin> set ?upd) (layer chart))"
    by (rule filter_mark_exit)
  have len: "length ms = length ds" using p fst_bindData [of "layer chart" "[]" ds]
    by (metis length_map)
  have m1: "mset doc1 = mset (map ?ex (filter (\<lambda>m. nodeId m \<notin> set ?upd) (layer chart)))
                        + mset (map2 (placed chart) ms ds)"
    using p by (simp only: f0 fst_bindData)
  have idsms: "map nodeId (map2 (placed chart) ms ds) = ms"
    using len by (induction ms ds rule: list_induct2) (simp_all add: placed_def)
  have ids1: "mset (map nodeId doc1)
              = mset (filter (\<lambda>i. i \<notin> set ?upd) (map nodeId (layer chart))) + mset ms"
  proof -
    have "mset (map nodeId doc1)
          = mset (map nodeId (map ?ex (filter (\<lambda>m. nodeId m \<notin> set ?upd) (layer chart))
                              @ map2 (placed chart) ms ds))"
      by (rule mset_map_cong_ids) (simp add: m1)
    also have "\<dots> = mset (map nodeId (map ?ex (filter (\<lambda>m. nodeId m \<notin> set ?upd) (layer chart))))
                      + mset ms"
      by (simp only: map_append mset_append idsms)
    also have "map nodeId (map ?ex (filter (\<lambda>m. nodeId m \<notin> set ?upd) (layer chart)))
               = filter (\<lambda>i. i \<notin> set ?upd) (map nodeId (layer chart))"
      by (rule ids_exit_filter)
    finally show ?thesis .
  qed
  have disj: "set (filter (\<lambda>i. i \<notin> set ?upd) (map nodeId (layer chart))) \<inter> set ms = {}"
    using p lt by fastforce
  have d1: "distinct (map nodeId doc1)"
  proof -
    have "distinct (filter (\<lambda>i. i \<notin> set ?upd) (map nodeId (layer chart)) @ ms)"
      using di p disj by simp
    moreover have "mset (map nodeId doc1)
                   = mset (filter (\<lambda>i. i \<notin> set ?upd) (map nodeId (layer chart)) @ ms)"
      using ids1 by simp
    ultimately show ?thesis by (metis mset_eq_imp_distinct_iff)
  qed
  have sub: "set ms \<subseteq> nodeId ` set doc1"
  proof -
    have "set (map nodeId doc1)
          = set (filter (\<lambda>i. i \<notin> set ?upd) (map nodeId (layer chart)) @ ms)"
      using ids1 by (metis mset_append mset_eq_setD)
    then show ?thesis by auto
  qed
  have so: "sorted_wrt (\<lambda>u v. precedes u v (selectionOrder ms doc1)) ms \<and>
            mset (selectionOrder ms doc1) = mset doc1"
    using p by (intro selectionOrder_sorted [OF d1 _ sub]) simp
  let ?F = "filter (\<lambda>m. nodeId m \<notin> set ?upd) (layer chart)"
  have dkeys: "distinct (map keyOf (layer chart))" using wk by (simp add: wellKeyed_def)
  have msl: "mset (selectionOrder ms doc1) = mset (map ?ex ?F @ map2 (placed chart) ms ds)"
    using so m1 by simp
  have keysms: "map keyOf (map2 (placed chart) ms ds) = map teamId ds"
    using len by (induction ms ds rule: list_induct2) (simp_all add: placed_def keyOf_def)
  have keysF: "map keyOf (map ?ex ?F) = map keyOf ?F"
    by (simp add: keyOf_def)
  have kdisj: "set (map keyOf ?F) \<inter> set (map teamId ds) = {}"
  proof (rule ccontr)
    assume "set (map keyOf ?F) \<inter> set (map teamId ds) \<noteq> {}"
    then obtain n where n: "n \<in> set (layer chart)" "nodeId n \<notin> set ?upd"
      "keyOf n \<in> teamId ` set ds"
      by auto
    have "nodeByKey (layer chart) (keyOf n) = Some n"
      by (rule nodeByKey_unique [OF dkeys n(1)])
    then have "nodeId n \<in> set ?upd"
      using updateIds_props(3) [OF di dk] n(1,3) by blast
    then show False using n(2) by simp
  qed
  have wk1: "wellKeyed (joinLayer chart ds)"
  proof -
    have "mset (map nodeId (selectionOrder ms doc1)) = mset (map nodeId doc1)"
      using so by (intro mset_map_cong_ids) simp
    then have a: "distinct (map nodeId (selectionOrder ms doc1))"
      using d1 mset_eq_imp_distinct_iff by blast
    have "mset (map keyOf (selectionOrder ms doc1))
          = mset (map keyOf (map ?ex ?F @ map2 (placed chart) ms ds))"
      by (rule mset_map_cong_ids [OF msl])
    moreover have "distinct (map keyOf (map ?ex ?F @ map2 (placed chart) ms ds))"
      using dkeys dk kdisj
      by (simp only: map_append keysms keysF distinct_append) (simp add: distinct_map_filter)
    ultimately have b: "distinct (map keyOf (selectionOrder ms doc1))"
      using mset_eq_imp_distinct_iff by blast
    have "set (selectionOrder ms doc1) = set (map ?ex ?F @ map2 (placed chart) ms ds)"
      using msl by (rule mset_eq_setD)
    then have "nodeId ` set (selectionOrder ms doc1)
               = set (map nodeId (map ?ex ?F @ map2 (placed chart) ms ds))"
      by (simp only: set_map)
    also have "\<dots> = set (filter (\<lambda>i. i \<notin> set ?upd) (map nodeId (layer chart))) \<union> set ms"
      by (simp only: map_append set_append idsms ids_exit_filter)
    finally have "nodeId ` set (selectionOrder ms doc1)
                  \<subseteq> nodeId ` set (layer chart) \<union> set ms"
      by auto
    moreover have "\<forall>i \<in> nodeId ` set (layer chart) \<union> set ms. i < fresh"
      using lt p updateIds_props(2) [OF di dk] by fastforce
    ultimately have c: "\<forall>n \<in> set (selectionOrder ms doc1). nodeId n < fresh"
      by blast
    show ?thesis using a b c by (simp add: wellKeyed_def jl)
  qed
  show ?thesis
    using so m1 len p wk1 by (intro exI [of _ ms]) (simp add: jl)
qed


lemma joinNodes_all_updates:
  assumes "list_all2 (\<lambda>d i. \<forall>m \<in> set doc. nodeId m = i \<longrightarrow> m = placed chart i d) ds ms"
  shows "joinNodes chart fresh (zip ds (map Some ms)) doc = (ms, doc, fresh)"
  using assms
proof (induction ds ms rule: list_all2_induct)
  case Nil
  then show ?case by simp
next
  case (Cons d ds i ms)
  have "map (\<lambda>m. if nodeId m = i then placed chart i d else m) doc = doc"
    using Cons.hyps(1) by (intro map_idI) auto
  then show ?case using Cons.IH by simp
qed

lemma updateIds_zip:
  "length ds = length ms \<Longrightarrow> updateIds (zip ds (map Some ms)) = ms"
  by (induction ds ms rule: list_induct2) (simp_all add: updateIds_def)

lemma placed_scales:
  "xScale c = xScale chart \<Longrightarrow> yScale c = yScale chart \<Longrightarrow> placed c = placed chart"
  by (intro ext) (simp add: placed_def)

lemma datum_map2_placed:
  "length ms = length ds \<Longrightarrow> map nodeDatum (map2 (placed chart) ms ds) = ds"
  by (induction ms ds rule: list_induct2) (simp_all add: placed_def)

lemma joinLayer_again:
  assumes di: "distinct (map nodeId (layer c))"
    and dkeys: "distinct (map keyOf (layer c))"
    and dk: "distinct (map teamId ds)"
    and len: "length ms = length ds"
    and pl: "set (map2 (placed c) ms ds) \<subseteq> set (layer c)"
    and ex: "\<forall>m \<in> set (layer c). nodeId m \<notin> set ms \<longrightarrow> m\<lparr>radius := 0, exiting := True\<rparr> = m"
    and ord: "sorted_wrt (\<lambda>u v. precedes u v (layer c)) ms"
  shows "joinLayer c ds = c"
proof -
  have at: "placed c (ms ! j) (ds ! j) \<in> set (layer c)" if "j < length ds" for j
  proof -
    have "(ms ! j, ds ! j) \<in> set (zip ms ds)"
      using that len by (metis in_set_zip fst_conv snd_conv)
    then have "placed c (ms ! j) (ds ! j) \<in> set (map2 (placed c) ms ds)" by force
    then show ?thesis using pl by blast
  qed
  have g: "map_option nodeId (nodeByKey (layer c) (teamId (ds ! j))) = Some (ms ! j)"
    if "j < length ds" for j
  proof -
    have "nodeByKey (layer c) (keyOf (placed c (ms ! j) (ds ! j)))
          = Some (placed c (ms ! j) (ds ! j))"
      by (rule nodeByKey_unique [OF dkeys at [OF that]])
    then show ?thesis by (simp add: keyOf_def placed_def)
  qed
  have bs: "bindData (layer c) [] ds = zip ds (map Some ms)"
  proof (rule nth_equalityI)
    show "length (bindData (layer c) [] ds) = length (zip ds (map Some ms))"
      using len fst_bindData [of "layer c" "[]" ds] by (metis length_map length_zip min.idem)
    fix j
    assume "j < length (bindData (layer c) [] ds)"
    then have j: "j < length ds" using fst_bindData [of "layer c" "[]" ds] by (metis length_map)
    then show "bindData (layer c) [] ds ! j = zip ds (map Some ms) ! j"
      using g [OF j] len by (simp add: bindData_distinct [OF dk])
  qed
  have upd: "updateIds (bindData (layer c) [] ds) = ms"
    using len by (simp add: bs updateIds_zip)
  have doc0: "map (\<lambda>m. if nodeId m \<in> set ms then m else m\<lparr>radius := 0, exiting := True\<rparr>)
                (layer c) = layer c"
    using ex by (intro map_idI) auto
  have all: "list_all2 (\<lambda>d i. \<forall>m \<in> set (layer c). nodeId m = i \<longrightarrow> m = placed c i d) ds ms"
  proof (rule list_all2_all_nthI)
    show "length ds = length ms" using len by simp
    fix j
    assume j: "j < length ds"
    show "\<forall>m \<in> set (layer c). nodeId m = ms ! j \<longrightarrow> m = placed c (ms ! j) (ds ! j)"
    proof (intro ballI impI)
      fix m
      assume m: "m \<in> set (layer c)" "nodeId m = ms ! j"
      have "nodeId (placed c (ms ! j) (ds ! j)) = ms ! j" by (simp add: placed_def)
      then show "m = placed c (ms ! j) (ds ! j)"
        using m at [OF j] di by (metis distinct_map inj_onD)
    qed
  qed
  have jn: "joinNodes c (nextId c) (zip ds (map Some ms)) (layer c) = (ms, layer c, nextId c)"
    by (rule joinNodes_all_updates [OF all])
  have "joinLayer c ds = c\<lparr>layer := selectionOrder ms (layer c), nextId := nextId c\<rparr>"
    by (simp add: joinLayer_def Let_def upd doc0 bs [symmetric] jn [unfolded bs [symmetric]])
  then show ?thesis by (simp add: selectionOrder_id [OF ord])
qed

lemma setText_twice:
  "setText a s (setText b t (setText a s (setText b t p))) = setText a s (setText b t p)"
  by (cases "a = b") (simp_all add: setText_def split_def conj_ac)



text \<open>
  C7.  In a layer whose circles have pairwise different keys and node numbers (the layers
  the renderer produces from data with one record per team and season), a second
  \<open>updateSeason\<close> for the same season changes nothing: the chart (every circle, its bound
  record, target position and target radius, the document order, the next node number)
  and the page are exactly as the first call left them.  After the call the circles have
  pairwise different keys, and the circles that are not exiting are bound one to one to
  the records of the season, each at the targets computed from its record.
\<close>

theorem updateSeason_idempotent:
  assumes "wellKeyed chart"
    and "distinct (map teamId (filter (\<lambda>d. season d = year) (scatterData chart)))"
  shows "updateSeason nf year (fst (updateSeason nf year chart p))
                              (snd (updateSeason nf year chart p))
           = updateSeason nf year chart p \<and>
         wellKeyed (fst (updateSeason nf year chart p)) \<and>
         mset (map nodeDatum (settled (layer (fst (updateSeason nf year chart p)))))
           = mset (filter (\<lambda>d. season d = year) (scatterData chart)) \<and>
         (\<forall>n \<in> set (settled (layer (fst (updateSeason nf year chart p)))).
            n = placed chart (nodeId n) (nodeDatum n))"
proof -
  let ?ds = "filter (\<lambda>d. season d = year) (scatterData chart)"
  let ?c = "joinLayer chart ?ds"
  let ?ex = "\<lambda>m. m\<lparr>radius := 0, exiting := True\<rparr>"
  let ?F = "filter (\<lambda>m. nodeId m \<notin> set (updateIds (bindData (layer chart) [] ?ds)))
              (layer chart)"
  from joinLayer_first [OF assms] obtain ms where
    len: "length ms = length ?ds" and dms: "distinct ms" and
    m: "mset (layer ?c) = mset (map ?ex ?F) + mset (map2 (placed chart) ms ?ds)" and
    ord: "sorted_wrt (\<lambda>u v. precedes u v (layer ?c)) ms" and
    sc: "xScale ?c = xScale chart" "yScale ?c = yScale chart" "scatterData ?c = scatterData chart" and
    wk: "wellKeyed ?c"
    by blast
  have pc: "placed ?c = placed chart" by (rule placed_scales [OF sc(1,2)])
  have st: "set (layer ?c) = set (map ?ex ?F) \<union> set (map2 (placed chart) ms ?ds)"
    using m by (metis mset_append mset_eq_setD set_append)
  have idsms: "nodeId ` set (map2 (placed chart) ms ?ds) \<subseteq> set ms"
    by (auto simp: placed_def dest: set_zip_leftD)
  have again: "joinLayer ?c ?ds = ?c"
  proof (rule joinLayer_again [where ms = ms])
    show "distinct (map nodeId (layer ?c))" "distinct (map keyOf (layer ?c))"
      using wk by (simp_all add: wellKeyed_def)
    show "distinct (map teamId ?ds)" by (rule assms(2))
    show "length ms = length ?ds" by (rule len)
    show "set (map2 (placed ?c) ms ?ds) \<subseteq> set (layer ?c)" using st by (simp only: pc) blast
    show "\<forall>m \<in> set (layer ?c). nodeId m \<notin> set ms \<longrightarrow> ?ex m = m"
    proof (intro ballI impI)
      fix n
      assume "n \<in> set (layer ?c)" "nodeId n \<notin> set ms"
      then have "n \<in> set (map ?ex ?F)" using st idsms by blast
      then show "?ex n = n" by auto
    qed
    show "sorted_wrt (\<lambda>u v. precedes u v (layer ?c)) ms" by (rule ord)
  qed
  have first: "updateSeason nf year chart p
               = (?c, setText ''teamInsight'' (insightText nf ?ds)
                        (setText ''seasonLabel'' (showInt year) p))"
    by (simp add: updateSeason_def Let_def)
  have idem: "updateSeason nf year (fst (updateSeason nf year chart p))
                              (snd (updateSeason nf year chart p))
           = updateSeason nf year chart p"
    unfolding first by (simp add: updateSeason_def Let_def sc again setText_twice)
  have settled_eq: "mset (settled (layer ?c)) = mset (map2 (placed chart) ms ?ds)"
  proof -
    have a: "filter (\<lambda>n. \<not> exiting n) (map ?ex ?F) = []"
      by (simp add: filter_empty_conv)
    have b: "filter (\<lambda>n. \<not> exiting n) (map2 (placed chart) ms ?ds)
             = map2 (placed chart) ms ?ds"
      by (rule filter_True) (auto simp: placed_def)
    have "mset (layer ?c) = mset (map ?ex ?F @ map2 (placed chart) ms ?ds)"
      using m by simp
    then have "mset (filter (\<lambda>n. \<not> exiting n) (layer ?c))
               = mset (filter (\<lambda>n. \<not> exiting n) (map ?ex ?F @ map2 (placed chart) ms ?ds))"
      by (simp only: mset_filter)
    then show ?thesis by (simp only: settled_def filter_append a b append_Nil)
  qed
  have data: "map nodeDatum (map2 (placed chart) ms ?ds) = ?ds"
    by (rule datum_map2_placed [OF len])
  have bound: "mset (map nodeDatum (settled (layer ?c))) = mset ?ds"
    using mset_map_cong_ids [OF settled_eq, of nodeDatum] by (simp only: data)
  have targets: "\<forall>n \<in> set (settled (layer ?c)). n = placed chart (nodeId n) (nodeDatum n)"
  proof
    fix n
    assume "n \<in> set (settled (layer ?c))"
    then have "n \<in> set (map2 (placed chart) ms ?ds)"
      using settled_eq by (metis mset_eq_setD)
    then show "n = placed chart (nodeId n) (nodeDatum n)"
      by (auto simp: placed_def)
  qed
  show ?thesis using idem wk bound targets by (simp add: first)
qed


theorem updateSeason_idempotent_witness:
  "updateSeason sampleFmt 2020
     (fst (updateSeason sampleFmt 2020
             (fst (updateSeason sampleFmt 2019 sampleScatter (startApp dashboardAnchors)))
             (snd (updateSeason sampleFmt 2019 sampleScatter (startApp dashboardAnchors)))))
     (snd (updateSeason sampleFmt 2020
             (fst (updateSeason sampleFmt 2019 sampleScatter (startApp dashboardAnchors)))
             (snd (updateSeason sampleFmt 2019 sampleScatter (startApp dashboardAnchors)))))
   = updateSeason sampleFmt 2020
       (fst (updateSeason sampleFmt 2019 sampleScatter (startApp dashboardAnchors)))
       (snd (updateSeason sampleFmt 2019 sampleScatter (startApp dashboardAnchors))) \<and>
   map (\<lambda>n. (nodeId n, nodeDatum n, exiting n))
     (layer (fst (updateSeason sampleFmt 2020
       (fst (updateSeason sampleFmt 2019 sampleScatter (startApp dashboardAnchors)))
       (snd (updateSeason sampleFmt 2019 sampleScatter (startApp dashboardAnchors))))))
   = [(0, hawks2019, True), (1, celtics2020, False), (2, nuggets2020, False)]"
proof -
  let ?p = "startApp dashboardAnchors"
  let ?c19 = "fst (updateSeason sampleFmt 2019 sampleScatter ?p)"
  let ?p19 = "snd (updateSeason sampleFmt 2019 sampleScatter ?p)"
  have w0: "wellKeyed sampleScatter" by (simp add: wellKeyed_def sampleScatter_def)
  have d19: "distinct (map teamId (filter (\<lambda>d. season d = 2019) (scatterData sampleScatter)))"
    by (simp add: sampleScatter_def hawks2019_def celtics2019_def celtics2020_def
        nuggets2020_def)
  have w19: "wellKeyed ?c19"
    using updateSeason_idempotent [OF w0 d19, of sampleFmt ?p] by blast
  have data: "scatterData ?c19 = scatterData sampleScatter"
    by (simp add: updateSeason_def joinLayer_def Let_def split_def)
  have d20: "distinct (map teamId (filter (\<lambda>d. season d = 2020) (scatterData ?c19)))"
    unfolding data
    by (simp add: sampleScatter_def hawks2019_def celtics2019_def celtics2020_def
        nuggets2020_def)
  have "updateSeason sampleFmt 2020 (fst (updateSeason sampleFmt 2020 ?c19 ?p19))
          (snd (updateSeason sampleFmt 2020 ?c19 ?p19))
        = updateSeason sampleFmt 2020 ?c19 ?p19"
    using updateSeason_idempotent [OF w19 d20, of sampleFmt ?p19] by blast
  moreover have "map (\<lambda>n. (nodeId n, nodeDatum n, exiting n))
     (layer (fst (updateSeason sampleFmt 2020 ?c19 ?p19)))
   = [(0, hawks2019, True), (1, celtics2020, False), (2, nuggets2020, False)]"
    by (simp add: updateSeason_def joinLayer_def sampleScatter_def hawks2019_def celtics2019_def
      celtics2020_def nuggets2020_def Let_def updateIds_def nodeByKey_def insertBefore_def
      removeNode_def selectionOrder_def precedes_def firstIndex_def placed_def keyOf_def
      moveBefore_def)
  ultimately show ?thesis by simp
qed


section \<open>Records without a win percentage\<close>

lemma set_insertBefore: "set (insertBefore n nx doc) \<subseteq> insert n (set doc)"
proof -
  have "set_mset (mset (insertBefore n nx doc))
        = set_mset (mset (removeNode (nodeId n) doc) + {#n#})"
    by (simp only: mset_insertBefore)
  then show ?thesis by (auto simp: removeNode_def)
qed

lemma set_moveBefore: "set (moveBefore a b doc) \<subseteq> set doc"
proof (cases "find (\<lambda>m. nodeId m = a) doc")
  case None
  then show ?thesis by (simp add: moveBefore_def)
next
  case (Some n)
  then have "n \<in> set doc" by (auto simp: find_Some_iff)
  then show ?thesis using Some set_insertBefore [of n "Some b" doc] by (auto simp: moveBefore_def)
qed

lemma set_orderFrom: "set (orderFrom as nx doc) \<subseteq> set doc"
proof (induction as arbitrary: nx doc)
  case Nil
  then show ?case by simp
next
  case (Cons a as)
  have "set (orderFrom as a (if precedes a nx doc then doc else moveBefore a nx doc))
        \<subseteq> set (if precedes a nx doc then doc else moveBefore a nx doc)"
    by (rule Cons.IH)
  also have "\<dots> \<subseteq> set doc" using set_moveBefore [of a nx doc] by simp
  finally show ?case by simp
qed

lemma set_selectionOrder: "set (selectionOrder ms doc) \<subseteq> set doc"
  by (cases "rev ms") (simp_all add: selectionOrder_def set_orderFrom)

lemma joinNodes_nodes:
  assumes "joinNodes chart fresh bs doc = (ms, doc', fresh')"
    and "\<forall>n \<in> set doc. exiting n \<or> (\<exists>i. \<exists>d \<in> D. n = placed chart i d)
                          \<or> nodeId n \<in> set (updateIds bs)"
    and "fst ` set bs \<subseteq> D"
  shows "\<forall>n \<in> set doc'. exiting n \<or> (\<exists>i. \<exists>d \<in> D. n = placed chart i d)"
  using assms
proof (induction bs arbitrary: fresh doc ms doc' fresh')
  case Nil
  then show ?case by (simp add: updateIds_def)
next
  case (Cons b bs)
  obtain d ob where b: "b = (d, ob)" by (cases b)
  have dD: "d \<in> D" and rest: "fst ` set bs \<subseteq> D" using Cons.prems(3) b by auto
  show ?case
  proof (cases ob)
    case (Some i)
    let ?doc1 = "map (\<lambda>m. if nodeId m = i then placed chart i d else m) doc"
    have upd: "updateIds (b # bs) = i # updateIds bs"
      by (simp add: b Some updateIds_def)
    obtain ms1 doc2 fresh2 where r: "joinNodes chart fresh bs ?doc1 = (ms1, doc2, fresh2)"
      by (cases "joinNodes chart fresh bs ?doc1")
    have res: "doc' = doc2" using Cons.prems(1) r by (simp add: b Some)
    have "\<forall>n \<in> set ?doc1. exiting n \<or> (\<exists>i. \<exists>d \<in> D. n = placed chart i d)
                          \<or> nodeId n \<in> set (updateIds bs)"
      using Cons.prems(2) dD unfolding upd by auto
    then show ?thesis using Cons.IH [OF r _ rest] res by simp
  next
    case None
    let ?doc1 = "insertBefore (placed chart fresh d)
                   (case updateIds bs of [] \<Rightarrow> None | i # _ \<Rightarrow> Some i) doc"
    have upd: "updateIds (b # bs) = updateIds bs"
      by (simp add: b None updateIds_def)
    obtain ms1 doc2 fresh2 where r: "joinNodes chart (fresh + 1) bs ?doc1 = (ms1, doc2, fresh2)"
      by (cases "joinNodes chart (fresh + 1) bs ?doc1")
    have res: "doc' = doc2" using Cons.prems(1) r by (simp add: b None)
    have "set ?doc1 \<subseteq> insert (placed chart fresh d) (set doc)" by (rule set_insertBefore)
    then have "\<forall>n \<in> set ?doc1. exiting n \<or> (\<exists>i. \<exists>d \<in> D. n = placed chart i d)
                          \<or> nodeId n \<in> set (updateIds bs)"
      using Cons.prems(2) dD unfolding upd by blast
    then show ?thesis using Cons.IH [OF r _ rest] res by simp
  qed
qed

lemma joinLayer_nodes:
  "\<forall>n \<in> set (layer (joinLayer chart ds)).
     exiting n \<or> (\<exists>i. \<exists>d \<in> set ds. n = placed chart i d)"
proof -
  let ?bs = "bindData (layer chart) [] ds"
  let ?doc0 = "map (\<lambda>m. if nodeId m \<in> set (updateIds ?bs) then m
                         else m\<lparr>radius := 0, exiting := True\<rparr>) (layer chart)"
  obtain ms doc1 fresh where r: "joinNodes chart (nextId chart) ?bs ?doc0 = (ms, doc1, fresh)"
    by (cases "joinNodes chart (nextId chart) ?bs ?doc0")
  have jl: "layer (joinLayer chart ds) = selectionOrder ms doc1"
    using r by (simp add: joinLayer_def Let_def)
  have "fst ` set ?bs \<subseteq> set ds"
    using fst_bindData [of "layer chart" "[]" ds] by (metis list.set_map order_refl)
  moreover have "\<forall>n \<in> set ?doc0. exiting n \<or> (\<exists>i. \<exists>d \<in> set ds. n = placed chart i d)
                          \<or> nodeId n \<in> set (updateIds ?bs)"
    by auto
  ultimately have "\<forall>n \<in> set doc1. exiting n \<or> (\<exists>i. \<exists>d \<in> set ds. n = placed chart i d)"
    using joinNodes_nodes [OF r] by blast
  then show ?thesis using set_selectionOrder [of ms doc1] unfolding jl by blast
qed


lemma updateIds_general:
  assumes "distinct (map nodeId nodes)"
  shows "distinct (updateIds (bindData nodes used ds)) \<and>
         (\<forall>i \<in> set (updateIds (bindData nodes used ds)).
            \<exists>n \<in> set nodes. nodeId n = i \<and> keyOf n \<notin> set used)"
proof (induction ds arbitrary: used)
  case Nil
  then show ?case by (simp add: updateIds_def List.map_filter_simps)
next
  case (Cons d ds)
  show ?case
  proof (cases "if teamId d \<in> set used then None else nodeByKey nodes (teamId d)")
    case None
    then have "updateIds (bindData nodes used (d # ds)) = updateIds (bindData nodes used ds)"
      by (simp add: updateIds_def List.map_filter_simps)
    then show ?thesis using Cons.IH [of used] by simp
  next
    case (Some n)
    then have k: "teamId d \<notin> set used" and nb: "nodeByKey nodes (teamId d) = Some n"
      by (simp_all split: if_splits)
    have n: "n \<in> set nodes" "keyOf n = teamId d" using nodeByKey_Some [OF nb] by simp_all
    let ?rest = "updateIds (bindData nodes (teamId d # used) ds)"
    have upd: "updateIds (bindData nodes used (d # ds)) = nodeId n # ?rest"
      using Some by (simp add: updateIds_def List.map_filter_simps)
    note IH = Cons.IH [of "teamId d # used"]
    have fresh: "nodeId n \<notin> set ?rest"
    proof
      assume "nodeId n \<in> set ?rest"
      then obtain m where m: "m \<in> set nodes" "nodeId m = nodeId n" "keyOf m \<notin> set (teamId d # used)"
        using IH by blast
      then have "m = n" using assms n(1) by (meson distinct_map inj_onD)
      then show False using m(3) n(2) by simp
    qed
    have "\<forall>i \<in> set (nodeId n # ?rest). \<exists>m \<in> set nodes. nodeId m = i \<and> keyOf m \<notin> set used"
    proof
      fix i
      assume "i \<in> set (nodeId n # ?rest)"
      then consider "i = nodeId n" | "i \<in> set ?rest" by auto
      then show "\<exists>m \<in> set nodes. nodeId m = i \<and> keyOf m \<notin> set used"
      proof cases
        case 1
        then show ?thesis using n k by (intro bexI [of _ n]) simp_all
      next
        case 2
        then obtain m where "m \<in> set nodes" "nodeId m = i" "keyOf m \<notin> set (teamId d # used)"
          using IH by blast
        then show ?thesis by (intro bexI [of _ m]) simp_all
      qed
    qed
    then show ?thesis using IH fresh unfolding upd by simp
  qed
qed

lemma joinLayer_bound:
  assumes wn: "wellNumbered chart"
  shows "\<exists>ms. length ms = length ds \<and>
           mset (layer (joinLayer chart ds))
             = mset (map (\<lambda>m. m\<lparr>radius := 0, exiting := True\<rparr>)
                      (filter (\<lambda>m. nodeId m \<notin> set (updateIds (bindData (layer chart) [] ds)))
                         (layer chart)))
               + mset (map2 (placed chart) ms ds) \<and>
           xScale (joinLayer chart ds) = xScale chart \<and>
           yScale (joinLayer chart ds) = yScale chart \<and>
           scatterData (joinLayer chart ds) = scatterData chart \<and>
           wellNumbered (joinLayer chart ds)"
proof -
  let ?bs = "bindData (layer chart) [] ds"
  let ?upd = "updateIds ?bs"
  let ?ex = "\<lambda>m. m\<lparr>radius := 0, exiting := True\<rparr>"
  let ?doc0 = "map (\<lambda>m. if nodeId m \<in> set ?upd then m else ?ex m) (layer chart)"
  let ?F = "filter (\<lambda>m. nodeId m \<notin> set ?upd) (layer chart)"
  obtain ms doc1 fresh where r: "joinNodes chart (nextId chart) ?bs ?doc0 = (ms, doc1, fresh)"
    by (cases "joinNodes chart (nextId chart) ?bs ?doc0")
  have jl: "joinLayer chart ds = chart\<lparr>layer := selectionOrder ms doc1, nextId := fresh\<rparr>"
    using r by (simp add: joinLayer_def Let_def)
  have di: "distinct (map nodeId (layer chart))"
    and lt: "\<forall>n \<in> set (layer chart). nodeId n < nextId chart"
    using wn by (simp_all add: wellNumbered_def)
  note ug = updateIds_general [OF di, of "[]" ds]
  have usub: "set ?upd \<subseteq> nodeId ` set (layer chart)" using ug by auto
  have ids0: "map nodeId ?doc0 = map nodeId (layer chart)"
    by (rule ids_mark_exit)
  have p: "length ms = length ?bs \<and>
         mset doc1 = mset (filter (\<lambda>m. nodeId m \<notin> set ?upd) ?doc0)
                     + mset (map2 (placed chart) ms (map fst ?bs)) \<and>
         set ?upd \<subseteq> set ms \<and>
         set ms \<subseteq> set ?upd \<union> {nextId chart..<fresh} \<and>
         distinct ms \<and> nextId chart \<le> fresh"
  proof (rule joinNodes_props [OF r])
    show "distinct (map nodeId ?doc0)" using di by (simp only: ids0)
    show "\<forall>m \<in> set ?doc0. nodeId m < nextId chart" using lt by auto
    show "distinct ?upd" using ug by simp
    show "set ?upd \<subseteq> nodeId ` set ?doc0"
      using usub ids0 by (metis list.set_map)
  qed
  have f0: "filter (\<lambda>m. nodeId m \<notin> set ?upd) ?doc0 = map ?ex ?F"
    by (rule filter_mark_exit)
  have len: "length ms = length ds" using p fst_bindData [of "layer chart" "[]" ds]
    by (metis length_map)
  have m1: "mset doc1 = mset (map ?ex ?F) + mset (map2 (placed chart) ms ds)"
    using p by (simp only: f0 fst_bindData)
  have idsms: "map nodeId (map2 (placed chart) ms ds) = ms"
    using len by (induction ms ds rule: list_induct2) (simp_all add: placed_def)
  have ids1: "mset (map nodeId doc1)
              = mset (filter (\<lambda>i. i \<notin> set ?upd) (map nodeId (layer chart))) + mset ms"
  proof -
    have "mset (map nodeId doc1) = mset (map nodeId (map ?ex ?F @ map2 (placed chart) ms ds))"
      by (rule mset_map_cong_ids) (simp add: m1)
    also have "\<dots> = mset (map nodeId (map ?ex ?F)) + mset ms"
      by (simp only: map_append mset_append idsms)
    also have "map nodeId (map ?ex ?F) = filter (\<lambda>i. i \<notin> set ?upd) (map nodeId (layer chart))"
      by (rule ids_exit_filter)
    finally show ?thesis .
  qed
  have disj: "set (filter (\<lambda>i. i \<notin> set ?upd) (map nodeId (layer chart))) \<inter> set ms = {}"
    using p lt by fastforce
  have d1: "distinct (map nodeId doc1)"
  proof -
    have "distinct (filter (\<lambda>i. i \<notin> set ?upd) (map nodeId (layer chart)) @ ms)"
      using di p disj by simp
    moreover have "mset (map nodeId doc1)
                   = mset (filter (\<lambda>i. i \<notin> set ?upd) (map nodeId (layer chart)) @ ms)"
      using ids1 by simp
    ultimately show ?thesis by (metis mset_eq_imp_distinct_iff)
  qed
  have ids1set: "set (map nodeId doc1)
          = set (filter (\<lambda>i. i \<notin> set ?upd) (map nodeId (layer chart)) @ ms)"
    using ids1 by (metis mset_append mset_eq_setD)
  have sub: "set ms \<subseteq> nodeId ` set doc1" using ids1set by auto
  have so: "sorted_wrt (\<lambda>u v. precedes u v (selectionOrder ms doc1)) ms \<and>
            mset (selectionOrder ms doc1) = mset doc1"
    using p by (intro selectionOrder_sorted [OF d1 _ sub]) simp
  have idm: "mset (map nodeId (selectionOrder ms doc1)) = mset (map nodeId doc1)"
    using so by (intro mset_map_cong_ids) simp
  have a: "distinct (map nodeId (selectionOrder ms doc1))"
    using d1 idm mset_eq_imp_distinct_iff by blast
  have "set (map nodeId (selectionOrder ms doc1)) = set (map nodeId doc1)"
    using idm by (rule mset_eq_setD)
  then have "nodeId ` set (selectionOrder ms doc1) \<subseteq> nodeId ` set (layer chart) \<union> set ms"
    using ids1set by auto
  moreover have "\<forall>i \<in> nodeId ` set (layer chart) \<union> set ms. i < fresh"
    using lt p usub by fastforce
  ultimately have c: "\<forall>n \<in> set (selectionOrder ms doc1). nodeId n < fresh"
    by blast
  have wn1: "wellNumbered (joinLayer chart ds)" using a c by (simp add: wellNumbered_def jl)
  show ?thesis
    using so m1 len wn1 by (intro exI [of _ ms]) (simp add: jl)
qed

lemma joinLayer_bubble:
  assumes wn: "wellNumbered chart" and d: "d \<in> set ds"
  shows "\<exists>i. placed chart i d \<in> set (layer (joinLayer chart ds))"
proof -
  from joinLayer_bound [OF wn, of ds] obtain ms where
    len: "length ms = length ds" and
    m: "mset (layer (joinLayer chart ds))
          = mset (map (\<lambda>m. m\<lparr>radius := 0, exiting := True\<rparr>)
                   (filter (\<lambda>m. nodeId m \<notin> set (updateIds (bindData (layer chart) [] ds)))
                      (layer chart)))
            + mset (map2 (placed chart) ms ds)"
    by blast
  from d obtain k where k: "k < length ds" "ds ! k = d" by (auto simp: in_set_conv_nth)
  have "map2 (placed chart) ms ds ! k = placed chart (ms ! k) d"
    using k len by simp
  moreover have "k < length (map2 (placed chart) ms ds)" using k len by simp
  ultimately have "placed chart (ms ! k) d \<in> set (map2 (placed chart) ms ds)"
    by (metis nth_mem)
  then have "placed chart (ms ! k) d \<in># mset (layer (joinLayer chart ds))"
    unfolding m by simp
  then show ?thesis by auto
qed

lemma updateSeason_layer:
  "fst (updateSeason nf year chart p)
   = joinLayer chart (filter (\<lambda>d. season d = year) (scatterData chart))"
  by (simp add: updateSeason_def Let_def)

lemma updateSeason_wellNumbered:
  assumes "wellNumbered chart"
  shows "wellNumbered (fst (updateSeason nf year chart p)) \<and>
         scatterData (fst (updateSeason nf year chart p)) = scatterData chart"
  using joinLayer_bound [OF assms, of "filter (\<lambda>d. season d = year) (scatterData chart)"]
  by (auto simp: updateSeason_layer)

lemma updateSeason_bubble:
  assumes "wellNumbered chart" "d \<in> set (scatterData chart)"
  shows "\<exists>n \<in> set (layer (fst (updateSeason nf (season d) chart p))).
           n = placed chart (nodeId n) d"
proof -
  have "d \<in> set (filter (\<lambda>e. season e = season d) (scatterData chart))"
    using assms(2) by simp
  from joinLayer_bubble [OF assms(1) this] obtain i where
    "placed chart i d \<in> set (layer (fst (updateSeason nf (season d) chart p)))"
    by (auto simp: updateSeason_layer)
  then show ?thesis by (intro bexI [of _ "placed chart i d"]) (simp_all add: placed_def)
qed

lemma last_season_sorted:
  assumes "d \<in> set data" "\<forall>e \<in> set data. season e \<le> season d"
  shows "array_sort (\<lambda>a b. a - b) (uniqueValues (map season data)) \<noteq> [] \<and>
         array_sort (\<lambda>a b. a - b) (uniqueValues (map season data))
           ! (length (array_sort (\<lambda>a b. a - b) (uniqueValues (map season data))) - 1)
         = season d"
proof -
  let ?u = "uniqueValues (map season data)"
  let ?s = "sort_key (\<lambda>x. x) ?u"
  have srt: "array_sort (\<lambda>a b. a - b) ?u = ?s"
    using array_sort_sort_key [of "\<lambda>x. x" ?u] by simp
  have su: "set ?u = season ` set data" by (simp add: uniqueValues_set)
  have ne: "?u \<noteq> []" using assms(1) su by auto
  have ne': "?s \<noteq> []" using ne by (metis length_sort length_0_conv)
  note mx = last_sort_key_max [OF ne, of "\<lambda>x. x"]
  have "last ?s \<in> season ` set data" using mx su by simp
  then have le: "last ?s \<le> season d" using assms(2) by auto
  have "season d \<le> last ?s" using mx su assms(1) by auto
  then have "last ?s = season d" using le by simp
  then show ?thesis using ne' by (simp add: srt last_conv_nth)
qed

lemma renderTeamScatter_control:
  assumes "''teamScatter'' \<in> set (anchors p)" "''seasonSlider'' \<in> set (anchors p)"
    "''seasonLabel'' \<in> set (anchors p)" "''teamInsight'' \<in> set (anchors p)"
  shows "\<exists>chart' p'. renderTeamScatter nf x y sv rawData p = (Inr (Control chart'), p') \<and>
           wellNumbered chart' \<and>
           scatterData chart'
             = filter (\<lambda>d. teamThreeAttempts d \<noteq> 0 \<and> teamThreePct d \<noteq> 0) rawData"
proof -
  let ?data = "filter (\<lambda>d. teamThreeAttempts d \<noteq> 0 \<and> teamThreePct d \<noteq> 0) rawData"
  let ?c0 = "\<lparr>scatterData = ?data, xScale = x, yScale = y, layer = [], nextId = 0\<rparr>"
  have w0: "wellNumbered ?c0" by (simp add: wellNumbered_def)
  have u: "wellNumbered (fst (updateSeason nf v ?c0 q)) \<and>
           scatterData (fst (updateSeason nf v ?c0 q)) = ?data" for v and q :: "'a page_scheme"
    using updateSeason_wellNumbered [OF w0, of nf v q] by simp
  show ?thesis
    using assms w0 u
    by (auto simp: renderTeamScatter_def clearContainer_def appendSvg_def Let_def split_def
        split: option.splits)
qed

lemma renderTeamScatter_latest:
  assumes "''teamScatter'' \<in> set (anchors p)" "''seasonSlider'' \<in> set (anchors p)"
    "''seasonLabel'' \<in> set (anchors p)" "''teamInsight'' \<in> set (anchors p)"
    and "d \<in> set rawData" "teamThreeAttempts d \<noteq> 0" "teamThreePct d \<noteq> 0"
    and "\<forall>e \<in> set rawData. teamThreeAttempts e \<noteq> 0 \<and> teamThreePct e \<noteq> 0 \<longrightarrow> season e \<le> season d"
  shows "fst (renderTeamScatter nf x y sv rawData p)
           = Inr (Control (fst (updateSeason nf (season d)
                \<lparr>scatterData = filter (\<lambda>d. teamThreeAttempts d \<noteq> 0 \<and> teamThreePct d \<noteq> 0) rawData,
                 xScale = x, yScale = y, layer = [], nextId = 0\<rparr> p)))"
proof -
  let ?data = "filter (\<lambda>d. teamThreeAttempts d \<noteq> 0 \<and> teamThreePct d \<noteq> 0) rawData"
  have "d \<in> set ?data" "\<forall>e \<in> set ?data. season e \<le> season d" using assms by auto
  note ls = last_season_sorted [OF this]
  show ?thesis
    using assms(1-4) ls
    by (simp add: renderTeamScatter_def clearContainer_def appendSvg_def Let_def split_def
        updateSeason_layer)
qed

lemma rScale_domain: "rScale (1 / 5) = 4 \<and> rScale (4 / 5) = 22"
proof -
  have s: "sqrt (4 / 5) = 2 * sqrt (1 / 5)"
    using real_sqrt_mult [of 4 "1 / 5"] by simp
  have pos: "sqrt (1 / 5 :: real) \<noteq> 0" by simp
  have "(sqrt (4 / 5) - sqrt (1 / 5)) / (sqrt (4 / 5) - sqrt (1 / 5)) = (1 :: real)"
    using pos unfolding s by simp
  then have "rScale (4 / 5) = 22" by (simp add: rScale_def of_rat_divide)
  moreover have "rScale (1 / 5) = 4" by (simp add: rScale_def of_rat_divide)
  ultimately show ?thesis by simp
qed

text \<open>
  C5.  A team record without \<open>winPct\<close> gets its bubble: after a season update to the
  season of the record, from any layer the renderer can have reached, the layer has a
  circle that is bound to the record, is not exiting, sits at the position computed from
  the record and has the target radius of the radius scale at the default 0.5, the
  midpoint of the scale's domain from 0.2 to 0.8 (which the scale maps to the radii 4 and
  22).  Every circle bound to such a record has that radius, and its tooltip ends with
  \<open>Win %: N/A\<close>.  The update does not fail: with its container and slider elements present
  the renderer returns the control with the updated chart, whatever records the data
  holds, and a record of the latest season without \<open>winPct\<close> has its bubble in the
  chart the renderer returns; every later update returns a chart again.
\<close>

theorem missing_winPct_default:
  "(winPct d = None \<and> wellNumbered chart \<and> d \<in> set (scatterData chart) \<longrightarrow>
      (\<exists>n \<in> set (layer (fst (updateSeason nf (season d) chart p))).
          \<not> exiting n \<and> nodeDatum n = d \<and> radius n = rScale (1 / 2) \<and>
          cx n = xScale chart (teamThreeAttempts d) \<and>
          cy n = yScale chart (teamThreePct d * 100))) \<and>
   (wellNumbered chart \<longrightarrow>
      wellNumbered (fst (updateSeason nf year chart p)) \<and>
      scatterData (fst (updateSeason nf year chart p)) = scatterData chart) \<and>
   (winPct d = None \<longrightarrow>
      (\<forall>n \<in> set (layer (fst (updateSeason nf year chart p))).
          \<not> exiting n \<and> nodeDatum n = d \<longrightarrow> radius n = rScale (1 / 2)) \<and>
      (\<forall>n. nodeDatum n = d \<longrightarrow>
          shown (tip (circlePointerEnter nf n q)) \<and>
          html (tip (circlePointerEnter nf n q)) =
            ''<strong>'' @ city d @ '' '' @ orEmpty (team d)
              @ ''</strong><br>'' @ nf (Num (teamThreeAttempts d)) @ '' 3PA '' @ bullet @ '' ''
              @ nf (Num (teamThreePct d * 100)) @ ''%<br>Win %: N/A'')) \<and>
   (''teamScatter'' \<in> set (anchors p0) \<and> ''seasonSlider'' \<in> set (anchors p0) \<and>
    ''seasonLabel'' \<in> set (anchors p0) \<and> ''teamInsight'' \<in> set (anchors p0) \<longrightarrow>
      (\<exists>chart' p'. renderTeamScatter nf x y sv rawData p0 = (Inr (Control chart'), p') \<and>
          wellNumbered chart' \<and>
          scatterData chart'
            = filter (\<lambda>e. teamThreeAttempts e \<noteq> 0 \<and> teamThreePct e \<noteq> 0) rawData \<and>
          (winPct d = None \<and> d \<in> set rawData \<and> teamThreeAttempts d \<noteq> 0 \<and> teamThreePct d \<noteq> 0 \<and>
           (\<forall>e \<in> set rawData. teamThreeAttempts e \<noteq> 0 \<and> teamThreePct e \<noteq> 0
                \<longrightarrow> season e \<le> season d) \<longrightarrow>
             (\<exists>n \<in> set (layer chart').
                 \<not> exiting n \<and> nodeDatum n = d \<and> radius n = rScale (1 / 2) \<and>
                 cx n = x (teamThreeAttempts d) \<and> cy n = y (teamThreePct d * 100))))) \<and>
   rScale (1 / 5) = 4 \<and> rScale (4 / 5) = 22 \<and> (1 / 2 :: rat) = (1 / 5 + 4 / 5) / 2"
proof -
  have bubble: "\<exists>n \<in> set (layer (fst (updateSeason nf (season d) c pg))).
          \<not> exiting n \<and> nodeDatum n = d \<and> radius n = rScale (1 / 2) \<and>
          cx n = xScale c (teamThreeAttempts d) \<and> cy n = yScale c (teamThreePct d * 100)"
    if "winPct d = None" "wellNumbered c" "d \<in> set (scatterData c)"
    for c and pg :: "'z page_scheme"
  proof -
    from updateSeason_bubble [OF that(2,3), of nf pg] obtain n where
      n: "n \<in> set (layer (fst (updateSeason nf (season d) c pg)))" "n = placed c (nodeId n) d"
      by blast
    have "\<not> exiting n \<and> nodeDatum n = d \<and> radius n = rScale (1 / 2) \<and>
          cx n = xScale c (teamThreeAttempts d) \<and> cy n = yScale c (teamThreePct d * 100)"
      using that(1) by (subst (1 2 3 4 5) n(2)) (simp add: placed_def winPctOr_def)
    then show ?thesis using n(1) by blast
  qed
  have a: "winPct d = None \<and> wellNumbered chart \<and> d \<in> set (scatterData chart) \<longrightarrow>
      (\<exists>n \<in> set (layer (fst (updateSeason nf (season d) chart p))).
          \<not> exiting n \<and> nodeDatum n = d \<and> radius n = rScale (1 / 2) \<and>
          cx n = xScale chart (teamThreeAttempts d) \<and>
          cy n = yScale chart (teamThreePct d * 100))"
    using bubble by blast
  have b: "wellNumbered chart \<longrightarrow>
      wellNumbered (fst (updateSeason nf year chart p)) \<and>
      scatterData (fst (updateSeason nf year chart p)) = scatterData chart"
    using updateSeason_wellNumbered by blast
  have c1: "\<forall>n \<in> set (layer (fst (updateSeason nf year chart p))).
          \<not> exiting n \<and> nodeDatum n = d \<longrightarrow> radius n = rScale (1 / 2)"
    if w: "winPct d = None"
  proof (intro ballI impI)
    fix n
    assume n: "n \<in> set (layer (fst (updateSeason nf year chart p)))"
      and bd: "\<not> exiting n \<and> nodeDatum n = d"
    let ?ds = "filter (\<lambda>d. season d = year) (scatterData chart)"
    have "n \<in> set (layer (joinLayer chart ?ds))"
      using n by (simp add: updateSeason_layer)
    then obtain j d' where "n = placed chart j d'"
      using joinLayer_nodes [of chart ?ds] bd by blast
    then show "radius n = rScale (1 / 2)"
      using bd w by (auto simp: placed_def winPctOr_def)
  qed
  have c2: "\<forall>n. nodeDatum n = d \<longrightarrow>
          shown (tip (circlePointerEnter nf n q)) \<and>
          html (tip (circlePointerEnter nf n q)) =
            ''<strong>'' @ city d @ '' '' @ orEmpty (team d)
              @ ''</strong><br>'' @ nf (Num (teamThreeAttempts d)) @ '' 3PA '' @ bullet @ '' ''
              @ nf (Num (teamThreePct d * 100)) @ ''%<br>Win %: N/A''"
    if w: "winPct d = None"
    using w by (simp add: circlePointerEnter_def circleTooltip_def winText_def)
  have r: "\<exists>chart' p'. renderTeamScatter nf x y sv rawData p0 = (Inr (Control chart'), p') \<and>
          wellNumbered chart' \<and>
          scatterData chart'
            = filter (\<lambda>e. teamThreeAttempts e \<noteq> 0 \<and> teamThreePct e \<noteq> 0) rawData \<and>
          (winPct d = None \<and> d \<in> set rawData \<and> teamThreeAttempts d \<noteq> 0 \<and> teamThreePct d \<noteq> 0 \<and>
           (\<forall>e \<in> set rawData. teamThreeAttempts e \<noteq> 0 \<and> teamThreePct e \<noteq> 0
                \<longrightarrow> season e \<le> season d) \<longrightarrow>
             (\<exists>n \<in> set (layer chart').
                 \<not> exiting n \<and> nodeDatum n = d \<and> radius n = rScale (1 / 2) \<and>
                 cx n = x (teamThreeAttempts d) \<and> cy n = y (teamThreePct d * 100)))"
    if an: "''teamScatter'' \<in> set (anchors p0)" "''seasonSlider'' \<in> set (anchors p0)"
      "''seasonLabel'' \<in> set (anchors p0)" "''teamInsight'' \<in> set (anchors p0)"
  proof -
    let ?data = "filter (\<lambda>e. teamThreeAttempts e \<noteq> 0 \<and> teamThreePct e \<noteq> 0) rawData"
    let ?c0 = "\<lparr>scatterData = ?data, xScale = x, yScale = y, layer = [], nextId = 0\<rparr>"
    from renderTeamScatter_control [OF an, of nf x y sv rawData] obtain chart' p' where
      res: "renderTeamScatter nf x y sv rawData p0 = (Inr (Control chart'), p')"
      and wn: "wellNumbered chart'" and sd: "scatterData chart' = ?data"
      by blast
    have "\<exists>n \<in> set (layer chart').
                 \<not> exiting n \<and> nodeDatum n = d \<and> radius n = rScale (1 / 2) \<and>
                 cx n = x (teamThreeAttempts d) \<and> cy n = y (teamThreePct d * 100)"
      if h: "winPct d = None \<and> d \<in> set rawData \<and> teamThreeAttempts d \<noteq> 0 \<and> teamThreePct d \<noteq> 0 \<and>
           (\<forall>e \<in> set rawData. teamThreeAttempts e \<noteq> 0 \<and> teamThreePct e \<noteq> 0
                \<longrightarrow> season e \<le> season d)"
    proof -
      have "fst (renderTeamScatter nf x y sv rawData p0)
              = Inr (Control (fst (updateSeason nf (season d) ?c0 p0)))"
        using h by (intro renderTeamScatter_latest [OF an]) simp_all
      then have c: "chart' = fst (updateSeason nf (season d) ?c0 p0)" using res by simp
      have w0: "wellNumbered ?c0" by (simp add: wellNumbered_def)
      have "d \<in> set (scatterData ?c0)" using h by simp
      from bubble [OF _ w0 this, of p0] h show ?thesis unfolding c by simp
    qed
    then show ?thesis using res wn sd by blast
  qed
  have e: "rScale (1 / 5) = 4 \<and> rScale (4 / 5) = 22 \<and> (1 / 2 :: rat) = (1 / 5 + 4 / 5) / 2"
    using rScale_domain by simp
  show ?thesis using a b c1 c2 r e by blast
qed

theorem missing_winPct_default_witness:
  "(\<exists>n \<in> set (layer (fst (updateSeason sampleFmt 2020 sampleScatter (startApp dashboardAnchors)))).
      \<not> exiting n \<and> nodeDatum n = nuggets2020 \<and> radius n = rScale (1 / 2)) \<and>
   layer (fst (updateSeason sampleFmt 2020 sampleScatter (startApp dashboardAnchors)))
     = [placed sampleScatter 0 celtics2020, placed sampleScatter 1 nuggets2020] \<and>
   radius (placed sampleScatter 1 nuggets2020) = rScale (1 / 2) \<and>
   html (tip (circlePointerEnter sampleFmt (placed sampleScatter 1 nuggets2020)
                (startApp dashboardAnchors)))
     = ''<strong>Denver </strong><br>'' @ sampleFmt (Num 31) @ '' 3PA '' @ bullet @ '' ''
         @ sampleFmt (Num 36) @ ''%<br>Win %: N/A'' \<and>
   (\<exists>chart' p'.
      renderTeamScatter sampleFmt of_rat of_rat None
        [hawks2019, celtics2019, celtics2020, nuggets2020] (startApp dashboardAnchors)
        = (Inr (Control chart'), p') \<and>
      (\<exists>n \<in> set (layer chart').
          \<not> exiting n \<and> nodeDatum n = nuggets2020 \<and> radius n = rScale (1 / 2)))"
proof -
  let ?p = "startApp dashboardAnchors"
  let ?raw = "[hawks2019, celtics2019, celtics2020, nuggets2020]"
  note inst = missing_winPct_default
    [where d = nuggets2020 and chart = sampleScatter and nf = sampleFmt and p = ?p
       and year = 2020 and q = ?p and ?p0.0 = ?p and x = of_rat and y = of_rat and sv = None
       and rawData = ?raw]
  have w: "winPct nuggets2020 = None" and sn: "season nuggets2020 = 2020"
    by (simp_all add: nuggets2020_def)
  have wn: "wellNumbered sampleScatter" by (simp add: wellNumbered_def sampleScatter_def)
  have mem: "nuggets2020 \<in> set (scatterData sampleScatter)" by (simp add: sampleScatter_def)
  have c1: "\<exists>n \<in> set (layer (fst (updateSeason sampleFmt 2020 sampleScatter ?p))).
      \<not> exiting n \<and> nodeDatum n = nuggets2020 \<and> radius n = rScale (1 / 2)"
    using inst w wn mem unfolding sn by blast
  have l: "layer (fst (updateSeason sampleFmt 2020 sampleScatter ?p))
           = [placed sampleScatter 0 celtics2020, placed sampleScatter 1 nuggets2020]"
    by (simp add: updateSeason_def joinLayer_def sampleScatter_def hawks2019_def celtics2019_def
      celtics2020_def nuggets2020_def Let_def updateIds_def nodeByKey_def insertBefore_def
      removeNode_def selectionOrder_def precedes_def firstIndex_def placed_def)
  have n1: "placed sampleScatter 1 nuggets2020
              \<in> set (layer (fst (updateSeason sampleFmt 2020 sampleScatter ?p)))"
    "\<not> exiting (placed sampleScatter 1 nuggets2020) \<and>
     nodeDatum (placed sampleScatter 1 nuggets2020) = nuggets2020"
    unfolding l by (simp_all add: placed_def)
  have c3: "radius (placed sampleScatter 1 nuggets2020) = rScale (1 / 2)"
    using inst w n1 by blast
  have "html (tip (circlePointerEnter sampleFmt (placed sampleScatter 1 nuggets2020) ?p))
     = ''<strong>'' @ city nuggets2020 @ '' '' @ orEmpty (team nuggets2020)
         @ ''</strong><br>'' @ sampleFmt (Num (teamThreeAttempts nuggets2020)) @ '' 3PA ''
         @ bullet @ '' '' @ sampleFmt (Num (teamThreePct nuggets2020 * 100))
         @ ''%<br>Win %: N/A''"
    using inst w n1(2) by blast
  then have c4: "html (tip (circlePointerEnter sampleFmt (placed sampleScatter 1 nuggets2020) ?p))
     = ''<strong>Denver </strong><br>'' @ sampleFmt (Num 31) @ '' 3PA '' @ bullet @ '' ''
         @ sampleFmt (Num 36) @ ''%<br>Win %: N/A''"
    by (simp add: nuggets2020_def orEmpty_def)
  have an: "''teamScatter'' \<in> set (anchors ?p) \<and> ''seasonSlider'' \<in> set (anchors ?p) \<and>
    ''seasonLabel'' \<in> set (anchors ?p) \<and> ''teamInsight'' \<in> set (anchors ?p)"
    by (simp add: startApp_def dashboardAnchors_def)
  have h: "winPct nuggets2020 = None \<and> nuggets2020 \<in> set ?raw \<and>
           teamThreeAttempts nuggets2020 \<noteq> 0 \<and> teamThreePct nuggets2020 \<noteq> 0 \<and>
           (\<forall>e \<in> set ?raw. teamThreeAttempts e \<noteq> 0 \<and> teamThreePct e \<noteq> 0
                \<longrightarrow> season e \<le> season nuggets2020)"
    by (simp add: hawks2019_def celtics2019_def celtics2020_def nuggets2020_def)
  from inst an obtain chart' p' where
    res: "renderTeamScatter sampleFmt of_rat of_rat None ?raw ?p = (Inr (Control chart'), p')"
    and imp: "winPct nuggets2020 = None \<and> nuggets2020 \<in> set ?raw \<and>
           teamThreeAttempts nuggets2020 \<noteq> 0 \<and> teamThreePct nuggets2020 \<noteq> 0 \<and>
           (\<forall>e \<in> set ?raw. teamThreeAttempts e \<noteq> 0 \<and> teamThreePct e \<noteq> 0
                \<longrightarrow> season e \<le> season nuggets2020) \<longrightarrow>
             (\<exists>n \<in> set (layer chart').
                 \<not> exiting n \<and> nodeDatum n = nuggets2020 \<and> radius n = rScale (1 / 2) \<and>
                 cx n = of_rat (teamThreeAttempts nuggets2020) \<and>
                 cy n = of_rat (teamThreePct nuggets2020 * 100))"
    by blast
  have "\<exists>n \<in> set (layer chart').
          \<not> exiting n \<and> nodeDatum n = nuggets2020 \<and> radius n = rScale (1 / 2)"
    using imp h by blast
  then have c5: "\<exists>chart' p'.
      renderTeamScatter sampleFmt of_rat of_rat None ?raw ?p = (Inr (Control chart'), p') \<and>
      (\<exists>n \<in> set (layer chart').
          \<not> exiting n \<and> nodeDatum n = nuggets2020 \<and> radius n = rScale (1 / 2))"
    using res by blast
  show ?thesis using c1 l c3 c4 c5 by simp
qed

section \<open>The caller's arrays\<close>

lemma sortedCopy_frame:
  assumes "a < length st"
  shows "snd (sortedCopy r st) ! a = st ! a"
  using assms
  by (simp add: sortedCopy_def array_slice_def alloc_def sort_in_place_def nth_append)

lemma sortedCopy_data:
  "snd (sortedCopy r st) ! fst (sortedCopy r st) = array_sort bySeason (st ! r)"
  by (simp add: sortedCopy_def array_slice_def alloc_def sort_in_place_def)

lemma scatterData_joinLayer: "scatterData (joinLayer chart ds) = scatterData chart"
  by (simp add: joinLayer_def Let_def split_def)

lemma renderTeamScatter_data:
  "renderTeamScatter nf x y sv raw p = (Inr (Control chart), p1) \<Longrightarrow>
   scatterData chart = filter (\<lambda>d. teamThreeAttempts d \<noteq> 0 \<and> teamThreePct d \<noteq> 0) raw"
  by (auto simp: renderTeamScatter_def Let_def split_def updateSeason_def scatterData_joinLayer
      split: sum.splits option.splits if_splits)

lemma renderHeatmap_data:
  "renderHeatmap raw p = (Inr chart, p1) \<Longrightarrow> hmCells chart = raw"
  by (auto simp: renderHeatmap_def Let_def split: sum.splits)

text \<open>
  C10.  \<open>updateHeroMetrics\<close> and the six renderers leave every array that exists when they
  are called, the caller's input array among them, with the same elements in the same
  order: they sort and filter a copy.  The working array of a renderer, a new array,
  holds the sorted or filtered data, and it is the data of the chart the renderer
  returns.
\<close>

theorem input_arrays_unchanged:
  "((\<forall>a < length s1. updateHeroMetrics_arrays r1 s1 ! a = s1 ! a) \<and>
    (\<forall>a < length s2. snd (renderLeagueTrends_arrays r2 s2) ! a = s2 ! a) \<and>
    (\<forall>a < length s3. snd (renderScoringMix_arrays r3 s3) ! a = s3 ! a) \<and>
    (\<forall>a < length s4. snd (renderTeamScatter_arrays r4 s4) ! a = s4 ! a) \<and>
    (\<forall>a < length s5. snd (renderHeatmap_arrays r5 s5) ! a = s5 ! a) \<and>
    (\<forall>a < length s6. renderTeamMap_arrays r6 s6 ! a = s6 ! a) \<and>
    (\<forall>a < length s7. snd (renderMomentumSpiral_arrays r7 s7) ! a = s7 ! a)) \<and>
   (snd (renderLeagueTrends_arrays r2 s2) ! fst (renderLeagueTrends_arrays r2 s2)
      = array_sort bySeason (s2 ! r2) \<and>
    snd (renderScoringMix_arrays r3 s3) ! fst (renderScoringMix_arrays r3 s3)
      = array_sort bySeason (s3 ! r3) \<and>
    snd (renderTeamScatter_arrays r4 s4) ! fst (renderTeamScatter_arrays r4 s4)
      = filter (\<lambda>d. teamThreeAttempts d \<noteq> 0 \<and> teamThreePct d \<noteq> 0) (s4 ! r4) \<and>
    (r5 < length s5 \<longrightarrow>
       snd (renderHeatmap_arrays r5 s5) ! fst (renderHeatmap_arrays r5 s5) = s5 ! r5) \<and>
    snd (renderMomentumSpiral_arrays r7 s7) ! fst (renderMomentumSpiral_arrays r7 s7)
      = array_sort bySeason (s7 ! r7)) \<and>
   (length s2 \<le> fst (renderLeagueTrends_arrays r2 s2) \<and>
    length s3 \<le> fst (renderScoringMix_arrays r3 s3) \<and>
    length s4 \<le> fst (renderTeamScatter_arrays r4 s4) \<and>
    length s5 \<le> fst (renderHeatmap_arrays r5 s5) \<and>
    length s7 \<le> fst (renderMomentumSpiral_arrays r7 s7)) \<and>
   (renderLeagueTrends nf w (s2 ! r2) p2 = (Inr lc, q2) \<longrightarrow>
      lcData lc = snd (renderLeagueTrends_arrays r2 s2) ! fst (renderLeagueTrends_arrays r2 s2)) \<and>
   (renderScoringMix (s3 ! r3) p3 = (Inr sc, q3) \<longrightarrow>
      smData sc = snd (renderScoringMix_arrays r3 s3) ! fst (renderScoringMix_arrays r3 s3)) \<and>
   (renderTeamScatter nf x y sv (s4 ! r4) p4 = (Inr (Control tc), q4) \<longrightarrow>
      scatterData tc
        = snd (renderTeamScatter_arrays r4 s4) ! fst (renderTeamScatter_arrays r4 s4)) \<and>
   (renderHeatmap (s5 ! r5) p5 = (Inr hc, q5) \<and> r5 < length s5 \<longrightarrow>
      hmCells hc = snd (renderHeatmap_arrays r5 s5) ! fst (renderHeatmap_arrays r5 s5)) \<and>
   (renderMomentumSpiral (s7 ! r7) p7 = (Inr sp, q7) \<longrightarrow>
      spData sp
        = snd (renderMomentumSpiral_arrays r7 s7) ! fst (renderMomentumSpiral_arrays r7 s7))"
proof -
  have frame: "(\<forall>a < length s1. updateHeroMetrics_arrays r1 s1 ! a = s1 ! a) \<and>
   (\<forall>a < length s2. snd (renderLeagueTrends_arrays r2 s2) ! a = s2 ! a) \<and>
   (\<forall>a < length s3. snd (renderScoringMix_arrays r3 s3) ! a = s3 ! a) \<and>
   (\<forall>a < length s4. snd (renderTeamScatter_arrays r4 s4) ! a = s4 ! a) \<and>
   (\<forall>a < length s5. snd (renderHeatmap_arrays r5 s5) ! a = s5 ! a) \<and>
   (\<forall>a < length s6. renderTeamMap_arrays r6 s6 ! a = s6 ! a) \<and>
   (\<forall>a < length s7. snd (renderMomentumSpiral_arrays r7 s7) ! a = s7 ! a)"
    by (simp add: updateHeroMetrics_arrays_def renderLeagueTrends_arrays_def
        renderScoringMix_arrays_def renderMomentumSpiral_arrays_def renderTeamMap_arrays_def
        sortedCopy_frame)
       (simp add: renderTeamScatter_arrays_def renderHeatmap_arrays_def array_filter_def
        array_slice_def alloc_def nth_append)
  have w2: "snd (renderLeagueTrends_arrays r2 s2) ! fst (renderLeagueTrends_arrays r2 s2)
     = array_sort bySeason (s2 ! r2)"
    by (simp add: renderLeagueTrends_arrays_def sortedCopy_data)
  have w3: "snd (renderScoringMix_arrays r3 s3) ! fst (renderScoringMix_arrays r3 s3)
     = array_sort bySeason (s3 ! r3)"
    by (simp add: renderScoringMix_arrays_def sortedCopy_data)
  have w4: "snd (renderTeamScatter_arrays r4 s4) ! fst (renderTeamScatter_arrays r4 s4)
     = filter (\<lambda>d. teamThreeAttempts d \<noteq> 0 \<and> teamThreePct d \<noteq> 0) (s4 ! r4)"
    by (simp add: renderTeamScatter_arrays_def array_filter_def alloc_def)
  have w5: "snd (renderHeatmap_arrays r5 s5) ! fst (renderHeatmap_arrays r5 s5) = s5 ! r5"
    if "r5 < length s5"
    using that
    by (simp add: renderHeatmap_arrays_def array_filter_def array_slice_def alloc_def nth_append)
  have w7: "snd (renderMomentumSpiral_arrays r7 s7) ! fst (renderMomentumSpiral_arrays r7 s7)
     = array_sort bySeason (s7 ! r7)"
    by (simp add: renderMomentumSpiral_arrays_def sortedCopy_data)
  have new: "length s2 \<le> fst (renderLeagueTrends_arrays r2 s2) \<and>
   length s3 \<le> fst (renderScoringMix_arrays r3 s3) \<and>
   length s4 \<le> fst (renderTeamScatter_arrays r4 s4) \<and>
   length s5 \<le> fst (renderHeatmap_arrays r5 s5) \<and>
   length s7 \<le> fst (renderMomentumSpiral_arrays r7 s7)"
    by (simp add: renderLeagueTrends_arrays_def renderScoringMix_arrays_def
        renderMomentumSpiral_arrays_def renderTeamScatter_arrays_def renderHeatmap_arrays_def
        sortedCopy_def array_filter_def array_slice_def alloc_def sort_in_place_def)
  have l2: "renderLeagueTrends nf w (s2 ! r2) p2 = (Inr lc, q2) \<longrightarrow>
      lcData lc = snd (renderLeagueTrends_arrays r2 s2) ! fst (renderLeagueTrends_arrays r2 s2)"
    using renderLeagueTrends_data [of nf w "s2 ! r2" p2 lc q2] by (simp add: w2)
  have l3: "renderScoringMix (s3 ! r3) p3 = (Inr sc, q3) \<longrightarrow>
      smData sc = snd (renderScoringMix_arrays r3 s3) ! fst (renderScoringMix_arrays r3 s3)"
    using renderScoringMix_data [of "s3 ! r3" p3 sc q3] by (simp add: w3)
  have l4: "renderTeamScatter nf x y sv (s4 ! r4) p4 = (Inr (Control tc), q4) \<longrightarrow>
      scatterData tc
        = snd (renderTeamScatter_arrays r4 s4) ! fst (renderTeamScatter_arrays r4 s4)"
    using renderTeamScatter_data [of nf x y sv "s4 ! r4" p4 tc q4] by (simp add: w4)
  have l5: "renderHeatmap (s5 ! r5) p5 = (Inr hc, q5) \<and> r5 < length s5 \<longrightarrow>
      hmCells hc = snd (renderHeatmap_arrays r5 s5) ! fst (renderHeatmap_arrays r5 s5)"
    using renderHeatmap_data [of "s5 ! r5" p5 hc q5] w5 by simp
  have l7: "renderMomentumSpiral (s7 ! r7) p7 = (Inr sp, q7) \<longrightarrow>
      spData sp
        = snd (renderMomentumSpiral_arrays r7 s7) ! fst (renderMomentumSpiral_arrays r7 s7)"
    using renderMomentumSpiral_data [of "s7 ! r7" p7 sp q7] by (simp add: w7)
  show ?thesis using frame w2 w3 w4 w5 w7 new l2 l3 l4 l5 l7 by blast
qed

theorem input_arrays_unchanged_witness:
  "renderLeagueTrends_arrays 0 [[season2020, season2019]]
     = (1, [[season2020, season2019], [season2019, season2020]]) \<and>
   snd (renderLeagueTrends_arrays 0 [[season2020, season2019]]) ! 0 = [season2020, season2019] \<and>
   snd (renderTeamScatter_arrays 0 [[hawks2019, nuggets2020]]) ! 0 = [hawks2019, nuggets2020] \<and>
   snd (renderHeatmap_arrays 0 [[], []]) ! 1 = ([] :: HeatmapCell list) \<and>
   fst (renderLeagueTrends sampleFmt 960 [season2020, season2019] (startApp dashboardAnchors))
     = Inr \<lparr>lcData = [season2019, season2020], lcInnerWidth = 860, activeMetric = None,
            crosshair = None, focusDatum = None, visibleDots = [],
            legendButtons = [''avgThreeAttempts'', ''avgPoints'', ''avgThreeRate'']\<rparr> \<and>
   [season2019, season2020]
     = snd (renderLeagueTrends_arrays 0 [[season2020, season2019]])
         ! fst (renderLeagueTrends_arrays 0 [[season2020, season2019]])"
proof -
  let ?a = "startApp dashboardAnchors"
  let ?lc = "\<lparr>lcData = [season2019, season2020], lcInnerWidth = 860, activeMetric = None,
      crosshair = None, focusDatum = None, visibleDots = [],
      legendButtons = [''avgThreeAttempts'', ''avgPoints'', ''avgThreeRate'']\<rparr>"
  note inst = input_arrays_unchanged
    [where ?s2.0 = "[[season2020, season2019]]" and ?r2.0 = 0
       and ?s4.0 = "[[hawks2019, nuggets2020]]" and ?r4.0 = 0
       and ?s5.0 = "[[], [] :: HeatmapCell list]" and ?r5.0 = 0
       and nf = sampleFmt and w = 960 and ?p2.0 = ?a and lc = ?lc
       and ?q2.0 = "?a\<lparr>drawings := [''leagueTrendChart'']\<rparr>"]
  note frame = inst [THEN conjunct1]
  have a: "snd (renderLeagueTrends_arrays 0 [[season2020, season2019]]) ! 0
               = [season2020, season2019]"
    using frame [THEN conjunct2, THEN conjunct1, rule_format, of 0] by simp
  have b: "snd (renderTeamScatter_arrays 0 [[hawks2019, nuggets2020]]) ! 0
               = [hawks2019, nuggets2020]"
    using frame [THEN conjunct2, THEN conjunct2, THEN conjunct2, THEN conjunct1,
                 rule_format, of 0] by simp
  have c: "snd (renderHeatmap_arrays 0 [[], []]) ! 1 = ([] :: HeatmapCell list)"
    using frame [THEN conjunct2, THEN conjunct2, THEN conjunct2, THEN conjunct2,
                 THEN conjunct1, rule_format, of 1] by simp
  have d: "renderLeagueTrends_arrays 0 [[season2020, season2019]]
     = (1, [[season2020, season2019], [season2019, season2020]])"
    by (simp add: renderLeagueTrends_arrays_def sortedCopy_def array_slice_def alloc_def
        sort_in_place_def array_sort_def bySeason_def season2019_def season2020_def)
  have r: "renderLeagueTrends sampleFmt 960 [season2020, season2019] ?a
              = (Inr ?lc, ?a\<lparr>drawings := [''leagueTrendChart'']\<rparr>)"
    by (simp add: renderLeagueTrends_def clearContainer_def appendSvg_def startApp_def
        dashboardAnchors_def array_sort_def bySeason_def season2019_def season2020_def
        innerWidthOf_def metricConfig_def)
  have "lcData ?lc = snd (renderLeagueTrends_arrays 0 [[season2020, season2019]])
                       ! fst (renderLeagueTrends_arrays 0 [[season2020, season2019]])"
    using inst [THEN conjunct2, THEN conjunct2, THEN conjunct2, THEN conjunct1] r by simp
  then have e: "[season2019, season2020]
     = snd (renderLeagueTrends_arrays 0 [[season2020, season2019]])
         ! fst (renderLeagueTrends_arrays 0 [[season2020, season2019]])"
    by simp
  have r1: "fst (renderLeagueTrends sampleFmt 960 [season2020, season2019] ?a) = Inr ?lc"
    using r by simp
  show ?thesis using d a b c r1 e by blast
qed

end
